(* ===== verification/Prelude.thy ===== *)
theory Prelude
  imports Main "HOL-Library.Char_ord" "HOL-Library.List_Lexorder"
begin

text \<open>
  Shared vocabulary of the development: the Python exceptions the code raises, the
  error-passing combinator used by every fallible operation, Python dictionaries as
  insertion-ordered association lists, and the Python string primitives the source
  calls (\<open>str.isspace\<close>, \<open>str.strip\<close>, \<open>str.split\<close>, \<open>str.join\<close>,
  \<open>str.replace\<close>, \<open>str.startswith\<close>). Strings are \<open>char list\<close>, a \<open>char\<close>
  read as a code point below 256 (Latin-1); Python's code-point comparison of strings
  is then the lexicographic order of \<open>List_Lexorder\<close> over \<open>Char_ord\<close>.
\<close>

named_theorems pydict_simps "equations of the Python dictionary model"
named_theorems pystr_simps "equations of the Python string model"
named_theorems py_eval "unfoldings that evaluate the model on concrete inputs"

section \<open>Exceptions and error passing\<close>

datatype py_error =
    InvalidVersion
  | ValueError
  | KeyError
  | IndexError
  | TypeError
  | AttributeError
  | NotImplementedError
  | NoSuchElementException
  | StaleElementReferenceException
  | UnexpectedAlertPresentException
  | InvalidSelectorException
  | TimeoutException
  | FileNotFoundError
  | FileExistsError
  | NotADirectoryError
  | IsADirectoryError

type_synonym 'a py_result = "py_error + 'a"

fun py_bind :: "'a py_result \<Rightarrow> ('a \<Rightarrow> 'b py_result) \<Rightarrow> 'b py_result" where
  "py_bind (Inl e) f = Inl e"
| "py_bind (Inr x) f = f x"

text \<open>\<open>xs[0]\<close> raises \<open>IndexError\<close> on an empty list.\<close>

definition py_first :: "'a list \<Rightarrow> 'a py_result" where
  "py_first xs = (case xs of [] \<Rightarrow> Inl IndexError | x # _ \<Rightarrow> Inr x)"

lemma py_bind_Inr_iff [simp]:
  "py_bind m f = Inr y \<longleftrightarrow> (\<exists>x. m = Inr x \<and> f x = Inr y)"
  by (cases m) auto

lemma py_bind_Inl_iff:
  "py_bind m f = Inl e \<longleftrightarrow> m = Inl e \<or> (\<exists>x. m = Inr x \<and> f x = Inl e)"
  by (cases m) auto

section \<open>Dictionaries\<close>

text \<open>
  A Python \<open>dict\<close> keeps its keys in insertion order; assigning to an existing key
  replaces the value in place. The association list below has exactly that behaviour;
  its keys stay distinct.
\<close>

type_synonym ('k, 'v) pydict = "('k \<times> 'v) list"

fun dict_set :: "'k \<Rightarrow> 'v \<Rightarrow> ('k, 'v) pydict \<Rightarrow> ('k, 'v) pydict" where
  "dict_set k v [] = [(k, v)]"
| "dict_set k v ((a, b) # ps) = (if a = k then (a, v) # ps else (a, b) # dict_set k v ps)"

text \<open>\<open>d[k]\<close>: \<open>KeyError\<close> when the key is missing.\<close>

definition dict_get :: "('k, 'v) pydict \<Rightarrow> 'k \<Rightarrow> 'v py_result" where
  "dict_get d k = (case map_of d k of None \<Rightarrow> Inl KeyError | Some v \<Rightarrow> Inr v)"

text \<open>\<open>d |= e\<close> and \<open>d.update(e)\<close>: the pairs of \<open>e\<close> assigned in order.\<close>

definition dict_update :: "('k, 'v) pydict \<Rightarrow> ('k, 'v) pydict \<Rightarrow> ('k, 'v) pydict" where
  "dict_update d e = fold (\<lambda>(k, v). dict_set k v) e d"

lemma map_of_dict_set [simp, pydict_simps]:
  "map_of (dict_set k v d) = (map_of d)(k \<mapsto> v)"
  by (induction d) (auto simp: fun_eq_iff)

lemma keys_dict_set [pydict_simps]:
  "map fst (dict_set k v d) = (if k \<in> fst ` set d then map fst d else map fst d @ [k])"
  by (induction d) force+

lemma set_keys_dict_set [simp, pydict_simps]:
  "fst ` set (dict_set k v d) = insert k (fst ` set d)"
  by (induction d) (force split: if_splits)+

lemma distinct_dict_set [simp, pydict_simps]:
  "distinct (map fst d) \<Longrightarrow> distinct (map fst (dict_set k v d))"
  by (simp add: keys_dict_set)

lemma dict_get_Inr_iff [simp, pydict_simps]:
  "dict_get d k = Inr v \<longleftrightarrow> map_of d k = Some v"
  by (simp add: dict_get_def split: option.splits)

lemma dict_get_Inl_iff [pydict_simps]:
  "dict_get d k = Inl e \<longleftrightarrow> e = KeyError \<and> map_of d k = None"
  by (auto simp: dict_get_def split: option.splits)

lemma dict_update_Cons [simp]:
  "dict_update d ((k, v) # e) = dict_update (dict_set k v d) e"
  by (simp add: dict_update_def)

lemma dict_update_Nil [simp]: "dict_update d [] = d"
  by (simp add: dict_update_def)

lemma map_of_dict_update [pydict_simps]:
  "map_of (dict_update d e) = map_of d ++ map_of (rev e)"
proof (induction e arbitrary: d)
  case Nil
  then show ?case by simp
next
  case (Cons p e)
  obtain k v where p: "p = (k, v)" by fastforce
  have "map_of (dict_update d (p # e)) = map_of (dict_update (dict_set k v d) e)"
    by (simp add: p)
  also have "\<dots> = map_of (dict_set k v d) ++ map_of (rev e)"
    by (rule Cons.IH)
  also have "\<dots> = (map_of d)(k \<mapsto> v) ++ map_of (rev e)"
    by simp
  also have "\<dots> = map_of d ++ map_of (rev (p # e))"
    by (simp add: p map_add_upd_left [symmetric] map_add_assoc [symmetric])
  finally show ?case .
qed

lemma distinct_dict_update [pydict_simps]:
  "distinct (map fst d) \<Longrightarrow> distinct (map fst (dict_update d e))"
  by (induction e arbitrary: d) auto

section \<open>Strings\<close>

text \<open>\<open>str.isspace\<close> on the code points below 256: tab to carriage return, the four
  separator controls \<open>\x1c\<close>..\<open>\x1f\<close>, the space, \<open>\x85\<close> and the no-break
  space \<open>\xa0\<close>.\<close>

definition py_isspace :: "char \<Rightarrow> bool" where
  "py_isspace c \<longleftrightarrow> of_char c \<in> {9, 10, 11, 12, 13, 28, 29, 30, 31, 32, 133, 160 :: nat}"

definition py_strip :: "string \<Rightarrow> string" where
  "py_strip s = rev (dropWhile py_isspace (rev (dropWhile py_isspace s)))"

declare py_isspace_def [py_eval] py_strip_def [py_eval] char_of_def [py_eval] bit_iff_odd [py_eval]
  Let_def [py_eval]

text \<open>\<open>str.split()\<close> with no separator: the maximal runs of non-space characters.
  The second argument is the current word, reversed.\<close>

fun split_acc :: "string \<Rightarrow> string \<Rightarrow> string list" where
  "split_acc [] w = (if w = [] then [] else [rev w])"
| "split_acc (c # cs) w =
     (if py_isspace c then (if w = [] then split_acc cs [] else rev w # split_acc cs [])
      else split_acc cs (c # w))"

definition py_split :: "string \<Rightarrow> string list" where
  "py_split s = split_acc s []"

declare py_split_def [py_eval]

fun py_join :: "string \<Rightarrow> string list \<Rightarrow> string" where
  "py_join sep [] = []"
| "py_join sep [w] = w"
| "py_join sep (w # v # ws) = w @ sep @ py_join sep (v # ws)"

text \<open>\<open>str.replace(old, new)\<close>: leftmost, non-overlapping occurrences; an empty
  \<open>old\<close> inserts \<open>new\<close> around every character, as Python does.\<close>

function replace_from :: "string \<Rightarrow> string \<Rightarrow> string \<Rightarrow> string" where
  "replace_from old new [] = []"
| "replace_from old new (c # cs) =
     (if old \<noteq> [] \<and> take (length old) (c # cs) = old
      then new @ replace_from old new (drop (length old) (c # cs))
      else c # replace_from old new cs)"
  by pat_completeness auto
termination
  by (relation "measure (\<lambda>(old, new, s). length s)") auto

definition py_replace :: "string \<Rightarrow> string \<Rightarrow> string \<Rightarrow> string" where
  "py_replace old new s =
     (if old = [] then new @ concat (map (\<lambda>c. c # new) s) else replace_from old new s)"

definition py_startswith :: "string \<Rightarrow> string \<Rightarrow> bool" where
  "py_startswith s p \<longleftrightarrow> take (length p) s = p"

declare py_replace_def [py_eval]

text \<open>\<open>x or d\<close> for an argument \<open>x\<close> that is \<open>None\<close> or an object, every object
  being true.\<close>

definition py_or :: "'a option \<Rightarrow> 'a \<Rightarrow> 'a" where
  "py_or x d = (case x of None \<Rightarrow> d | Some y \<Rightarrow> y)"

declare py_or_def [py_eval]

subsection \<open>Lemmas on the string primitives\<close>

lemma split_acc_words:
  "\<forall>c \<in> set w. \<not> py_isspace c \<Longrightarrow> x \<in> set (split_acc s w) \<Longrightarrow>
     x \<noteq> [] \<and> (\<forall>c \<in> set x. \<not> py_isspace c)"
proof (induction s w rule: split_acc.induct)
  case (1 w)
  then show ?case by (simp split: if_splits)
next
  case (2 c cs w)
  show ?case
  proof (cases "py_isspace c")
    case True
    with "2.prems"(2) have "x = rev w \<and> w \<noteq> [] \<or> x \<in> set (split_acc cs [])"
      by (simp split: if_splits)
    then show ?thesis
    proof
      assume "x = rev w \<and> w \<noteq> []"
      with "2.prems"(1) show ?thesis by simp
    next
      assume x: "x \<in> set (split_acc cs [])"
      show ?thesis
      proof (cases "w = []")
        case True
        show ?thesis by (rule "2.IH"(1) [OF \<open>py_isspace c\<close> True _ x]) simp
      next
        case False
        show ?thesis by (rule "2.IH"(2) [OF \<open>py_isspace c\<close> False _ x]) simp
      qed
    qed
  next
    case False
    from False "2.prems"(2) have x: "x \<in> set (split_acc cs (c # w))" by simp
    from False "2.prems"(1) have "\<forall>c' \<in> set (c # w). \<not> py_isspace c'" by simp
    from "2.IH"(3) [OF False this x] show ?thesis .
  qed
qed
lemma py_split_words [pystr_simps]:
  "x \<in> set (py_split s) \<Longrightarrow> x \<noteq> [] \<and> (\<forall>c \<in> set x. \<not> py_isspace c)"
  unfolding py_split_def using split_acc_words [of "[]"] by auto

lemma split_acc_nospace:
  "\<forall>c \<in> set s. \<not> py_isspace c \<Longrightarrow> split_acc s w = (if s @ rev w = [] then [] else [rev w @ s])"
  by (induction s arbitrary: w) auto

lemma split_acc_space_append:
  "py_isspace c \<Longrightarrow> split_acc (x @ c # s) w = split_acc x w @ split_acc s []"
  by (induction x w rule: split_acc.induct) auto

lemma py_split_join:
  "\<forall>x \<in> set ws. x \<noteq> [] \<and> (\<forall>c \<in> set x. \<not> py_isspace c) \<Longrightarrow>
     py_split (py_join '' '' ws) = ws"
proof (induction "'' ''" ws rule: py_join.induct)
  case 1
  then show ?case by (simp add: py_split_def)
next
  case (2 w)
  then show ?case by (simp add: py_split_def split_acc_nospace)
next
  case (3 w v ws)
  have sp: "py_isspace (CHR '' '')" by (simp add: py_isspace_def)
  from "3.prems" have w: "split_acc w [] = [w]"
    by (simp add: split_acc_nospace)
  from "3.prems" have rest: "py_split (py_join '' '' (v # ws)) = v # ws"
    by (intro "3"(1)) simp
  have "py_split (py_join '' '' (w # v # ws)) =
          split_acc w [] @ py_split (py_join '' '' (v # ws))"
    by (simp add: py_split_def split_acc_space_append [OF sp])
  with w rest show ?case by simp
qed

lemma py_join_nospace:
  "\<forall>x \<in> set ws. \<forall>c \<in> set x. \<not> py_isspace c \<Longrightarrow>
     c \<in> set (py_join '' '' ws) \<Longrightarrow> py_isspace c \<Longrightarrow> c = CHR '' ''"
  by (induction "'' ''" ws rule: py_join.induct) auto

lemma set_py_join_sub:
  "set (py_join sep ws) \<subseteq> set sep \<union> \<Union> (set ` set ws)"
  by (induction sep ws rule: py_join.induct) auto

lemma concat_split_acc:
  "\<forall>c \<in> set w. \<not> py_isspace c \<Longrightarrow>
     concat (split_acc s w) = rev w @ filter (\<lambda>c. \<not> py_isspace c) s"
  by (induction s w rule: split_acc.induct) auto

lemma filter_py_join:
  "\<forall>x \<in> set ws. \<forall>c \<in> set x. \<not> py_isspace c \<Longrightarrow>
     filter (\<lambda>c. \<not> py_isspace c) (py_join '' '' ws) = concat ws"
  by (induction "'' ''" ws rule: py_join.induct) (auto simp: py_isspace_def)

lemma py_join_hd_last:
  assumes "ws \<noteq> []" and "\<forall>x \<in> set ws. x \<noteq> []"
  shows "py_join sep ws \<noteq> [] \<and> hd (py_join sep ws) = hd (hd ws)
         \<and> last (py_join sep ws) = last (last ws)"
  using assms by (induction sep ws rule: py_join.induct) auto

lemma py_strip_id:
  assumes "s = [] \<or> (\<not> py_isspace (hd s) \<and> \<not> py_isspace (last s))"
  shows "py_strip s = s"
proof (cases "s = []")
  case True
  then show ?thesis by (simp add: py_strip_def)
next
  case False
  with assms obtain a t where s: "s = a # t" and a: "\<not> py_isspace a"
    by (cases s) auto
  from False assms obtain b u where r: "rev s = b # u" and b: "\<not> py_isspace b"
    by (cases "rev s") (auto simp: last_rev [symmetric] hd_rev)
  have "dropWhile py_isspace s = s" using s a by simp
  moreover have "dropWhile py_isspace (rev s) = rev s" using r b by simp
  ultimately show ?thesis by (simp add: py_strip_def)
qed

lemma py_strip_py_join:
  "\<forall>x \<in> set ws. x \<noteq> [] \<and> (\<forall>c \<in> set x. \<not> py_isspace c) \<Longrightarrow>
     py_strip (py_join '' '' ws) = py_join '' '' ws"
proof (cases "ws = []")
  case True
  then show ?thesis by (simp add: py_strip_def)
next
  case False
  assume w: "\<forall>x \<in> set ws. x \<noteq> [] \<and> (\<forall>c \<in> set x. \<not> py_isspace c)"
  with False have hl: "py_join '' '' ws \<noteq> [] \<and> hd (py_join '' '' ws) = hd (hd ws)
         \<and> last (py_join '' '' ws) = last (last ws)"
    by (intro py_join_hd_last) auto
  from False w have "hd ws \<in> set ws" "last ws \<in> set ws" "hd ws \<noteq> []" "last ws \<noteq> []"
    by auto
  with w have "\<not> py_isspace (hd (hd ws))" "\<not> py_isspace (last (last ws))"
    by (meson hd_in_set last_in_set)+
  with hl show ?thesis by (intro py_strip_id) simp
qed

lemma distinct_map_sort_key [simp]:
  "distinct (map f (sort_key f xs)) = distinct (map f xs)"
  by (induction xs) (auto simp: distinct_insort_key)

lemma dict_update_fresh:
  "distinct (map fst d) \<Longrightarrow> fst ` set acc \<inter> fst ` set d = {} \<Longrightarrow> dict_update acc d = acc @ d"
proof (induction d arbitrary: acc)
  case Nil
  then show ?case by simp
next
  case (Cons p d)
  obtain k v where p: "p = (k, v)" by fastforce
  from Cons.prems p have fresh: "k \<notin> fst ` set acc" by auto
  then have "dict_set k v acc = acc @ [(k, v)]"
    by (induction acc) auto
  with Cons.prems p show ?case
    using Cons.IH [of "acc @ [(k, v)]"] by auto
qed


section \<open>Lists and maps\<close>

lemma find_map_option: "find P (map f xs) = map_option f (find (P \<circ> f) xs)"
  by (induction xs) auto

lemma map_of_filter_key [pydict_simps]: "map_of (filter (\<lambda>(q, _). P q) xs) k = (if P k then map_of xs k else None)"
  by (induction xs) auto

lemma map_le_Some: "m \<subseteq>\<^sub>m m' \<Longrightarrow> m k = Some v \<Longrightarrow> m' k = Some v"
  unfolding map_le_def by (metis domI)

end
