(* ===== verification/Normalise_Text.thy ===== *)
theory Normalise_Text
  imports Prelude
begin

text \<open>
  Text normalisation of \<open>SeleniumHelper\<close> (src/lbrc_selenium/selenium.py):
  \<open>RE_REMOVE_HTML_TAGS = re.compile('<.*?>')\<close> applied with \<open>re.sub\<close>,
  \<open>normalise_text\<close>, and \<open>Scrubber.cleanse\<close>. The regular expression is translated
  into the scan \<open>re.sub\<close> performs: at each \<open><\<close> the shortest match ends at the first
  \<open>>\<close>, and \<open>.\<close> does not match a newline, so a \<open><\<close> with no \<open>>\<close> before the
  next newline is kept and the scan goes on with the next character.
\<close>

abbreviation nl :: char where "nl \<equiv> CHR 0x0A"

text \<open>The part of \<open>.*?>\<close> after the \<open><\<close>: the rest of the text after the first
  \<open>>\<close>, or \<open>None\<close> when a newline or the end comes first.\<close>

fun close_tag :: "string \<Rightarrow> string option" where
  "close_tag [] = None"
| "close_tag (c # cs) =
     (if c = CHR ''>'' then Some cs else if c = nl then None else close_tag cs)"

lemma close_tag_length: "close_tag s = Some r \<Longrightarrow> length r < length s"
  by (induction s) (auto split: if_splits)

text \<open>\<open>re.sub('<.*?>', '', value)\<close>.\<close>

function remove_tags :: "string \<Rightarrow> string" where
  "remove_tags [] = []"
| "remove_tags (c # cs) =
     (if c = CHR ''<''
      then (case close_tag cs of Some r \<Rightarrow> remove_tags r | None \<Rightarrow> c # remove_tags cs)
      else c # remove_tags cs)"
  by pat_completeness auto
termination
  by (relation "measure length") (auto dest: close_tag_length)

text \<open>\<open>normalise_text(value)\<close>: tags removed from \<open>value or ''\<close>, then
  \<open>' '.join(s.split()).strip()\<close>.\<close>

definition normalise_text :: "string option \<Rightarrow> string" where
  "normalise_text value =
     py_strip (py_join '' '' (py_split (remove_tags (case value of None \<Rightarrow> [] | Some s \<Rightarrow> s))))"

text \<open>\<open>Scrubber.cleanse(value)\<close>: \<open>None\<close> for a falsy value (\<open>None\<close> or the empty
  string), otherwise \<open>&nbsp;\<close> replaced by a space and the result stripped.\<close>

definition cleanse :: "string option \<Rightarrow> string option" where
  "cleanse value =
     (case value of
        None \<Rightarrow> None
      | Some s \<Rightarrow> if s = [] then None else Some (py_strip (py_replace ''&nbsp;'' '' '' s)))"

declare normalise_text_def [py_eval] cleanse_def [py_eval]

section \<open>Tag-free text\<close>

text \<open>A text is tag free when no \<open><\<close> in it starts a match of \<open><.*?>\<close>.\<close>

fun tag_free :: "string \<Rightarrow> bool" where
  "tag_free [] = True"
| "tag_free (c # cs) = ((c = CHR ''<'' \<longrightarrow> close_tag cs = None) \<and> tag_free cs)"

lemma close_tag_None_remove_tags:
  "close_tag s = None \<Longrightarrow> close_tag (remove_tags s) = None"
proof (induction s rule: remove_tags.induct)
  case 1
  then show ?case by simp
next
  case (2 c cs)
  have "c \<noteq> CHR ''>''" using "2.prems" by (auto split: if_splits)
  show ?case
  proof (cases "c = nl")
    case True
    then show ?thesis by simp
  next
    case False
    with \<open>c \<noteq> CHR ''>''\<close> "2.prems" have cs: "close_tag cs = None" by simp
    with "2.IH" False \<open>c \<noteq> CHR ''>''\<close> show ?thesis by simp
  qed
qed

lemma tag_free_remove_tags: "tag_free (remove_tags s)"
proof (induction s rule: remove_tags.induct)
  case 1
  then show ?case by simp
next
  case (2 c cs)
  then show ?case
    by (auto simp: close_tag_None_remove_tags split: option.splits)
qed

lemma remove_tags_tag_free: "tag_free s \<Longrightarrow> remove_tags s = s"
  by (induction s rule: remove_tags.induct) (auto split: option.splits)

section \<open>Properties of normalise_text\<close>

lemma normalise_text_eq:
  "normalise_text v = py_join '' '' (py_split (remove_tags (case v of None \<Rightarrow> [] | Some s \<Rightarrow> s)))"
  unfolding normalise_text_def
  by (rule py_strip_py_join) (blast dest: py_split_words)


lemma set_close_tag: "close_tag cs = Some r \<Longrightarrow> set r \<subseteq> set cs"
  by (induction cs) (auto split: if_splits)

lemma set_remove_tags: "set (remove_tags s) \<subseteq> set s"
proof (induction s rule: remove_tags.induct)
  case (2 c cs)
  show ?case
  proof (cases "c = CHR ''<''")
    case True
    show ?thesis
    proof (cases "close_tag cs")
      case None
      with True "2.IH" show ?thesis by auto
    next
      case (Some r)
      with True "2.IH" set_close_tag [OF Some] show ?thesis by auto
    qed
  next
    case False
    with "2.IH"(3) show ?thesis by auto
  qed
qed simp

lemma close_tag_single_line:
  "nl \<notin> set x \<Longrightarrow> close_tag x = None \<longleftrightarrow> CHR ''>'' \<notin> set x"
  by (induction x) auto

fun lt_gt_free :: "string \<Rightarrow> bool" where
  "lt_gt_free [] = True"
| "lt_gt_free (c # cs) = (if c = CHR ''<'' then CHR ''>'' \<notin> set cs else lt_gt_free cs)"

lemma lt_gt_free_no_gt: "CHR ''>'' \<notin> set x \<Longrightarrow> lt_gt_free x"
  by (induction x) auto

lemma tag_free_single_line: "nl \<notin> set x \<Longrightarrow> tag_free x = lt_gt_free x"
  by (induction x) (auto simp: close_tag_single_line lt_gt_free_no_gt)

lemma lt_gt_free_filter:
  "lt_gt_free (filter (\<lambda>c. \<not> py_isspace c) x) = lt_gt_free x"
  by (induction x) (auto simp: py_isspace_def)

lemma normalise_text_chars:
  "c \<in> set (normalise_text v) \<Longrightarrow> py_isspace c \<Longrightarrow> c = CHR '' ''"
  unfolding normalise_text_eq
  by (rule py_join_nospace) (auto dest: py_split_words)

lemma filter_normalise_text:
  "filter (\<lambda>c. \<not> py_isspace c) (normalise_text (Some s)) =
     filter (\<lambda>c. \<not> py_isspace c) (remove_tags s)"
proof -
  let ?t = "remove_tags s"
  have "\<forall>x \<in> set (py_split ?t). \<forall>c \<in> set x. \<not> py_isspace c"
    using py_split_words by blast
  then have "filter (\<lambda>c. \<not> py_isspace c) (py_join '' '' (py_split ?t)) = concat (py_split ?t)"
    by (rule filter_py_join)
  also have "\<dots> = filter (\<lambda>c. \<not> py_isspace c) ?t"
    by (simp add: py_split_def concat_split_acc)
  finally show ?thesis by (simp add: normalise_text_eq)
qed

lemma normalise_text_whitespace_normal:
  "py_join '' '' (py_split (normalise_text v)) = normalise_text v"
  unfolding normalise_text_eq
  by (simp add: py_split_join py_split_words)

text \<open>On text without a newline, \<open>normalise_text\<close> is idempotent: normalising
  its result again changes nothing.\<close>

theorem normalise_text_idempotent_single_line:
  assumes "nl \<notin> set s"
  shows "normalise_text (Some (normalise_text (Some s))) = normalise_text (Some s)"
proof -
  let ?t = "remove_tags s" and ?n = "normalise_text (Some s)"
  have t1: "nl \<notin> set ?t" using assms set_remove_tags by blast
  have n1: "nl \<notin> set ?n"
    using normalise_text_chars [of nl] by (auto simp: py_isspace_def)
  have "lt_gt_free ?t" using tag_free_remove_tags tag_free_single_line [OF t1] by simp
  then have "lt_gt_free ?n"
    by (metis filter_normalise_text lt_gt_free_filter)
  then have "tag_free ?n" using tag_free_single_line [OF n1] by simp
  then have "remove_tags ?n = ?n" by (rule remove_tags_tag_free)
  then show ?thesis
    using normalise_text_whitespace_normal [of "Some s"]
    by (simp add: normalise_text_eq [of "Some ?n"])
qed

text \<open>On text with a newline \<open>normalise_text\<close> is not idempotent: a \<open><\<close> and a
  \<open>>\<close> on different lines survive the tag removal, the newline becomes a space, and a
  second normalisation removes them as a tag.\<close>

theorem normalise_text_not_idempotent_multi_line:
  "normalise_text (Some (''a<'' @ [nl] @ ''b>'')) = ''a< b>''
   \<and> normalise_text (Some (normalise_text (Some (''a<'' @ [nl] @ ''b>'')))) = ''a''"
  by (simp add: normalise_text_def py_split_def py_strip_def py_isspace_def)

theorem normalise_text_idempotent_single_line_witness:
  "nl \<notin> set '' Foo <b>Bar</b> ''
   \<and> normalise_text (Some '' Foo <b>Bar</b> '') = ''Foo Bar''
   \<and> normalise_text (Some ''Foo Bar'') = ''Foo Bar''"
proof -
  have h: "nl \<notin> set '' Foo <b>Bar</b> ''" by simp
  have n: "normalise_text (Some '' Foo <b>Bar</b> '') = ''Foo Bar''"
    by (simp add: normalise_text_def py_eval)
  from h n normalise_text_idempotent_single_line [OF h] show ?thesis by simp
qed

text \<open>C26: the result of \<open>normalise_text\<close> is in whitespace normal form: no space at
  either end, no whitespace but single spaces between words, so that splitting and
  joining it gives it back.\<close>

theorem normalise_text_canonical:
  "py_strip (normalise_text v) = normalise_text v
   \<and> (\<forall>c \<in> set (normalise_text v). py_isspace c \<longrightarrow> c = CHR '' '')
   \<and> py_join '' '' (py_split (normalise_text v)) = normalise_text v"
proof (intro conjI ballI impI)
  show "py_strip (normalise_text v) = normalise_text v"
    unfolding normalise_text_eq by (rule py_strip_py_join) (blast dest: py_split_words)
next
  fix c assume "c \<in> set (normalise_text v)" "py_isspace c"
  then show "c = CHR '' ''" by (rule normalise_text_chars)
next
  show "py_join '' '' (py_split (normalise_text v)) = normalise_text v"
    by (rule normalise_text_whitespace_normal)
qed

theorem normalise_text_canonical_witness:
  "normalise_text (Some ''  a  <i>b</i>'' ) = ''a b''
   \<and> py_strip ''a b'' = ''a b''
   \<and> py_join '' '' (py_split ''a b'') = ''a b''"
proof -
  have n: "normalise_text (Some ''  a  <i>b</i>'' ) = ''a b''"
    by (simp add: normalise_text_def py_eval)
  from n normalise_text_canonical [of "Some ''  a  <i>b</i>''"] show ?thesis by simp
qed

end
