(* ===== verification/Version.thy ===== *)
theory Version
  imports Prelude
begin

text \<open>
  Version strings and the version-indexed lookups of \<open>SeleniumHelper\<close>
  (src/lbrc_selenium/selenium.py, \<open>get_compare_version_item\<close> and
  \<open>get_version_item\<close>). The code parses versions with \<open>packaging.version.parse\<close>; the
  model covers the release-only versions \<open>[v]N(.N)*\<close> with surrounding whitespace,
  and every other string is \<open>InvalidVersion\<close> (epochs, pre-, post-, dev- and local
  segments, which \<open>packaging\<close> accepts, are outside the model). A \<open>Version\<close> keeps its
  release numbers as parsed; it compares and hashes by its key, the release with the
  trailing zeros removed, so that \<open>1.0 == 1\<close>; \<open>str()\<close> prints the release numbers
  joined by dots.
\<close>

record version =
  release :: "nat list"

definition vkey :: "version \<Rightarrow> nat list" where
  "vkey v = rev (dropWhile (\<lambda>n. n = 0) (rev (release v)))"

definition is_digit :: "char \<Rightarrow> bool" where
  "is_digit c \<longleftrightarrow> (48 :: nat) \<le> of_char c \<and> of_char c \<le> (57 :: nat)"

definition digits_val :: "string \<Rightarrow> nat" where
  "digits_val s = foldl (\<lambda>n c. 10 * n + (of_char c - 48)) 0 s"

text \<open>Splitting at dots, keeping empty pieces (\<open>1..2\<close> has an empty piece).\<close>

fun split_dots :: "string \<Rightarrow> string \<Rightarrow> string list" where
  "split_dots [] w = [rev w]"
| "split_dots (c # cs) w = (if c = CHR ''.'' then rev w # split_dots cs [] else split_dots cs (c # w))"

definition parse_release :: "string \<Rightarrow> nat list option" where
  "parse_release s =
     (let ps = split_dots s []
      in if (\<forall>p \<in> set ps. p \<noteq> [] \<and> (\<forall>c \<in> set p. is_digit c)) then Some (map digits_val ps) else None)"

text \<open>\<open>version.parse(s)\<close>: surrounding whitespace and a leading \<open>v\<close> or \<open>V\<close> are
  accepted.\<close>

definition parse_version :: "string \<Rightarrow> version py_result" where
  "parse_version s =
     (let t = py_strip s;
          u = (case t of c # r \<Rightarrow> if c = CHR ''v'' \<or> c = CHR ''V'' then r else t | [] \<Rightarrow> [])
      in case parse_release u of Some ns \<Rightarrow> Inr \<lparr>release = ns\<rparr> | None \<Rightarrow> Inl InvalidVersion)"

fun nat_str :: "nat \<Rightarrow> string" where
  "nat_str n = (if n < 10 then [char_of (48 + n)] else nat_str (n div 10) @ [char_of (48 + n mod 10)])"

declare nat_str.simps [simp del]

declare parse_version_def [py_eval] parse_release_def [py_eval] is_digit_def [py_eval]
  digits_val_def [py_eval] vkey_def [py_eval] nat_str.simps [py_eval]

text \<open>\<open>str(Version)\<close> of a release-only version.\<close>

definition version_str :: "version \<Rightarrow> string" where
  "version_str v = py_join ''.'' (map nat_str (release v))"

declare version_str_def [py_eval]

text \<open>Python's \<open>max(xs)\<close>: \<open>ValueError\<close> on an empty sequence; otherwise an element
  replaces the current maximum only when it is strictly greater, so the first of equal
  maxima is returned. \<open>gt x m\<close> is \<open>x > m\<close>.\<close>

definition py_max :: "('a \<Rightarrow> 'a \<Rightarrow> bool) \<Rightarrow> 'a list \<Rightarrow> 'a py_result" where
  "py_max gt xs =
     (case xs of [] \<Rightarrow> Inl ValueError | x # ys \<Rightarrow> Inr (fold (\<lambda>y m. if gt y m then y else m) ys x))"

text \<open>A list comprehension whose condition may raise: the first exception wins.\<close>

fun filter_r :: "('a \<Rightarrow> bool py_result) \<Rightarrow> 'a list \<Rightarrow> 'a list py_result" where
  "filter_r P [] = Inr []"
| "filter_r P (x # xs) =
     py_bind (P x) (\<lambda>b. py_bind (filter_r P xs) (\<lambda>ys. Inr (if b then x # ys else ys)))"

fun map_r :: "('a \<Rightarrow> 'b py_result) \<Rightarrow> 'a list \<Rightarrow> 'b list py_result" where
  "map_r f [] = Inr []"
| "map_r f (x # xs) = py_bind (f x) (\<lambda>y. py_bind (map_r f xs) (\<lambda>ys. Inr (y # ys)))"

text \<open>
  The lookups below are written over the version library they call: \<open>parse\<close> is
  \<open>version.parse\<close>, \<open>key\<close> the key its versions compare by (\<open>v <= w\<close> is
  \<open>key v \<le> key w\<close>) and \<open>str\<close> is \<open>str()\<close> of a version. The release-only model
  of this theory is one instance; \<open>packaging.version\<close> in full (Pep440.thy) is the
  other.
\<close>

definition version_le_with :: "(string \<Rightarrow> 'v py_result) \<Rightarrow> ('v \<Rightarrow> 'k::linorder) \<Rightarrow> 'v \<Rightarrow> string \<Rightarrow> bool py_result" where
  "version_le_with parse key cv k = py_bind (parse k) (\<lambda>v. Inr (key v \<le> key cv))"

text \<open>
  \<^verbatim>\<open>
  def get_compare_version_item(self, versions):
      cv = version.parse(self.compare_version)
      latest_version = max([k for k in versions.keys() if version.parse(k) <= cv])
      return versions[latest_version]
  \<close>
  The maximum is taken over the key strings themselves.
\<close>

definition get_compare_version_item_with ::
  "(string \<Rightarrow> 'v py_result) \<Rightarrow> ('v \<Rightarrow> 'k::linorder) \<Rightarrow> string \<Rightarrow> (string, 'a) pydict \<Rightarrow> 'a py_result" where
  "get_compare_version_item_with parse key compare_version versions =
     py_bind (parse compare_version) (\<lambda>cv.
     py_bind (filter_r (version_le_with parse key cv) (map fst versions)) (\<lambda>ks.
     py_bind (py_max (\<lambda>x m. m < x) ks) (\<lambda>latest.
     dict_get versions latest)))"

text \<open>
  \<^verbatim>\<open>
  def get_version_item(self, versions):
      cv = version.parse(self.version)
      latest_version = max(map(version.parse, [k for k in versions.keys() if version.parse(k) <= cv]))
      return versions[str(latest_version)]
  \<close>
\<close>

definition get_version_item_with ::
  "(string \<Rightarrow> 'v py_result) \<Rightarrow> ('v \<Rightarrow> 'k::linorder) \<Rightarrow> ('v \<Rightarrow> string) \<Rightarrow> string \<Rightarrow> (string, 'a) pydict
     \<Rightarrow> 'a py_result" where
  "get_version_item_with parse key str ver versions =
     py_bind (parse ver) (\<lambda>cv.
     py_bind (filter_r (version_le_with parse key cv) (map fst versions)) (\<lambda>ks.
     py_bind (map_r parse ks) (\<lambda>vs.
     py_bind (py_max (\<lambda>x m. key m < key x) vs) (\<lambda>latest.
     dict_get versions (str latest)))))"

text \<open>Both lookups with the release-only versions of this theory.\<close>

definition get_compare_version_item :: "string \<Rightarrow> (string, 'a) pydict \<Rightarrow> 'a py_result" where
  "get_compare_version_item = get_compare_version_item_with parse_version vkey"

definition get_version_item :: "string \<Rightarrow> (string, 'a) pydict \<Rightarrow> 'a py_result" where
  "get_version_item = get_version_item_with parse_version vkey version_str"

declare version_le_with_def [py_eval] get_compare_version_item_with_def [py_eval]
  get_version_item_with_def [py_eval]

section \<open>Lemmas\<close>

lemma fold_max_eq: "fold (\<lambda>y m. if m < y then y else m) ys x = fold max ys (x::'a::linorder)"
proof -
  have "(\<lambda>y m. if m < y then y else (m::'a)) = max"
    by (auto simp: fun_eq_iff max_def)
  then show ?thesis by simp
qed

lemma py_max_Max:
  "xs \<noteq> [] \<Longrightarrow> py_max (\<lambda>x m. m < x) xs = Inr (Max (set (xs :: 'a::linorder list)))"
proof (cases xs)
  case (Cons a ys)
  have "Max (set (a # ys)) = fold max ys a" by (rule Max.set_eq_fold)
  with Cons show ?thesis by (simp add: py_max_def fold_max_eq)
qed simp

lemma fold_max_key:
  "let r = fold (\<lambda>y m. if f m < f y then y else m) ys x
   in r \<in> set (x # ys) \<and> (\<forall>z \<in> set (x # ys). f z \<le> (f r :: 'b::linorder))"
proof (induction ys arbitrary: x)
  case Nil
  then show ?case by simp
next
  case (Cons y ys)
  show ?case
    using Cons.IH [of "if f x < f y then y else x"]
    by (auto simp: Let_def split: if_splits)
qed

lemma py_max_key:
  assumes "xs \<noteq> []"
  shows "\<exists>r. py_max (\<lambda>x m. f m < f x) xs = Inr r \<and> r \<in> set xs
              \<and> (\<forall>z \<in> set xs. f z \<le> (f r :: 'b::linorder))"
  using assms fold_max_key [of f] by (cases xs) (auto simp: py_max_def Let_def)

lemma filter_r_Inr:
  "\<forall>x \<in> set xs. P x = Inr (Q x) \<Longrightarrow> filter_r P xs = Inr (filter Q xs)"
  by (induction xs) auto

lemma map_r_Inr:
  "\<forall>x \<in> set xs. f x = Inr (g x) \<Longrightarrow> map_r f xs = Inr (map g xs)"
  by (induction xs) auto

lemma filter_r_InrD: "filter_r P xs = Inr ys \<Longrightarrow> \<forall>y \<in> set ys. y \<in> set xs \<and> P y = Inr True"
proof (induction xs arbitrary: ys)
  case (Cons x xs)
  then show ?case by (cases "P x") (auto split: if_splits)
qed simp

lemma map_r_InrD_set: "map_r f xs = Inr ys \<Longrightarrow> \<forall>y \<in> set ys. \<exists>x \<in> set xs. f x = Inr y"
proof (induction xs arbitrary: ys)
  case (Cons x xs)
  then show ?case by (cases "f x") fastforce+
qed simp

lemma fold_max_in: "fold (\<lambda>y m. if gt y m then y else m) ys x \<in> set (x # ys)"
proof (induction ys arbitrary: x)
  case (Cons y ys)
  have "fold (\<lambda>y m. if gt y m then y else m) ys (if gt y x then y else x) \<in> set ((if gt y x then y else x) # ys)"
    by (rule Cons.IH)
  then show ?case by auto
qed simp

lemma py_max_in: "py_max gt xs = Inr r \<Longrightarrow> r \<in> set xs"
  using fold_max_in [of gt] by (cases xs) (auto simp: py_max_def)

lemma digits_val_snoc: "digits_val (xs @ [c]) = 10 * digits_val xs + (of_char c - 48)"
  by (simp add: digits_val_def)

lemma nat_str_props:
  "nat_str n \<noteq> [] \<and> (\<forall>c \<in> set (nat_str n). is_digit c) \<and> digits_val (nat_str n) = n"
proof (induction n rule: nat_str.induct)
  case (1 n)
  show ?case
  proof (cases "n < 10")
    case True
    then show ?thesis
      by (simp add: nat_str.simps [of n] is_digit_def digits_val_def)
  next
    case False
    have "n mod 10 < 10" by simp
    then have d: "is_digit (char_of (48 + n mod 10))" "of_char (char_of (48 + n mod 10) :: char) - 48 = n mod 10"
      by (simp_all add: is_digit_def of_char_of)
    from False "1.IH" d show ?thesis
      by (simp add: nat_str.simps [of n] digits_val_snoc)
  qed
qed


lemma split_dots_append:
  "CHR ''.'' \<notin> set w \<Longrightarrow> split_dots (w @ s) acc = split_dots s (rev w @ acc)"
  by (induction w arbitrary: acc) auto

lemma split_dots_py_join:
  "ws \<noteq> [] \<Longrightarrow> \<forall>w \<in> set ws. CHR ''.'' \<notin> set w \<Longrightarrow> split_dots (py_join ''.'' ws) [] = ws"
proof (induction "''.''" ws rule: py_join.induct)
  case (2 w)
  then show ?case using split_dots_append [of w "[]" "[]"] by simp
next
  case (3 w v ws)
  then show ?case using split_dots_append [of w "CHR ''.'' # py_join ''.'' (v # ws)" "[]"] by simp
qed simp

lemma is_digit_not_special:
  "is_digit c \<Longrightarrow> c \<noteq> CHR ''.'' \<and> \<not> py_isspace c \<and> c \<noteq> CHR ''v'' \<and> c \<noteq> CHR ''V''"
  by (auto simp: is_digit_def py_isspace_def)

lemma version_str_shape:
  assumes "release v \<noteq> []"
  shows "version_str v \<noteq> [] \<and> is_digit (hd (version_str v)) \<and> is_digit (last (version_str v))"
proof -
  let ?ws = "map nat_str (release v)"
  have ne: "\<forall>x \<in> set ?ws. x \<noteq> []" using nat_str_props by auto
  from assms have "?ws \<noteq> []" by simp
  from this ne have hl: "py_join ''.'' ?ws \<noteq> [] \<and> hd (py_join ''.'' ?ws) = hd (hd ?ws)
         \<and> last (py_join ''.'' ?ws) = last (last ?ws)"
    by (rule py_join_hd_last)
  have "hd ?ws \<in> set ?ws" using \<open>?ws \<noteq> []\<close> by (rule hd_in_set)
  moreover have "last ?ws \<in> set ?ws" using \<open>?ws \<noteq> []\<close> by (rule last_in_set)
  moreover have dig: "\<forall>x \<in> set ?ws. x \<noteq> [] \<and> (\<forall>c \<in> set x. is_digit c)"
    using nat_str_props by auto
  ultimately have "is_digit (hd (hd ?ws)) \<and> is_digit (last (last ?ws))"
    by (meson hd_in_set last_in_set)
  with hl show ?thesis by (simp add: version_str_def)
qed

text \<open>Printing a release-only version with \<open>str()\<close> and parsing the text again
  gives the same version back.\<close>

theorem parse_version_str:
  assumes "release v \<noteq> []"
  shows "parse_version (version_str v) = Inr v"
proof -
  let ?s = "version_str v" and ?ws = "map nat_str (release v)"
  from version_str_shape [OF assms] have sh: "?s \<noteq> []" "is_digit (hd ?s)" "is_digit (last ?s)"
    by simp_all
  then have strip: "py_strip ?s = ?s"
    by (intro py_strip_id) (simp add: is_digit_not_special)
  from sh obtain c r where cr: "?s = c # r" "is_digit c" by (cases ?s) auto
  have nodot: "\<forall>w \<in> set ?ws. CHR ''.'' \<notin> set w"
    using nat_str_props is_digit_not_special by fastforce
  have split: "split_dots ?s [] = ?ws"
    unfolding version_str_def using assms nodot by (simp add: split_dots_py_join)
  have "parse_release ?s = Some (release v)"
    using nat_str_props by (simp add: parse_release_def split comp_def)
  with strip cr is_digit_not_special [of c] show ?thesis
    by (simp add: parse_version_def)
qed


lemma get_version_item_with_latest:
  fixes key :: "'v \<Rightarrow> 'k::linorder"
  assumes canon: "\<forall>k \<in> fst ` set versions. \<exists>v. parse k = Inr v \<and> str v = k"
    and cv: "parse ver = Inr cv"
    and some: "\<exists>k \<in> fst ` set versions. \<exists>v. parse k = Inr v \<and> key v \<le> key cv"
  shows "\<exists>k v y. get_version_item_with parse key str ver versions = Inr y \<and> map_of versions k = Some y
           \<and> parse k = Inr v \<and> key v \<le> key cv
           \<and> (\<forall>k' v'. k' \<in> fst ` set versions \<longrightarrow> parse k' = Inr v' \<longrightarrow>
                  key v' \<le> key cv \<longrightarrow> key v' \<le> key v)"
proof -
  define pv where "pv k = projr (parse k)" for k
  have pk: "parse k = Inr (pv k)" if "k \<in> fst ` set versions" for k
    using canon that by (auto simp: pv_def)
  define ks where "ks = filter (\<lambda>k. key (pv k) \<le> key cv) (map fst versions)"
  have filt: "filter_r (version_le_with parse key cv) (map fst versions) = Inr ks"
    unfolding ks_def by (rule filter_r_Inr) (auto simp: version_le_with_def pk)
  have ksub: "set ks \<subseteq> fst ` set versions" by (auto simp: ks_def)
  have maps: "map_r parse ks = Inr (map pv ks)"
    using ksub pk by (intro map_r_Inr) auto
  from some pk have "ks \<noteq> []" by (fastforce simp: ks_def filter_empty_conv)
  then obtain r where r: "py_max (\<lambda>x m. key m < key x) (map pv ks) = Inr r"
      "r \<in> set (map pv ks)" "\<forall>z \<in> set (map pv ks). key z \<le> key r"
    using py_max_key [of "map pv ks" key] by auto
  then obtain k0 where k0: "k0 \<in> set ks" "r = pv k0" by auto
  with ksub have k0in: "k0 \<in> fst ` set versions" by auto
  with canon pk have str: "str r = k0" using k0 by fastforce
  from k0in obtain y where y: "map_of versions k0 = Some y"
    by (metis map_of_eq_None_iff not_None_eq)
  have res: "get_version_item_with parse key str ver versions = Inr y"
    by (simp add: get_version_item_with_def cv filt maps r str y)
  have le: "key (pv k0) \<le> key cv" using k0 by (simp add: ks_def)
  have "\<forall>k' v'. k' \<in> fst ` set versions \<longrightarrow> parse k' = Inr v' \<longrightarrow>
                  key v' \<le> key cv \<longrightarrow> key v' \<le> key r"
  proof (intro allI impI)
    fix k' v' assume k': "k' \<in> fst ` set versions" "parse k' = Inr v'" "key v' \<le> key cv"
    then have "v' = pv k'" using pk by fastforce
    with k' have "v' \<in> set (map pv ks)" by (force simp: ks_def)
    with r(3) show "key v' \<le> key r" by blast
  qed
  with res y pk [OF k0in] le k0(2) show ?thesis by blast
qed

text \<open>When every key of the table is the canonical text of its version, and some
  key is not above the helper's version, \<open>get_version_item\<close> returns the item of a key
  whose version is the greatest not above the helper's version.\<close>

lemma get_version_item_latest:
  assumes canon: "\<forall>k \<in> fst ` set versions. \<exists>v. parse_version k = Inr v \<and> version_str v = k"
    and cv: "parse_version ver = Inr cv"
    and some: "\<exists>k \<in> fst ` set versions. \<exists>v. parse_version k = Inr v \<and> vkey v \<le> vkey cv"
  shows "\<exists>k v y. get_version_item ver versions = Inr y \<and> map_of versions k = Some y
           \<and> parse_version k = Inr v \<and> vkey v \<le> vkey cv
           \<and> (\<forall>k' v'. k' \<in> fst ` set versions \<longrightarrow> parse_version k' = Inr v' \<longrightarrow>
                  vkey v' \<le> vkey cv \<longrightarrow> vkey v' \<le> vkey v)"
  using assms unfolding get_version_item_def by (rule get_version_item_with_latest)

theorem parse_version_str_witness:
  "release \<lparr>release = [10, 0, 3]\<rparr> \<noteq> []
   \<and> version_str \<lparr>release = [10, 0, 3]\<rparr> = ''10.0.3''
   \<and> parse_version ''10.0.3'' = Inr \<lparr>release = [10, 0, 3]\<rparr>"
proof -
  have r: "release \<lparr>release = [10::nat, 0, 3]\<rparr> \<noteq> []" by simp
  have s: "version_str \<lparr>release = [10, 0, 3]\<rparr> = ''10.0.3''" by (simp add: py_eval)
  from r s parse_version_str [OF r] show ?thesis by simp
qed

section \<open>Behaviour at concrete inputs\<close>

text \<open>\<open>get_compare_version_item\<close> picks the greatest key by string order, not
  by version order: with keys \<open>9.0\<close> and \<open>10.0\<close> and compare version \<open>10.0\<close> it
  returns the item of \<open>9.0\<close>.\<close>

lemma get_compare_version_item_string_max:
  "get_compare_version_item ''10.0'' [(''9.0'', a), (''10.0'', b)] = Inr a"
  by (simp add: get_compare_version_item_def py_max_def py_eval)

text \<open>\<open>get_version_item\<close> looks the item up under \<open>str()\<close> of the parsed
  version, so a key that is not in canonical form raises \<open>KeyError\<close> even though its
  version qualifies.\<close>

lemma get_version_item_non_canonical_key:
  "get_version_item ''2'' [(''1.00'', a)] = Inl KeyError"
  by (simp add: get_version_item_def py_max_def dict_get_def py_eval)


theorem get_version_item_latest_witness:
  "\<exists>k v y. get_version_item ''1.5'' [(''1.0'', 10::nat), (''2.0'', 20)] = Inr y
     \<and> map_of [(''1.0'', 10::nat), (''2.0'', 20)] k = Some y
     \<and> parse_version k = Inr v \<and> vkey v \<le> vkey \<lparr>release = [1, 5]\<rparr>
     \<and> (\<forall>k' v'. k' \<in> fst ` set [(''1.0'', 10::nat), (''2.0'', 20)] \<longrightarrow>
            parse_version k' = Inr v' \<longrightarrow> vkey v' \<le> vkey \<lparr>release = [1, 5]\<rparr> \<longrightarrow> vkey v' \<le> vkey v)"
  by (rule get_version_item_latest)
     (simp_all add: py_eval)

end
