(* ===== verification/Link_Value.thy ===== *)
theory Link_Value
  imports Prelude
begin

text \<open>
  The values a scrape produces (src/lbrc_selenium/selenium.py): the frozen dataclass
  \<open>Link(href, name)\<close>, and the untyped union the code passes around, a string, a
  \<open>Link\<close> or \<open>None\<close>. A \<open>Link\<close>'s fields hold what \<open>Scrubber.cleanse\<close> returned,
  so either may be \<open>None\<close>. \<open>str()\<close> of a \<open>Link\<close> is the dataclass \<open>repr\<close>, which
  quotes each field with Python's string \<open>repr\<close>.
\<close>

record link =
  href :: "string option"
  name :: "string option"

datatype pyval = PStr string | PLink link | PNone

definition hex_digit :: "nat \<Rightarrow> char" where
  "hex_digit n = (if n < 10 then char_of (48 + n) else char_of (87 + n))"

text \<open>One character of \<open>repr(s)\<close> for the quote \<open>q\<close>: the quote and the backslash
  are escaped, tab, newline and return get their short escapes, and the other
  non-printable code points below 256 (controls, \<open>\x7f\<close>..\<open>\xa0\<close>, the soft hyphen
  \<open>\xad\<close>) are written \<open>\xhh\<close>.\<close>

definition repr_char :: "char \<Rightarrow> char \<Rightarrow> string" where
  "repr_char q c =
     (let n = (of_char c :: nat) in
      if c = q \<or> n = 92 then [CHR 0x5C, c]
      else if n = 9 then [CHR 0x5C, CHR ''t'']
      else if n = 10 then [CHR 0x5C, CHR ''n'']
      else if n = 13 then [CHR 0x5C, CHR ''r'']
      else if n < 32 \<or> (127 \<le> n \<and> n \<le> 160) \<or> n = 173
        then [CHR 0x5C, CHR ''x'', hex_digit (n div 16), hex_digit (n mod 16)]
      else [c])"

text \<open>\<open>repr(s)\<close>: double quotes when the text has a single quote and no double quote,
  single quotes otherwise.\<close>

definition py_repr_str :: "string \<Rightarrow> string" where
  "py_repr_str s =
     (let q = (if CHR 0x27 \<in> set s \<and> CHR 0x22 \<notin> set s then CHR 0x22 else CHR 0x27)
      in q # concat (map (repr_char q) s) @ [q])"

definition repr_opt :: "string option \<Rightarrow> string" where
  "repr_opt v = (case v of None \<Rightarrow> ''None'' | Some s \<Rightarrow> py_repr_str s)"

text \<open>\<open>str(v)\<close> of a scraped value.\<close>

definition py_str :: "pyval \<Rightarrow> string" where
  "py_str v =
     (case v of
        PStr s \<Rightarrow> s
      | PNone \<Rightarrow> ''None''
      | PLink l \<Rightarrow> ''Link(href='' @ repr_opt (href l) @ '', name='' @ repr_opt (name l) @ '')'')"

declare hex_digit_def [py_eval] repr_char_def [py_eval] py_repr_str_def [py_eval]
  repr_opt_def [py_eval] py_str_def [py_eval]

end
