(* ===== verification/Version_Translator.thy ===== *)
theory Version_Translator
  imports Version Link_Value
begin

text \<open>
  \<open>Translator\<close> and \<open>VersionTranslator\<close> (src/lbrc_selenium/selenium.py). A
  \<open>VersionTranslator\<close> holds three dictionaries keyed by parsed versions: the allowed
  columns, the label renamings and the value renamings registered from a version on.
  Python compares and hashes \<open>Version\<close> keys by their key (\<open>vkey\<close>), so the tables
  are keyed by it. \<open>_get_version\<close> resolves a table at a target version: the entry of
  the greatest key not above the target, or \<open>None\<close>. \<open>translate_dictionary\<close> renames,
  filters and re-keys a scraped record; \<open>cleanse_headers\<close> filters a header row.
  The lists and dictionaries registered are modelled as values: the code stores the
  caller's objects, so a caller that mutates them later changes the tables too, which
  the model does not follow.
\<close>

section \<open>Translator\<close>

text \<open>The attribute \<open>self.translations\<close> is the field \<open>translations_dict\<close>
  (\<open>translations\<close> is a keyword of Isabelle).\<close>

record translator =
  translations_dict :: "(string, string) pydict"

text \<open>\<open>add_translations(version, translations)\<close>: \<open>self.translations |= translations\<close>;
  the version argument is not used.\<close>

definition add_translations :: "string \<Rightarrow> (string, string) pydict \<Rightarrow> translator \<Rightarrow> translator" where
  "add_translations ver ts tr = tr\<lparr>translations_dict := dict_update (translations_dict tr) ts\<rparr>"

definition add_translation :: "string \<Rightarrow> string \<Rightarrow> string \<Rightarrow> translator \<Rightarrow> translator" where
  "add_translation ver from_value to_value tr =
     tr\<lparr>translations_dict := dict_set from_value to_value (translations_dict tr)\<rparr>"

section \<open>VersionTranslator\<close>

record version_translator =
  columns :: "(nat list, string list) pydict"
  label_translations :: "(nat list, (string, string) pydict) pydict"
  value_translations :: "(nat list, (string, string) pydict) pydict"

definition new_version_translator :: version_translator where
  "new_version_translator = \<lparr>columns = [], label_translations = [], value_translations = []\<rparr>"

definition set_columns_for_version ::
  "string \<Rightarrow> string list \<Rightarrow> version_translator \<Rightarrow> version_translator py_result" where
  "set_columns_for_version ver column_names vt =
     py_bind (parse_version ver) (\<lambda>cv.
     Inr (vt\<lparr>columns := dict_set (vkey cv) column_names (columns vt)\<rparr>))"

text \<open>\<open>self.columns[cv].append(column_name)\<close>: \<open>KeyError\<close> when no list is registered
  at exactly that version.\<close>

definition add_column :: "string \<Rightarrow> string \<Rightarrow> version_translator \<Rightarrow> version_translator py_result" where
  "add_column ver column_name vt =
     py_bind (parse_version ver) (\<lambda>cv.
     py_bind (dict_get (columns vt) (vkey cv)) (\<lambda>cs.
     Inr (vt\<lparr>columns := dict_set (vkey cv) (cs @ [column_name]) (columns vt)\<rparr>)))"

definition set_label_translators_for_version ::
  "string \<Rightarrow> (string, string) pydict \<Rightarrow> version_translator \<Rightarrow> version_translator py_result" where
  "set_label_translators_for_version ver ts vt =
     py_bind (parse_version ver) (\<lambda>cv.
     Inr (vt\<lparr>label_translations := dict_set (vkey cv) ts (label_translations vt)\<rparr>))"

definition add_label_translator ::
  "string \<Rightarrow> string \<Rightarrow> string \<Rightarrow> version_translator \<Rightarrow> version_translator py_result" where
  "add_label_translator ver from_value to_value vt =
     py_bind (parse_version ver) (\<lambda>cv.
     py_bind (dict_get (label_translations vt) (vkey cv)) (\<lambda>ts.
     Inr (vt\<lparr>label_translations :=
            dict_set (vkey cv) (dict_set from_value to_value ts) (label_translations vt)\<rparr>)))"

definition set_value_translators_for_version ::
  "string \<Rightarrow> (string, string) pydict \<Rightarrow> version_translator \<Rightarrow> version_translator py_result" where
  "set_value_translators_for_version ver ts vt =
     py_bind (parse_version ver) (\<lambda>cv.
     Inr (vt\<lparr>value_translations := dict_set (vkey cv) ts (value_translations vt)\<rparr>))"

definition add_value_translator ::
  "string \<Rightarrow> string \<Rightarrow> string \<Rightarrow> version_translator \<Rightarrow> version_translator py_result" where
  "add_value_translator ver from_value to_value vt =
     py_bind (parse_version ver) (\<lambda>cv.
     py_bind (dict_get (value_translations vt) (vkey cv)) (\<lambda>ts.
     Inr (vt\<lparr>value_translations :=
            dict_set (vkey cv) (dict_set from_value to_value ts) (value_translations vt)\<rparr>)))"

text \<open>
  \<^verbatim>\<open>
  def _get_version(self, ver, versions):
      cv = version.parse(ver)
      pre_versions = [k for k in versions.keys() if k <= cv]
      if not pre_versions:
          return None
      latest_version = max(pre_versions)
      return versions[latest_version]
  \<close>
\<close>

definition get_version :: "string \<Rightarrow> (nat list, 'a) pydict \<Rightarrow> 'a option py_result" where
  "get_version ver versions =
     py_bind (parse_version ver) (\<lambda>cv.
       let pre_versions = filter (\<lambda>k. k \<le> vkey cv) (map fst versions)
       in if pre_versions = [] then Inr None
          else py_bind (py_max (\<lambda>x m. m < x) pre_versions) (\<lambda>latest.
               py_bind (dict_get versions latest) (\<lambda>x. Inr (Some x))))"

text \<open>The three tests of the loop of \<open>translate_dictionary\<close>. A table is truthy when
  it was found and is not empty.\<close>

definition rename_label :: "(string, string) pydict option \<Rightarrow> string \<Rightarrow> string" where
  "rename_label lt k =
     (case lt of
        Some l \<Rightarrow> if l \<noteq> [] then (case map_of l k of Some k' \<Rightarrow> k' | None \<Rightarrow> k) else k
      | None \<Rightarrow> k)"

definition column_dropped :: "string list option \<Rightarrow> string \<Rightarrow> bool" where
  "column_dropped ct k \<longleftrightarrow> (case ct of Some c \<Rightarrow> c \<noteq> [] \<and> k \<notin> set c | None \<Rightarrow> False)"

text \<open>\<open>if isinstance(v, Hashable) and vt and v in vt.keys(): v = lt[v]\<close>. Every value
  is hashable; only a string can equal a key of the table. \<open>lt[v]\<close> raises
  \<open>TypeError\<close> when \<open>lt\<close> is \<open>None\<close> and \<open>KeyError\<close> when it lacks the key.\<close>

definition translate_value ::
  "(string, string) pydict option \<Rightarrow> (string, string) pydict option \<Rightarrow> pyval \<Rightarrow> pyval py_result" where
  "translate_value lt vt v =
     (case v of
        PStr s \<Rightarrow>
          (case vt of
             Some t \<Rightarrow>
               if t \<noteq> [] \<and> map_of t s \<noteq> None
               then (case lt of
                       None \<Rightarrow> Inl TypeError
                     | Some l \<Rightarrow> py_bind (dict_get l s) (\<lambda>s'. Inr (PStr s')))
               else Inr v
           | None \<Rightarrow> Inr v)
      | _ \<Rightarrow> Inr v)"

fun translate_items ::
  "string list option \<Rightarrow> (string, string) pydict option \<Rightarrow> (string, string) pydict option \<Rightarrow>
   (string, pyval) pydict \<Rightarrow> (string, pyval) pydict \<Rightarrow> (string, pyval) pydict py_result" where
  "translate_items ct lt vt [] result = Inr result"
| "translate_items ct lt vt ((k, v) # rest) result =
     (let k' = rename_label lt k
      in if column_dropped ct k' then translate_items ct lt vt rest result
         else py_bind (translate_value lt vt v) (\<lambda>v'. translate_items ct lt vt rest (dict_set k' v' result)))"

text \<open>
  \<^verbatim>\<open>
  def translate_dictionary(self, ver, input):
      ct = self._get_version(ver, self.columns)
      lt = self._get_version(ver, self.value_translations)
      vt = self._get_version(ver, self.value_translations)
      result = OrderedDict()
      for k, v in input.items(): ...
      result = OrderedDict({key: value for key, value in sorted(result.items())})
      return result
  \<close>
  The label table \<open>lt\<close> is read from \<open>value_translations\<close>, as the code does. The
  keys of \<open>result\<close> are distinct, so sorting its items compares keys only.
\<close>

definition translate_dictionary ::
  "version_translator \<Rightarrow> string \<Rightarrow> (string, pyval) pydict \<Rightarrow> (string, pyval) pydict py_result" where
  "translate_dictionary vt ver input =
     py_bind (get_version ver (columns vt)) (\<lambda>ct.
     py_bind (get_version ver (value_translations vt)) (\<lambda>lt.
     py_bind (get_version ver (value_translations vt)) (\<lambda>vtab.
     py_bind (translate_items ct lt vtab input []) (\<lambda>result.
     Inr (sort_key fst result)))))"

definition cleanse_headers :: "version_translator \<Rightarrow> string \<Rightarrow> string list \<Rightarrow> string list py_result" where
  "cleanse_headers vt ver headers =
     py_bind (get_version ver (columns vt)) (\<lambda>ct.
     Inr (case ct of
            None \<Rightarrow> headers
          | Some c \<Rightarrow> if c = [] then headers else filter (\<lambda>h. h \<in> set c) headers))"

section \<open>The contract of version resolution\<close>

text \<open>What \<open>_get_version\<close> promises: the entry of the greatest registered version that
  does not exceed the target, and nothing when every registered version exceeds it.\<close>

definition resolve_spec :: "('k::linorder \<rightharpoonup> 'a) \<Rightarrow> 'k \<Rightarrow> 'a option" where
  "resolve_spec m t = (let S = {k \<in> dom m. k \<le> t} in if S = {} then None else m (Max S))"

text \<open>A resolved table that applies no rule: none registered, or an empty one (the code
  tests the table's truth value, so an empty allow-list filters nothing).\<close>

definition no_rules :: "'a list option \<Rightarrow> bool" where
  "no_rules t \<longleftrightarrow> t = None \<or> t = Some []"

section \<open>Lemmas\<close>

lemma translate_items_distinct:
  "translate_items ct lt vt input result = Inr r \<Longrightarrow> distinct (map fst result) \<Longrightarrow> distinct (map fst r)"
proof (induction ct lt vt input result rule: translate_items.induct)
  case (1 ct lt vt result)
  then show ?case by simp
next
  case (2 ct lt vt k v rest result)
  show ?case
  proof (cases "column_dropped ct (rename_label lt k)")
    case True
    with "2.prems"(1) have "translate_items ct lt vt rest result = Inr r" by simp
    with True "2.IH"(1) "2.prems"(2) show ?thesis by simp
  next
    case False
    with "2.prems"(1) obtain v' where
      rest: "translate_items ct lt vt rest (dict_set (rename_label lt k) v' result) = Inr r"
      by (auto simp: Let_def)
    show ?thesis
      using "2.IH"(2) [of "rename_label lt k" v'] False rest "2.prems"(2) by simp
  qed
qed


lemma translate_items_kept:
  "translate_items ct lt vt input result = Inr r \<Longrightarrow>
     \<forall>k \<in> fst ` set result. \<not> column_dropped ct k \<Longrightarrow> \<forall>k \<in> fst ` set r. \<not> column_dropped ct k"
proof (induction ct lt vt input result rule: translate_items.induct)
  case (1 ct lt vt result)
  then show ?case by simp
next
  case (2 ct lt vt k v rest result)
  show ?case
  proof (cases "column_dropped ct (rename_label lt k)")
    case True
    with "2.prems"(1) have "translate_items ct lt vt rest result = Inr r" by simp
    with True "2.IH"(1) "2.prems"(2) show ?thesis by simp
  next
    case False
    with "2.prems"(1) obtain v' where
      rest: "translate_items ct lt vt rest (dict_set (rename_label lt k) v' result) = Inr r"
      by (auto simp: Let_def)
    have kept: "\<forall>k' \<in> fst ` set (dict_set (rename_label lt k) v' result). \<not> column_dropped ct k'"
      using False "2.prems"(2) by (simp only: set_keys_dict_set) blast
    show ?thesis
      by (rule "2.IH"(2) [of "rename_label lt k" v', OF refl False rest kept])
  qed
qed

lemma translate_value_same_table: "\<exists>v'. translate_value t t v = Inr v'"
  by (auto simp: translate_value_def split: pyval.splits option.splits)

lemma translate_items_same_table:
  "lt = vt \<Longrightarrow> \<exists>r. translate_items ct lt vt input result = Inr r"
proof (induction ct lt vt input result rule: translate_items.induct)
  case (2 ct lt vt k v rest result)
  obtain v' where v': "translate_value lt vt v = Inr v'"
    using translate_value_same_table [of vt v] "2.prems" by auto
  show ?case
  proof (cases "column_dropped ct (rename_label lt k)")
    case True
    with "2.IH"(1) "2.prems" show ?thesis by simp
  next
    case False
    with "2.IH"(2) [of "rename_label lt k" v'] "2.prems" v' show ?thesis by simp
  qed
qed simp

lemma no_rules_steps:
  "no_rules lt \<Longrightarrow> rename_label lt k = k"
  "no_rules ct \<Longrightarrow> \<not> column_dropped ct k"
  "no_rules vt \<Longrightarrow> translate_value lt vt v = Inr v"
  by (auto simp: no_rules_def rename_label_def column_dropped_def translate_value_def
      split: pyval.splits)

lemma translate_items_no_rules:
  "no_rules ct \<Longrightarrow> no_rules vt \<Longrightarrow> lt = vt \<Longrightarrow>
     translate_items ct lt vt input result = Inr (dict_update result input)"
proof (induction ct lt vt input result rule: translate_items.induct)
  case (2 ct lt vt k v rest result)
  then have "translate_items ct lt vt rest (dict_set k v result) = Inr (dict_update (dict_set k v result) rest)"
    using no_rules_steps by simp
  with "2.prems" show ?case by (simp add: no_rules_steps)
qed simp


section \<open>Properties of the translator\<close>

text \<open>A translator used by the witnesses below: from version 1, the allowed columns are
  \<open>Name\<close> and \<open>Age\<close>, the label \<open>Name\<close> is to be renamed \<open>Full name\<close> and the value
  \<open>yes\<close> is to be replaced by \<open>Y\<close>.\<close>

definition demo_translator :: version_translator where
  "demo_translator =
     \<lparr>columns = [([1], [''Name'', ''Age''])],
      label_translations = [([1], [(''Name'', ''Full name'')])],
      value_translations = [([1], [(''yes'', ''Y'')])]\<rparr>"

declare get_version_def [py_eval] translate_dictionary_def [py_eval] cleanse_headers_def [py_eval]
  rename_label_def [py_eval] column_dropped_def [py_eval] translate_value_def [py_eval]
  demo_translator_def [py_eval] dict_get_def [py_eval] py_max_def [py_eval]
  set_columns_for_version_def [py_eval] add_column_def [py_eval]
  set_label_translators_for_version_def [py_eval] new_version_translator_def [py_eval]

lemma get_version_Inr:
  assumes cv: "parse_version ver = Inr cv"
  shows "get_version ver d = Inr (resolve_spec (map_of d) (vkey cv))"
proof -
  let ?t = "vkey cv"
  let ?pre = "filter (\<lambda>k. k \<le> ?t) (map fst d)"
  have S: "{k \<in> dom (map_of d). k \<le> ?t} = set ?pre"
    by (auto simp: dom_map_of_conv_image_fst)
  show ?thesis
  proof (cases "?pre = []")
    case True
    with cv S show ?thesis by (simp add: get_version_def resolve_spec_def)
  next
    case False
    then have mx: "py_max (\<lambda>x m. m < x) ?pre = Inr (Max (set ?pre))"
      by (rule py_max_Max)
    from False have ne: "set ?pre \<noteq> {}" by (simp only: set_empty not_False_eq_True)
    have "Max (set ?pre) \<in> set ?pre" by (rule Max_in [OF finite_set ne])
    then have "Max (set ?pre) \<in> dom (map_of d)" by (auto simp: dom_map_of_conv_image_fst)
    then obtain y where y: "map_of d (Max (set ?pre)) = Some y" by auto
    have L: "get_version ver d = Inr (Some y)"
      using cv False mx y by (simp add: get_version_def dict_get_def del: set_filter)
    have R: "resolve_spec (map_of d) ?t = Some y"
      using S ne y by (simp add: resolve_spec_def del: set_filter)
    from L R show ?thesis by simp
  qed
qed

lemma translate_dictionary_Inr:
  assumes "parse_version ver = Inr cv"
  shows "\<exists>result. translate_items (resolve_spec (map_of (columns vt)) (vkey cv))
                    (resolve_spec (map_of (value_translations vt)) (vkey cv))
                    (resolve_spec (map_of (value_translations vt)) (vkey cv)) input [] = Inr result
              \<and> translate_dictionary vt ver input = Inr (sort_key fst result)"
proof -
  let ?ct = "resolve_spec (map_of (columns vt)) (vkey cv)"
  let ?vt = "resolve_spec (map_of (value_translations vt)) (vkey cv)"
  obtain result where r: "translate_items ?ct ?vt ?vt input [] = Inr result"
    using translate_items_same_table by blast
  have "translate_dictionary vt ver input = Inr (sort_key fst result)"
    using r by (simp add: translate_dictionary_def get_version_Inr[OF assms])
  with r show ?thesis by blast
qed

lemma resolve_spec_at:
  assumes "finite (dom m)" and "m t = Some x"
  shows "resolve_spec m t = Some x"
proof -
  let ?S = "{k \<in> dom m. k \<le> t}"
  have "t \<in> ?S" using assms(2) by auto
  moreover have "finite ?S" using assms(1) by simp
  ultimately have "Max ?S = t" by (intro Max_eqI) auto
  with \<open>t \<in> ?S\<close> assms(2) show ?thesis by (auto simp: resolve_spec_def)
qed

text \<open>C1: \<open>_get_version\<close> implements its contract: after parsing the target version,
  it returns the entry of the greatest registered version not above the target, and
  \<open>None\<close> when there is none.\<close>

theorem get_version_refines:
  "get_version ver d = py_bind (parse_version ver) (\<lambda>cv. Inr (resolve_spec (map_of d) (vkey cv)))"
proof (cases "parse_version ver")
  case (Inl e)
  then show ?thesis by (simp add: get_version_def)
next
  case (Inr cv)
  then show ?thesis by (simp add: get_version_Inr)
qed

theorem get_version_refines_witness:
  "get_version ''1.5'' [([1], ''a''), ([2], ''b'')]
     = Inr (resolve_spec (map_of [([1::nat], ''a''), ([2], ''b'')]) [1, 5])
   \<and> get_version ''1.5'' [([1], ''a''), ([2], ''b'')] = Inr (Some ''a'')"
  using get_version_refines [of "''1.5''" "[([1], ''a''), ([2], ''b'')]"]
  by (simp add: py_eval)

lemma translate_dictionary_sorted_keys:
  assumes "translate_dictionary vt ver input = Inr r"
  shows "sorted (map fst r) \<and> distinct (map fst r)"
proof -
  from assms obtain cv where cv: "parse_version ver = Inr cv"
    by (cases "parse_version ver") (auto simp: translate_dictionary_def get_version_def)
  from translate_dictionary_Inr [OF cv, of vt input] assms obtain result where
    items: "translate_items (resolve_spec (map_of (columns vt)) (vkey cv))
                    (resolve_spec (map_of (value_translations vt)) (vkey cv))
                    (resolve_spec (map_of (value_translations vt)) (vkey cv)) input [] = Inr result"
    and r: "r = sort_key fst result" by auto
  from items have "distinct (map fst result)" by (rule translate_items_distinct) simp
  with r show ?thesis by simp
qed

lemma translate_dictionary_keys_in_columns:
  assumes "translate_dictionary vt ver input = Inr r"
    and "get_version ver (columns vt) = Inr (Some c)" and "c \<noteq> []"
  shows "fst ` set r \<subseteq> set c"
proof -
  from assms(1) obtain cv where cv: "parse_version ver = Inr cv"
    by (cases "parse_version ver") (auto simp: translate_dictionary_def get_version_def)
  with assms(2) have ct: "resolve_spec (map_of (columns vt)) (vkey cv) = Some c"
    by (simp add: get_version_Inr)
  from translate_dictionary_Inr [OF cv, of vt input] assms(1) ct obtain result where
    items: "translate_items (Some c)
                    (resolve_spec (map_of (value_translations vt)) (vkey cv))
                    (resolve_spec (map_of (value_translations vt)) (vkey cv)) input [] = Inr result"
    and r: "r = sort_key fst result" by auto
  from items have "\<forall>k \<in> fst ` set result. \<not> column_dropped (Some c) k"
    by (rule translate_items_kept) simp
  with r assms(3) show ?thesis by (auto simp: column_dropped_def)
qed

text \<open>C3: \<open>translate_dictionary\<close> returns its record with the keys in strictly
  ascending order: sorted and without repetition.\<close>

theorem translate_dictionary_sorted:
  assumes "translate_dictionary vt ver input = Inr r"
  shows "sorted (map fst r) \<and> distinct (map fst r)"
  using assms by (rule translate_dictionary_sorted_keys)

theorem translate_dictionary_sorted_witness:
  "translate_dictionary demo_translator ''1.5'' [(''Name'', PStr ''yes''), (''Age'', PStr ''3'')]
     = Inr [(''Age'', PStr ''3''), (''Name'', PStr ''Y'')]
   \<and> sorted (map fst [(''Age'', PStr ''3''), (''Name'', PStr ''Y'')])
   \<and> distinct (map fst [(''Age'', PStr ''3''), (''Name'', PStr ''Y'')])"
proof -
  have r: "translate_dictionary demo_translator ''1.5'' [(''Name'', PStr ''yes''), (''Age'', PStr ''3'')]
     = Inr [(''Age'', PStr ''3''), (''Name'', PStr ''Y'')]"
    by (simp add: py_eval)
  from r translate_dictionary_sorted [OF r] show ?thesis by simp
qed

text \<open>C4: when a non-empty column allow-list applies at the target version, every key of
  the translated record is one of the allowed columns.\<close>

theorem translate_dictionary_columns:
  assumes "translate_dictionary vt ver input = Inr r"
    and "get_version ver (columns vt) = Inr (Some c)" and "c \<noteq> []"
  shows "fst ` set r \<subseteq> set c"
  using assms by (rule translate_dictionary_keys_in_columns)

theorem translate_dictionary_columns_witness:
  "translate_dictionary demo_translator ''2'' [(''Extra'', PNone), (''Age'', PStr ''3'')]
     = Inr [(''Age'', PStr ''3'')]
   \<and> fst ` set [(''Age'', PStr ''3'')] \<subseteq> set [''Name'', ''Age'']"
proof -
  have r: "translate_dictionary demo_translator ''2'' [(''Extra'', PNone), (''Age'', PStr ''3'')]
     = Inr [(''Age'', PStr ''3'')]"
    by (simp add: py_eval)
  have c: "get_version ''2'' (columns demo_translator) = Inr (Some [''Name'', ''Age''])"
    by (simp add: py_eval)
  from r translate_dictionary_columns [OF r c] show ?thesis by simp
qed

text \<open>C22: \<open>translate_dictionary\<close> fails only when the version string does not
  parse: the substitution \<open>lt[v]\<close> never raises, because the code reads \<open>lt\<close> from
  the same table as \<open>vt\<close>.\<close>

theorem translate_dictionary_total:
  "(\<exists>r. translate_dictionary vt ver input = Inr r) \<longleftrightarrow> (\<exists>cv. parse_version ver = Inr cv)"
proof
  assume "\<exists>r. translate_dictionary vt ver input = Inr r"
  then show "\<exists>cv. parse_version ver = Inr cv"
    by (cases "parse_version ver") (auto simp: translate_dictionary_def get_version_def)
next
  assume "\<exists>cv. parse_version ver = Inr cv"
  then obtain cv where "parse_version ver = Inr cv" by blast
  from translate_dictionary_Inr [OF this] show "\<exists>r. translate_dictionary vt ver input = Inr r"
    by blast
qed

theorem translate_dictionary_total_witness:
  "(\<exists>r. translate_dictionary demo_translator ''1.5'' [(''Name'', PStr ''yes'')] = Inr r)
   \<and> \<not> (\<exists>r. translate_dictionary demo_translator ''1.x'' [(''Name'', PStr ''yes'')] = Inr r)"
  using translate_dictionary_total [of demo_translator "''1.5''" "[(''Name'', PStr ''yes'')]"]
    translate_dictionary_total [of demo_translator "''1.x''" "[(''Name'', PStr ''yes'')]"]
  by (simp add: py_eval)

text \<open>C21: label rules have no effect: registering label translators never changes what
  \<open>translate_dictionary\<close> returns, since the code reads the label table from
  \<open>value_translations\<close>.\<close>

theorem translate_dictionary_label_rules_unused:
  assumes "set_label_translators_for_version v ts vt = Inr vt'"
  shows "translate_dictionary vt' ver input = translate_dictionary vt ver input"
  using assms
  by (cases "parse_version v") (auto simp: set_label_translators_for_version_def translate_dictionary_def)

theorem translate_dictionary_label_rules_unused_witness:
  "set_label_translators_for_version ''1.0'' [(''Age'', ''Years'')] demo_translator
     = Inr (demo_translator\<lparr>label_translations := [([1], [(''Age'', ''Years'')])]\<rparr>)
   \<and> translate_dictionary (demo_translator\<lparr>label_translations := [([1], [(''Age'', ''Years'')])]\<rparr>)
       ''1.5'' [(''Age'', PStr ''3'')]
     = translate_dictionary demo_translator ''1.5'' [(''Age'', PStr ''3'')]"
proof -
  have s: "set_label_translators_for_version ''1.0'' [(''Age'', ''Years'')] demo_translator
     = Inr (demo_translator\<lparr>label_translations := [([1], [(''Age'', ''Years'')])]\<rparr>)"
    by (simp add: py_eval)
  from s translate_dictionary_label_rules_unused [OF s] show ?thesis by simp
qed

text \<open>When the column table and the value table resolve at the target version to no
  rule, nothing registered or an empty table, \<open>translate_dictionary\<close> only sorts the
  record and \<open>cleanse_headers\<close> returns the headers unchanged; an empty allow-list
  filters nothing.\<close>

theorem translate_dictionary_no_rules:
  assumes ct: "get_version ver (columns vt) = Inr ct" and "no_rules ct"
    and vt: "get_version ver (value_translations vt) = Inr vtab" and "no_rules vtab"
    and "distinct (map fst input)"
  shows "translate_dictionary vt ver input = Inr (sort_key fst input)
         \<and> cleanse_headers vt ver headers = Inr headers"
proof -
  have "translate_items ct vtab vtab input [] = Inr (dict_update [] input)"
    using assms(2,4) by (rule translate_items_no_rules) simp
  moreover have "dict_update [] input = input"
    using dict_update_fresh [OF assms(5), of "[]"] by simp
  moreover have "cleanse_headers vt ver headers = Inr headers"
    using ct assms(2) by (auto simp: cleanse_headers_def no_rules_def)
  ultimately show ?thesis
    using ct vt by (simp add: translate_dictionary_def)
qed

theorem translate_dictionary_no_rules_witness:
  "translate_dictionary demo_translator ''0.5'' [(''b'', PStr ''yes''), (''a'', PNone)]
     = Inr [(''a'', PNone), (''b'', PStr ''yes'')]
   \<and> cleanse_headers demo_translator ''0.5'' [''Extra''] = Inr [''Extra'']"
proof -
  have c: "get_version ''0.5'' (columns demo_translator) = Inr None" by (simp add: py_eval)
  have v: "get_version ''0.5'' (value_translations demo_translator) = Inr None" by (simp add: py_eval)
  have n: "no_rules (None :: string list option)" "no_rules (None :: (string, string) pydict option)"
    by (simp_all add: no_rules_def)
  have d: "distinct (map fst [(''b'', PStr ''yes''), (''a'', PNone)])" by simp
  from translate_dictionary_no_rules [OF c n(1) v n(2) d, of "[''Extra'']"] show ?thesis by simp
qed

text \<open>\<open>cleanse_headers\<close> is idempotent: filtering an already filtered header list
  at the same version returns it unchanged.\<close>

theorem cleanse_headers_idempotent:
  assumes "cleanse_headers vt ver headers = Inr hs"
  shows "cleanse_headers vt ver hs = Inr hs"
proof (cases "parse_version ver")
  case (Inl e)
  with assms show ?thesis by (simp add: cleanse_headers_def get_version_def)
next
  case (Inr cv)
  show ?thesis
  proof (cases "resolve_spec (map_of (columns vt)) (vkey cv)")
    case None
    with Inr assms show ?thesis by (simp add: cleanse_headers_def get_version_Inr)
  next
    case (Some c)
    with Inr assms show ?thesis
      by (cases "c = []") (auto simp: cleanse_headers_def get_version_Inr)
  qed
qed
theorem cleanse_headers_idempotent_witness:
  "cleanse_headers demo_translator ''1'' [''Extra'', ''Name'', ''Age''] = Inr [''Name'', ''Age'']
   \<and> cleanse_headers demo_translator ''1'' [''Name'', ''Age''] = Inr [''Name'', ''Age'']"
proof -
  have h: "cleanse_headers demo_translator ''1'' [''Extra'', ''Name'', ''Age''] = Inr [''Name'', ''Age'']"
    by (simp add: py_eval)
  from h cleanse_headers_idempotent [OF h] show ?thesis by simp
qed

text \<open>Registering an allow-list at a version and resolving the column table at that
  same version gives back the registered list.\<close>

theorem set_columns_for_version_resolves:
  assumes "set_columns_for_version ver cs vt = Inr vt'"
  shows "get_version ver (columns vt') = Inr (Some cs)"
proof -
  from assms obtain cv where cv: "parse_version ver = Inr cv"
    and vt': "columns vt' = dict_set (vkey cv) cs (columns vt)"
    by (cases "parse_version ver") (auto simp: set_columns_for_version_def)
  have "resolve_spec (map_of (columns vt')) (vkey cv) = Some cs"
    by (rule resolve_spec_at) (simp_all add: vt' finite_dom_map_of)
  with cv show ?thesis by (simp add: get_version_Inr)
qed

theorem set_columns_for_version_resolves_witness:
  "set_columns_for_version ''2.0'' [''Name''] demo_translator
     = Inr (demo_translator\<lparr>columns := [([1], [''Name'', ''Age'']), ([2], [''Name''])]\<rparr>)
   \<and> get_version ''2.0'' [([1::nat], [''Name'', ''Age'']), ([2], [''Name''])] = Inr (Some [''Name''])"
proof -
  have s: "set_columns_for_version ''2.0'' [''Name''] demo_translator
     = Inr (demo_translator\<lparr>columns := [([1], [''Name'', ''Age'']), ([2], [''Name''])]\<rparr>)"
    by (simp add: py_eval)
  from s set_columns_for_version_resolves [OF s] show ?thesis by simp
qed

text \<open>\<open>add_column\<close> after \<open>set_columns_for_version\<close> at the same version
  succeeds and extends the list resolved there by the new column.\<close>

theorem add_column_after_set:
  assumes "set_columns_for_version ver cs vt = Inr vt1"
  shows "\<exists>vt2. add_column ver n vt1 = Inr vt2 \<and> get_version ver (columns vt2) = Inr (Some (cs @ [n]))"
proof -
  from assms obtain cv where cv: "parse_version ver = Inr cv"
    and vt1: "columns vt1 = dict_set (vkey cv) cs (columns vt)"
    by (cases "parse_version ver") (auto simp: set_columns_for_version_def)
  let ?vt2 = "vt1\<lparr>columns := dict_set (vkey cv) (cs @ [n]) (columns vt1)\<rparr>"
  have add: "add_column ver n vt1 = Inr ?vt2"
    by (simp add: add_column_def cv vt1)
  have "resolve_spec (map_of (columns ?vt2)) (vkey cv) = Some (cs @ [n])"
    by (rule resolve_spec_at) (simp_all add: finite_dom_map_of)
  with cv add show ?thesis by (simp add: get_version_Inr)
qed

theorem add_column_after_set_witness:
  "\<exists>vt2. add_column ''2.0'' ''Age''
             (demo_translator\<lparr>columns := [([1], [''Name'', ''Age'']), ([2], [''Name''])]\<rparr>) = Inr vt2
          \<and> get_version ''2.0'' (columns vt2) = Inr (Some [''Name'', ''Age''])"
proof -
  have s: "set_columns_for_version ''2.0'' [''Name''] demo_translator
     = Inr (demo_translator\<lparr>columns := [([1], [''Name'', ''Age'']), ([2], [''Name''])]\<rparr>)"
    by (simp add: py_eval)
  from add_column_after_set [OF s, of "''Age''"] show ?thesis by simp
qed

lemma add_column_between_versions:
  "(case set_columns_for_version ''1.0'' [''Name''] new_version_translator of
      Inl e \<Rightarrow> False
    | Inr vt \<Rightarrow> get_version ''1.5'' (columns vt) = Inr (Some [''Name''])
                \<and> add_column ''1.5'' ''Age'' vt = Inl KeyError)"
  by (simp add: py_eval)

end
