(* ===== verification/Page.thy ===== *)
theory Page
  imports Normalise_Text Link_Value
begin

text \<open>
  The page the helper reads, and the helper's element access
  (src/lbrc_selenium/selenium.py: the \<open>Selector\<close> classes, \<open>SeleniumHelper.get_element\<close>,
  \<open>get_elements\<close>, \<open>get_text\<close>, \<open>get_href\<close>, \<open>get_name\<close>, \<open>get_value\<close>,
  \<open>get_innerHtml\<close>). The page is a DOM tree whose elements carry an identity (the
  WebDriver element id, by which \<open>WebElement\<close>s compare and hash), a tag name, the
  visible text the driver reports, the attributes and the inner HTML. The driver's
  \<open>find_elements\<close> is an interface: a function from a selector and a scope element
  to the matching elements; \<open>css_find\<close> implements it for selectors made of tag
  names, as the code's default selectors are. XPath queries the code issues itself
  (\<open>.//ancestor-or-self::*\<close>) are given their XPath meaning on the tree.
\<close>

section \<open>Selectors\<close>

datatype by_strategy = CSS_SELECTOR | XPATH | TAG_NAME | NAME | CLASS_NAME | ID

text \<open>The attribute \<open>by\<close> of a \<open>Selector\<close> is the field \<open>strategy\<close> (\<open>by\<close> is a
  keyword of Isabelle).\<close>

record selector =
  query :: string
  strategy :: by_strategy

definition CssSelector :: "string \<Rightarrow> selector" where
  "CssSelector q = \<lparr>query = q, strategy = CSS_SELECTOR\<rparr>"

definition XpathSelector :: "string \<Rightarrow> selector" where
  "XpathSelector q = \<lparr>query = q, strategy = XPATH\<rparr>"

definition TagSelector :: "string \<Rightarrow> selector" where
  "TagSelector q = \<lparr>query = q, strategy = TAG_NAME\<rparr>"

definition NameSelector :: "string \<Rightarrow> selector" where
  "NameSelector q = \<lparr>query = q, strategy = NAME\<rparr>"

definition ClassSelector :: "string \<Rightarrow> selector" where
  "ClassSelector q = \<lparr>query = q, strategy = CLASS_NAME\<rparr>"

definition IdSelector :: "string \<Rightarrow> selector" where
  "IdSelector q = \<lparr>query = q, strategy = ID\<rparr>"

section \<open>The document\<close>

text \<open>\<open>element.text\<close> is the field \<open>visible_text\<close> (\<open>text\<close> is a keyword of
  Isabelle).\<close>

record element_info =
  eid :: nat
  tag_name :: string
  visible_text :: string
  attributes :: "(string, string) pydict"
  inner_html :: string

datatype node = Node (info: element_info) (children: "node list")

definition node_eid :: "node \<Rightarrow> nat" where
  "node_eid n = eid (info n)"

text \<open>The element and all its descendants, in document order.\<close>

fun subtrees :: "node \<Rightarrow> node list" where
  "subtrees (Node i cs) = Node i cs # concat (map subtrees cs)"

definition node_ids :: "node \<Rightarrow> nat list" where
  "node_ids n = map node_eid (subtrees n)"

text \<open>A well-formed page gives every element its own identity.\<close>

definition wf_page :: "node \<Rightarrow> bool" where
  "wf_page root \<longleftrightarrow> distinct (node_ids root)"

text \<open>\<open>find_elements(By.XPATH, './/ancestor-or-self::*')\<close> from the element \<open>e\<close>:
  every element that is an ancestor-or-self of a descendant-or-self of \<open>e\<close>, in
  document order, that is, every element related to \<open>e\<close>. \<open>root\<close> is the document node, which is
  not an element: the elements of the page are \<open>tl (subtrees root)\<close>.\<close>

text \<open>Two elements are related when one is an ancestor-or-self of the other, that is,
  when their subtrees share an element.\<close>

definition related :: "node \<Rightarrow> node \<Rightarrow> bool" where
  "related x y \<longleftrightarrow> (\<exists>d \<in> set (node_ids x). d \<in> set (node_ids y))"

definition xpath_ancestor_or_self_desc :: "node \<Rightarrow> node \<Rightarrow> node list" where
  "xpath_ancestor_or_self_desc root e = filter (related e) (tl (subtrees root))"

section \<open>The page driver\<close>

text \<open>\<open>find_elements(selector.by, selector.query)\<close> on a scope element.\<close>

type_synonym finder = "selector \<Rightarrow> node \<Rightarrow> node list"

text \<open>A driver for CSS selectors made of tag names: groups separated by commas, each
  a chain of tag names separated by spaces (a descendant chain). As
  \<open>querySelectorAll\<close> does, an element below the scope matches a chain when its tag
  is the last name and the names before it are matched, in order, by its ancestors
  anywhere in the document.\<close>

fun split_on :: "char \<Rightarrow> string \<Rightarrow> string \<Rightarrow> string list" where
  "split_on sep [] w = [rev w]"
| "split_on sep (c # cs) w = (if c = sep then rev w # split_on sep cs [] else split_on sep cs (c # w))"

definition css_groups :: "string \<Rightarrow> string list list" where
  "css_groups q = map py_split (split_on CHR '','' q [])"

text \<open>The strict ancestors of an element, nearest first.\<close>

definition ancestors :: "node \<Rightarrow> node \<Rightarrow> node list" where
  "ancestors root n =
     rev (filter (\<lambda>a. node_eid a \<noteq> node_eid n \<and> node_eid n \<in> set (node_ids a)) (tl (subtrees root)))"

fun chain_up :: "string list \<Rightarrow> node list \<Rightarrow> bool" where
  "chain_up [] as = True"
| "chain_up (t # ts) [] = False"
| "chain_up (t # ts) (a # as) = (if tag_name (info a) = t then chain_up ts as else chain_up (t # ts) as)"

definition css_match :: "node \<Rightarrow> string list \<Rightarrow> node \<Rightarrow> bool" where
  "css_match root chain n =
     (case rev chain of [] \<Rightarrow> False | t # ts \<Rightarrow> tag_name (info n) = t \<and> chain_up ts (ancestors root n))"

definition css_find :: "node \<Rightarrow> finder" where
  "css_find root sel scope =
     (if strategy sel = CSS_SELECTOR
      then filter (\<lambda>n. \<exists>g \<in> set (css_groups (query sel)). css_match root g n) (tl (subtrees scope))
      else [])"

section \<open>Element access of SeleniumHelper\<close>

text \<open>\<open>element.get_attribute(name)\<close>: \<open>None\<close> for a missing attribute.\<close>

definition get_attribute :: "node \<Rightarrow> string \<Rightarrow> string option" where
  "get_attribute e a = map_of (attributes (info e)) a"

text \<open>\<open>get_element(selector, allow_null, element)\<close>: \<open>find_element\<close> gives the first
  match or raises \<open>NoSuchElementException\<close>, which is turned into \<open>None\<close> when
  \<open>allow_null\<close>.\<close>

definition get_element :: "finder \<Rightarrow> selector \<Rightarrow> bool \<Rightarrow> node \<Rightarrow> node option py_result" where
  "get_element drv sel allow_null scope =
     (case drv sel scope of
        [] \<Rightarrow> if allow_null then Inr None else Inl NoSuchElementException
      | e # _ \<Rightarrow> Inr (Some e))"

definition get_elements :: "finder \<Rightarrow> selector \<Rightarrow> node \<Rightarrow> node list" where
  "get_elements drv sel scope = drv sel scope"

definition get_innerHtml :: "node \<Rightarrow> string" where
  "get_innerHtml e = normalise_text (Some (inner_html (info e)))"

text \<open>\<open>get_text(element)\<close>: the visible text, else the \<open>text\<close> attribute, else the inner
  HTML, each normalised; \<open>None\<close> for no element.\<close>

definition get_text_of :: "node \<Rightarrow> string" where
  "get_text_of e =
     (let r = normalise_text (Some (visible_text (info e)))
      in if r = [] then
           (let r' = normalise_text (get_attribute e ''text'') in if r' = [] then get_innerHtml e else r')
         else r)"

definition get_text :: "node option \<Rightarrow> string option" where
  "get_text e = (case e of None \<Rightarrow> None | Some x \<Rightarrow> Some (get_text_of x))"

definition get_href :: "node \<Rightarrow> string" where
  "get_href e = py_strip (case get_attribute e ''href'' of None \<Rightarrow> [] | Some s \<Rightarrow> s)"

definition get_name :: "node \<Rightarrow> string" where
  "get_name e = py_strip (case get_attribute e ''name'' of None \<Rightarrow> [] | Some s \<Rightarrow> s)"

definition get_value_attr :: "node \<Rightarrow> string" where
  "get_value_attr e = normalise_text (get_attribute e ''value'')"

declare CssSelector_def [py_eval] XpathSelector_def [py_eval] node_eid_def [py_eval] node_ids_def [py_eval]
  wf_page_def [py_eval] related_def [py_eval] xpath_ancestor_or_self_desc_def [py_eval]
  css_groups_def [py_eval] ancestors_def [py_eval] css_match_def [py_eval] css_find_def [py_eval]
  get_attribute_def [py_eval] get_element_def [py_eval] get_elements_def [py_eval]
  get_innerHtml_def [py_eval] get_text_of_def [py_eval] get_text_def [py_eval] get_href_def [py_eval]

section \<open>Facts about the document\<close>

lemma subtrees_self [simp]: "n \<in> set (subtrees n)"
  by (cases n) simp

lemma subtrees_trans: "x \<in> set (subtrees y) \<Longrightarrow> set (subtrees x) \<subseteq> set (subtrees y)"
proof (induction y)
  case (Node i cs)
  then show ?case by auto
qed

lemma node_ids_mono: "x \<in> set (subtrees y) \<Longrightarrow> set (node_ids x) \<subseteq> set (node_ids y)"
  unfolding node_ids_def using subtrees_trans by auto

lemma node_eid_in_node_ids [simp]: "node_eid n \<in> set (node_ids n)"
  unfolding node_ids_def by simp

lemma related_refl [simp]: "related n n"
  unfolding related_def using node_eid_in_node_ids by blast

lemma related_sym: "related x y \<longleftrightarrow> related y x"
  unfolding related_def by blast

lemma related_desc: "x \<in> set (subtrees y) \<Longrightarrow> related y x"
  unfolding related_def using node_ids_mono node_eid_in_node_ids by blast

lemma elements_trans:
  "y \<in> set (tl (subtrees r)) \<Longrightarrow> x \<in> set (subtrees y) \<Longrightarrow> x \<in> set (tl (subtrees r))"
  by (cases r) (auto dest: subtrees_trans)

lemma in_xpath_iff [simp]:
  "n \<in> set (xpath_ancestor_or_self_desc root e) \<longleftrightarrow> n \<in> set (tl (subtrees root)) \<and> related e n"
  unfolding xpath_ancestor_or_self_desc_def by auto

text \<open>On a well-formed page the identities of the elements are distinct, and an
  identity names one element.\<close>

lemma wf_page_distinct: "wf_page root \<Longrightarrow> distinct (map node_eid (tl (subtrees root)))"
  unfolding wf_page_def node_ids_def by (cases root) simp

lemma wf_page_inj:
  assumes "wf_page root" "a \<in> set (tl (subtrees root))" "b \<in> set (tl (subtrees root))"
    and "node_eid a = node_eid b"
  shows "a = b"
proof -
  have "inj_on node_eid (set (tl (subtrees root)))"
    using wf_page_distinct[OF assms(1)] by (simp add: distinct_map)
  then show ?thesis using assms(2-4) by (auto dest: inj_onD)
qed

lemma wf_page_xpath_distinct:
  "wf_page root \<Longrightarrow> distinct (map node_eid (xpath_ancestor_or_self_desc root e))"
  unfolding xpath_ancestor_or_self_desc_def by (rule distinct_map_filter) (rule wf_page_distinct)

end
