(* ===== verification/Scrubber.thy ===== *)
theory Scrubber
  imports Page Version_Translator
begin

text \<open>
  The base class \<open>Scrubber\<close> (src/lbrc_selenium/selenium.py): \<open>get_details\<close>,
  \<open>get_value\<close>, \<open>get_element_contents\<close> and \<open>get_parent_elements\<close>. A scrubber
  reads the page through the helper: its document, its driver and its
  \<open>compare_version\<close>. The debugging \<open>print\<close> calls of \<open>get_parent_elements\<close> have
  no effect on the result and are left out, and so is the \<open>header\<close> argument of
  \<open>get_value\<close>, which only they use.
\<close>

text \<open>The helper's state a scrubber reads. \<open>page\<close> is the document node: its children
  are the top-level elements, and a query without a scope element searches below it.\<close>

record helper =
  page :: node
  driver :: finder
  compare_version :: string

record scrubber =
  version_comparator :: version_translator
  parent_selector :: selector
  value_selector :: selector

section \<open>Covering elements\<close>

text \<open>
  \<^verbatim>\<open>
  for e in elements:
      ancestors = self.helper.get_elements(XpathSelector('.//ancestor-or-self::*'), element=e)
      ancestors.remove(e)
      intersection = list(set(ancestors) & set(elements))
      if len(intersection) == 0:
          results.append(e)
          break
  \<close>
  \<open>list.remove\<close> raises \<open>ValueError\<close> when \<open>e\<close> is not in the list. Elements compare by
  their identity.
\<close>

fun uncovered_scan :: "node \<Rightarrow> node list \<Rightarrow> node list \<Rightarrow> node list py_result" where
  "uncovered_scan root elements [] = Inr []"
| "uncovered_scan root elements (e # rest) =
     (let anc = map node_eid (xpath_ancestor_or_self_desc root e)
      in if node_eid e \<notin> set anc then Inl ValueError
         else if set (remove1 (node_eid e) anc) \<inter> set (map node_eid elements) = {} then Inr [e]
         else uncovered_scan root elements rest)"

definition get_parent_elements :: "node \<Rightarrow> node list \<Rightarrow> node list py_result" where
  "get_parent_elements root elements = uncovered_scan root elements elements"

section \<open>Values of elements\<close>

text \<open>\<open>get_element_contents(element)\<close>: a \<open>Link\<close> for an anchor, \<open>None\<close> for an anchor
  with neither href nor text, the cleansed text otherwise.\<close>

definition get_element_contents :: "node \<Rightarrow> pyval" where
  "get_element_contents e =
     (if tag_name (info e) = ''a'' then
        (let h = get_href e; n = get_text_of e
         in if h = [] \<and> n = [] then PNone else PLink \<lparr>href = cleanse (Some h), name = cleanse (Some n)\<rparr>)
      else (case cleanse (Some (get_text_of e)) of None \<Rightarrow> PNone | Some s \<Rightarrow> PStr s))"

text \<open>The truth value \<open>filter(None, _)\<close> tests: \<open>None\<close> and the empty string are
  false, a \<open>Link\<close> is true.\<close>

fun truthy :: "pyval \<Rightarrow> bool" where
  "truthy (PStr s) = (s \<noteq> [])"
| "truthy (PLink l) = True"
| "truthy PNone = False"

text \<open>
  \<^verbatim>\<open>
  def get_value(self, parent, header=''):
      elements = sorted(self.helper.get_elements(self.value_selector, element=parent), key=lambda x: x.tag_name)
      parents = self.get_parent_elements(elements, header)
      if len(parents) > 0:
          values_values = list(set(filter(None, [self.get_element_contents(v) for v in parents])))
          return '; '.join(str(vv) for vv in values_values)
      else:
          return self.get_element_contents(parent)
  \<close>
  \<open>sorted\<close> is stable. The iteration order of the \<open>set\<close> is Python's; the list has at
  most one element (\<open>get_parent_elements\<close> stops at the first uncovered one), so the
  order taken here (first occurrence) is the only one.
\<close>

definition get_value :: "helper \<Rightarrow> 'z scrubber_scheme \<Rightarrow> node \<Rightarrow> pyval py_result" where
  "get_value h s parent =
     (let elements = sort_key (\<lambda>x. tag_name (info x)) (get_elements (driver h) (value_selector s) parent)
      in py_bind (get_parent_elements (page h) elements) (\<lambda>parents.
         if parents \<noteq> []
         then Inr (PStr (py_join ''; '' (map py_str (remdups (filter truthy (map get_element_contents parents))))))
         else Inr (get_element_contents parent)))"

text \<open>\<open>get_details()\<close>: the variant's \<open>_scrape_details\<close> on the first container, or
  \<open>None\<close> when the page has none.\<close>

definition get_details :: "helper \<Rightarrow> 'z scrubber_scheme \<Rightarrow> (node \<Rightarrow> 'a py_result) \<Rightarrow> 'a option py_result" where
  "get_details h s scrape_details =
     (case get_elements (driver h) (parent_selector s) (page h) of
        [] \<Rightarrow> Inr None
      | p # _ \<Rightarrow> py_bind (scrape_details p) (\<lambda>r. Inr (Some r)))"

section \<open>The covering set of the specification\<close>

text \<open>The elements of \<open>es\<close> related to no other element of \<open>es\<close>: the minimal
  covering set that \<open>get_parent_elements\<close> is meant to compute.\<close>

definition covering_set :: "node list \<Rightarrow> node list" where
  "covering_set es = filter (\<lambda>e. \<forall>x \<in> set es. node_eid x \<noteq> node_eid e \<longrightarrow> \<not> related x e) es"

section \<open>A sample page\<close>

text \<open>A key/value list in the markup the default selectors expect:
  \<open><ul><li><strong>Name</strong><a href="/a"><span>Foo</span></a></li>
  <li><strong>Home</strong><a href="/b">Bar</a></li></ul>\<close>, under the document
  node 0.\<close>

definition demo_elem :: "nat \<Rightarrow> string \<Rightarrow> string \<Rightarrow> (string, string) pydict \<Rightarrow> node list \<Rightarrow> node" where
  "demo_elem i t x a cs = Node \<lparr>eid = i, tag_name = t, visible_text = x, attributes = a, inner_html = x\<rparr> cs"

definition demo_nested_pair :: node where
  "demo_nested_pair = demo_elem 2 ''li'' ''Name Foo'' []
     [demo_elem 3 ''strong'' ''Name'' [] [],
      demo_elem 4 ''a'' ''Foo'' [(''href'', ''/a'')] [demo_elem 5 ''span'' ''Foo'' [] []]]"

definition demo_flat_pair :: node where
  "demo_flat_pair = demo_elem 6 ''li'' ''Home Bar'' []
     [demo_elem 7 ''strong'' ''Home'' [] [], demo_elem 8 ''a'' ''Bar'' [(''href'', ''/b'')] []]"

definition demo_page :: node where
  "demo_page = demo_elem 0 [] [] [] [demo_elem 1 ''ul'' [] [] [demo_nested_pair, demo_flat_pair]]"

definition demo_helper :: helper where
  "demo_helper = \<lparr>page = demo_page, driver = css_find demo_page, compare_version = ''1.0''\<rparr>"

definition demo_scrubber :: scrubber where
  "demo_scrubber = \<lparr>version_comparator = new_version_translator, parent_selector = CssSelector ''ul'',
     value_selector = CssSelector ''span, a''\<rparr>"

declare get_parent_elements_def [py_eval] get_element_contents_def [py_eval] get_value_def [py_eval]
  get_details_def [py_eval] demo_elem_def [py_eval] demo_nested_pair_def [py_eval]
  demo_flat_pair_def [py_eval] demo_page_def [py_eval] demo_helper_def [py_eval]
  demo_scrubber_def [py_eval]

section \<open>Facts about the covering scan\<close>

abbreviation in_page :: "node \<Rightarrow> node \<Rightarrow> bool" where
  "in_page root e \<equiv> e \<in> set (tl (subtrees root))"

lemma uncovered_scan_found:
  "in_page root e \<Longrightarrow> node_eid e \<in> set (map node_eid (xpath_ancestor_or_self_desc root e))"
  by (auto simp: image_iff)

text \<open>An element related to another element of the input is skipped.\<close>

lemma uncovered_scan_skip:
  assumes "in_page root e" "x \<in> set es" "in_page root x" "related e x" "node_eid x \<noteq> node_eid e"
  shows "uncovered_scan root es (e # rest) = uncovered_scan root es rest"
proof -
  have "node_eid x \<in> set (remove1 (node_eid e) (map node_eid (xpath_ancestor_or_self_desc root e)))"
    using assms by (auto simp: image_iff)
  then have "set (remove1 (node_eid e) (map node_eid (xpath_ancestor_or_self_desc root e)))
             \<inter> set (map node_eid es) \<noteq> {}"
    using assms(2) by auto
  then show ?thesis using uncovered_scan_found[OF assms(1)] by (simp add: Let_def)
qed

text \<open>On a well-formed page, the test of the loop is the test of the covering set.\<close>

lemma uncovered_iff:
  assumes wf: "wf_page root" and e: "in_page root e" and es: "\<forall>x \<in> set es. in_page root x"
  shows "set (remove1 (node_eid e) (map node_eid (xpath_ancestor_or_self_desc root e)))
           \<inter> set (map node_eid es) = {}
         \<longleftrightarrow> (\<forall>x \<in> set es. node_eid x \<noteq> node_eid e \<longrightarrow> \<not> related x e)"
proof -
  let ?anc = "map node_eid (xpath_ancestor_or_self_desc root e)"
  have rm: "set (remove1 (node_eid e) ?anc) = set ?anc - {node_eid e}"
    using wf_page_xpath_distinct[OF wf] by (rule set_remove1_eq)
  have mem: "node_eid x \<in> set ?anc \<longleftrightarrow> related x e" if "x \<in> set es" for x
  proof
    assume "node_eid x \<in> set ?anc"
    then obtain n where "n \<in> set (xpath_ancestor_or_self_desc root e)" "node_eid n = node_eid x"
      by auto
    moreover have "in_page root x" using es that by blast
    ultimately have "n = x" "related e n" using wf_page_inj[OF wf] by auto
    then show "related x e" using related_sym by blast
  next
    assume "related x e"
    then show "node_eid x \<in> set ?anc" using es that related_sym by (auto simp: image_iff)
  qed
  show ?thesis unfolding rm using mem by auto
qed

lemma uncovered_scan_take1:
  assumes "wf_page root" "\<forall>x \<in> set es. in_page root x" "set ys \<subseteq> set es"
  shows "uncovered_scan root es ys
           = Inr (take 1 (filter (\<lambda>e. \<forall>x \<in> set es. node_eid x \<noteq> node_eid e \<longrightarrow> \<not> related x e) ys))"
  using assms(3)
proof (induction ys)
  case Nil
  then show ?case by simp
next
  case (Cons e ys)
  have e: "in_page root e" using Cons.prems assms(2) by auto
  note found = uncovered_scan_found[OF e] and iff = uncovered_iff[OF assms(1) e assms(2)]
  show ?case
  proof (cases "\<forall>x \<in> set es. node_eid x \<noteq> node_eid e \<longrightarrow> \<not> related x e")
    case True
    with iff found show ?thesis by (simp add: Let_def)
  next
    case False
    with iff found have "uncovered_scan root es (e # ys) = uncovered_scan root es ys"
      by (simp add: Let_def)
    moreover from False
    have "filter (\<lambda>e. \<forall>x \<in> set es. node_eid x \<noteq> node_eid e \<longrightarrow> \<not> related x e) (e # ys)
          = filter (\<lambda>e. \<forall>x \<in> set es. node_eid x \<noteq> node_eid e \<longrightarrow> \<not> related x e) ys"
      by simp
    ultimately show ?thesis using Cons.IH Cons.prems by simp
  qed
qed

text \<open>\<open>get_parent_elements\<close> is the first element of the covering set.\<close>

lemma get_parent_elements_take1:
  "wf_page root \<Longrightarrow> \<forall>x \<in> set es. in_page root x
   \<Longrightarrow> get_parent_elements root es = Inr (take 1 (covering_set es))"
  unfolding get_parent_elements_def covering_set_def by (rule uncovered_scan_take1) auto

lemma get_element_contents_PLink:
  "get_element_contents e = PLink l \<Longrightarrow> tag_name (info e) = ''a''"
  unfolding get_element_contents_def by (auto simp: Let_def split: if_splits option.splits)

section \<open>Properties of the base scrubber\<close>

text \<open>C2: On a well-formed page, with candidate elements of the page,
  get_parent_elements returns the first element of the covering set, the elements
  related to no other candidate.\<close>

theorem get_parent_elements_refines:
  assumes "wf_page root" "\<forall>x \<in> set es. x \<in> set (tl (subtrees root))"
  shows "get_parent_elements root es = Inr (take 1 (covering_set es))"
  using get_parent_elements_take1[OF assms] .

theorem get_parent_elements_refines_witness:
  "get_parent_elements demo_page [demo_elem 7 ''strong'' ''Home'' [] [], demo_elem 8 ''a'' ''Bar'' [(''href'', ''/b'')] []]
     = Inr [demo_elem 7 ''strong'' ''Home'' [] []]"
proof -
  have "wf_page demo_page" by (simp add: py_eval)
  moreover have "\<forall>x \<in> set [demo_elem 7 ''strong'' ''Home'' [] [], demo_elem 8 ''a'' ''Bar'' [(''href'', ''/b'')] []].
      x \<in> set (tl (subtrees demo_page))"
    by (simp add: py_eval)
  ultimately show ?thesis
    using get_parent_elements_refines by (simp add: covering_set_def py_eval)
qed

text \<open>C6: A flat set of candidates (no one related to another), of two elements or
  more, is its own covering set, yet get_parent_elements returns only its first
  element: the scan stops at the first uncovered element.\<close>

theorem get_parent_elements_flat:
  assumes "wf_page root" "\<forall>x \<in> set es. x \<in> set (tl (subtrees root))"
    and "\<forall>x \<in> set es. \<forall>y \<in> set es. node_eid x \<noteq> node_eid y \<longrightarrow> \<not> related x y"
    and "2 \<le> length es"
  shows "covering_set es = es \<and> get_parent_elements root es = Inr [hd es]"
proof -
  have c: "covering_set es = es"
    unfolding covering_set_def using assms(3) by (auto simp: filter_id_conv)
  have "es \<noteq> []" using assms(4) by auto
  then have "take 1 es = [hd es]" by (cases es) auto
  then show ?thesis using c get_parent_elements_take1[OF assms(1,2)] by simp
qed

theorem get_parent_elements_flat_witness:
  "covering_set [demo_elem 7 ''strong'' ''Home'' [] [], demo_elem 8 ''a'' ''Bar'' [(''href'', ''/b'')] []]
     = [demo_elem 7 ''strong'' ''Home'' [] [], demo_elem 8 ''a'' ''Bar'' [(''href'', ''/b'')] []]
   \<and> get_parent_elements demo_page
       [demo_elem 7 ''strong'' ''Home'' [] [], demo_elem 8 ''a'' ''Bar'' [(''href'', ''/b'')] []]
     = Inr [demo_elem 7 ''strong'' ''Home'' [] []]"
proof -
  let ?es = "[demo_elem 7 ''strong'' ''Home'' [] [], demo_elem 8 ''a'' ''Bar'' [(''href'', ''/b'')] []]"
  have "wf_page demo_page" "\<forall>x \<in> set ?es. x \<in> set (tl (subtrees demo_page))"
    "\<forall>x \<in> set ?es. \<forall>y \<in> set ?es. node_eid x \<noteq> node_eid y \<longrightarrow> \<not> related x y" "2 \<le> length ?es"
    by (simp_all add: py_eval)
  then show ?thesis using get_parent_elements_flat[of demo_page ?es] by simp
qed

text \<open>C7: When one candidate is nested in the other (text inside a link),
  get_parent_elements returns neither of them, in either order: each is related to
  the other.\<close>

theorem get_parent_elements_nested:
  assumes outer: "outer \<in> set (tl (subtrees root))" and inner: "inner \<in> set (subtrees outer)"
    and ne: "node_eid inner \<noteq> node_eid outer"
  shows "get_parent_elements root [outer, inner] = Inr [] \<and> get_parent_elements root [inner, outer] = Inr []"
proof -
  have i: "inner \<in> set (tl (subtrees root))" using elements_trans[OF outer inner] .
  have r: "related outer inner" "related inner outer"
    using related_desc[OF inner] related_sym by blast+
  show ?thesis
    unfolding get_parent_elements_def
    using uncovered_scan_skip[OF outer _ i r(1) ne] uncovered_scan_skip[OF i _ outer r(2) ne[symmetric]]
    by simp
qed

theorem get_parent_elements_nested_witness:
  "get_parent_elements demo_page
     [demo_elem 4 ''a'' ''Foo'' [(''href'', ''/a'')] [demo_elem 5 ''span'' ''Foo'' [] []],
      demo_elem 5 ''span'' ''Foo'' [] []] = Inr []"
  using get_parent_elements_nested[of "demo_elem 4 ''a'' ''Foo'' [(''href'', ''/a'')] [demo_elem 5 ''span'' ''Foo'' [] []]"
      demo_page "demo_elem 5 ''span'' ''Foo'' [] []"]
  by (simp add: py_eval)

text \<open>The specification's example: get_element_contents of an anchor with
  href \<open>/a\<close> and text \<open> Foo <b>Bar</b> \<close> is \<open>Link(href='/a', name='Foo Bar')\<close>.\<close>

theorem get_element_contents_spec_link:
  assumes "tag_name (info e) = ''a''" "get_attribute e ''href'' = Some ''/a''"
    and "visible_text (info e) = '' Foo <b>Bar</b> ''"
  shows "get_element_contents e = PLink \<lparr>href = Some ''/a'', name = Some ''Foo Bar''\<rparr>"
  unfolding get_element_contents_def get_href_def get_text_of_def using assms by (simp add: py_eval)

theorem get_element_contents_spec_link_witness:
  "get_element_contents (demo_elem 9 ''a'' '' Foo <b>Bar</b> '' [(''href'', ''/a'')] [])
     = PLink \<lparr>href = Some ''/a'', name = Some ''Foo Bar''\<rparr>"
  by (rule get_element_contents_spec_link) (simp_all add: py_eval)

text \<open>\<open>get_element_contents\<close> of an anchor with no href, no text and no markup is
  None.\<close>

theorem get_element_contents_empty_link:
  assumes "tag_name (info e) = ''a''" "get_attribute e ''href'' = None" "get_attribute e ''text'' = None"
    and "visible_text (info e) = []" "inner_html (info e) = []"
  shows "get_element_contents e = PNone"
  unfolding get_element_contents_def get_href_def get_text_of_def using assms by (simp add: py_eval)

theorem get_element_contents_empty_link_witness:
  "get_element_contents (demo_elem 9 ''a'' [] [] []) = PNone"
  by (rule get_element_contents_empty_link) (simp_all add: py_eval)

text \<open>Get_value returns a Link only when the container itself is an anchor: a
  value found inside the container is returned as its string, so a link below the
  container becomes its \<open>repr\<close>.\<close>

theorem get_value_link_only_from_anchor:
  "get_value h s p = Inr (PLink l) \<Longrightarrow> tag_name (info p) = ''a''"
  unfolding get_value_def Let_def
  by (auto simp: py_bind_Inr_iff split: if_splits dest: get_element_contents_PLink)

theorem get_value_link_only_from_anchor_witness:
  "get_value demo_helper demo_scrubber (demo_elem 8 ''a'' ''Bar'' [(''href'', ''/b'')] [])
     = Inr (PLink \<lparr>href = Some ''/b'', name = Some ''Bar''\<rparr>)
   \<and> tag_name (info (demo_elem 8 ''a'' ''Bar'' [(''href'', ''/b'')] [])) = ''a''"
proof -
  have v: "get_value demo_helper demo_scrubber (demo_elem 8 ''a'' ''Bar'' [(''href'', ''/b'')] [])
     = Inr (PLink \<lparr>href = Some ''/b'', name = Some ''Bar''\<rparr>)"
    by (simp add: py_eval)
  show ?thesis using v get_value_link_only_from_anchor[OF v] by simp
qed

text \<open>On a key/value pair whose link is flat (\<open><a href="/b">Bar</a>\<close>), get_value
  returns the string \<open>Link(href='/b', name='Bar')\<close>, not a Link.\<close>

theorem get_value_link_as_string:
  "get_value demo_helper demo_scrubber demo_flat_pair = Inr (PStr ''Link(href='/b', name='Bar')'')"
  by (simp add: py_eval)

text \<open>On a key/value pair whose link wraps a span, both matches of
  \<open>'span, a'\<close> are covered, and get_value returns the text of the whole pair, key
  included, instead of the link.\<close>

lemma get_value_nested_pair:
  "get_value demo_helper demo_scrubber demo_nested_pair = Inr (PStr ''Name Foo'')"
  by (simp add: py_eval) blast

end
