(* ===== verification/Scrubber_Variants.thy ===== *)
theory Scrubber_Variants
  imports Scrubber "HOL-Library.Multiset"
begin

text \<open>
  The three scrubbers of src/lbrc_selenium/selenium.py: \<open>KeyValuePairScrubber\<close>,
  \<open>ListScrubber\<close> and \<open>TableScrubber\<close>, each a record extending \<open>scrubber\<close> with
  its selectors, a constructor with the code's default selectors, and its
  \<open>_scrape_details\<close>. The loops over pairs, cells and rows are recursions over the
  element lists the driver returns; Python's \<open>sorted\<close> is modelled for the
  values it meets here.
\<close>

section \<open>KeyValuePairScrubber\<close>

record kv_scrubber = scrubber +
  pair_selector :: selector
  key_selector :: selector

definition KeyValuePairScrubber ::
  "selector option \<Rightarrow> selector option \<Rightarrow> selector option \<Rightarrow> selector option \<Rightarrow>
   version_translator option \<Rightarrow> kv_scrubber" where
  "KeyValuePairScrubber parent pair key val vc =
     \<lparr>version_comparator = py_or vc new_version_translator,
      parent_selector = py_or parent (CssSelector ''ul''),
      value_selector = py_or val (CssSelector ''span, a''),
      pair_selector = py_or pair (CssSelector ''li''),
      key_selector = py_or key (CssSelector ''strong'')\<rparr>"

text \<open>
  \<^verbatim>\<open>
  for kvpair in self.helper.get_elements(self.pair_selector, element=parent):
      title = self.helper.get_element(self.key_selector, element=kvpair, allow_null=True)
      header = self.cleanse(self.helper.get_text(title))
      if header:
          details[header] = self.get_value(kvpair)
  \<close>
\<close>

fun kv_pairs ::
  "helper \<Rightarrow> kv_scrubber \<Rightarrow> node list \<Rightarrow> (string, pyval) pydict \<Rightarrow> (string, pyval) pydict py_result" where
  "kv_pairs h s [] details = Inr details"
| "kv_pairs h s (kvpair # rest) details =
     py_bind (get_element (driver h) (key_selector s) True kvpair) (\<lambda>title.
       case cleanse (get_text title) of
         Some header \<Rightarrow>
           if header \<noteq> [] then py_bind (get_value h s kvpair) (\<lambda>v. kv_pairs h s rest (dict_set header v details))
           else kv_pairs h s rest details
       | None \<Rightarrow> kv_pairs h s rest details)"

definition kv_scrape_details :: "helper \<Rightarrow> kv_scrubber \<Rightarrow> node \<Rightarrow> (string, pyval) pydict py_result" where
  "kv_scrape_details h s parent =
     py_bind (kv_pairs h s (get_elements (driver h) (pair_selector s) parent) []) (\<lambda>details.
       translate_dictionary (version_comparator s) (compare_version h) details)"

section \<open>ListScrubber\<close>

definition ListScrubber :: "selector option \<Rightarrow> selector option \<Rightarrow> version_translator option \<Rightarrow> scrubber" where
  "ListScrubber parent val vc =
     \<lparr>version_comparator = py_or vc new_version_translator,
      parent_selector = py_or parent (CssSelector ''ul''),
      value_selector = py_or val (CssSelector ''li'')\<rparr>"

text \<open>\<open>sorted(values)\<close> on the values \<open>get_value\<close> returns. Strings compare by code
  point; \<open><\<close> between \<open>None\<close>, a \<open>Link\<close> (a dataclass without \<open>order=True\<close>)
  and anything raises \<open>TypeError\<close>. Sorting a list of two or more elements compares
  every element at least once, so it raises exactly when some value is not a
  string; a shorter list is returned as it is.\<close>

fun is_pstr :: "pyval \<Rightarrow> bool" where
  "is_pstr (PStr s) = True"
| "is_pstr _ = False"

fun pstr_key :: "pyval \<Rightarrow> string" where
  "pstr_key (PStr s) = s"
| "pstr_key _ = []"

definition py_sorted :: "pyval list \<Rightarrow> pyval list py_result" where
  "py_sorted xs =
     (if length xs \<le> 1 then Inr xs
      else if list_all is_pstr xs then Inr (sort_key pstr_key xs)
      else Inl TypeError)"

definition list_scrape_details :: "helper \<Rightarrow> scrubber \<Rightarrow> node \<Rightarrow> pyval list py_result" where
  "list_scrape_details h s parent =
     py_bind (map_r (get_value h s) (get_elements (driver h) (value_selector s) parent)) py_sorted"

section \<open>TableScrubber\<close>

record table_scrubber = scrubber +
  header_selector :: selector
  row_selector :: selector
  cell_selector :: selector

definition TableScrubber ::
  "selector option \<Rightarrow> selector option \<Rightarrow> selector option \<Rightarrow> selector option \<Rightarrow> selector option \<Rightarrow>
   version_translator option \<Rightarrow> table_scrubber" where
  "TableScrubber parent header row cell val vc =
     \<lparr>version_comparator = py_or vc new_version_translator,
      parent_selector = py_or parent (CssSelector ''table''),
      value_selector = py_or val (CssSelector ''span, a''),
      header_selector = py_or header (CssSelector ''thead tr th''),
      row_selector = py_or row (CssSelector ''tbody tr''),
      cell_selector = py_or cell (CssSelector ''td'')\<rparr>"

text \<open>
  \<^verbatim>\<open>
  for i, cell in enumerate(self.helper.get_elements(self.cell_selector, element=row)):
      if i < len(headers):
          header = self.cleanse(headers[i])
      else:
          header = str(i)
      if header:
          details[header] = self.get_value(cell, header=header)
  \<close>
\<close>

fun table_cells ::
  "helper \<Rightarrow> table_scrubber \<Rightarrow> string list \<Rightarrow> nat \<Rightarrow> node list \<Rightarrow> (string, pyval) pydict \<Rightarrow>
   (string, pyval) pydict py_result" where
  "table_cells h s headers i [] details = Inr details"
| "table_cells h s headers i (cell # rest) details =
     (case (if i < length headers then cleanse (Some (headers ! i)) else Some (nat_str i)) of
        Some header \<Rightarrow>
          if header \<noteq> [] then py_bind (get_value h s cell) (\<lambda>v. table_cells h s headers (Suc i) rest (dict_set header v details))
          else table_cells h s headers (Suc i) rest details
      | None \<Rightarrow> table_cells h s headers (Suc i) rest details)"

definition table_row :: "helper \<Rightarrow> table_scrubber \<Rightarrow> string list \<Rightarrow> node \<Rightarrow> (string, pyval) pydict py_result" where
  "table_row h s headers row =
     py_bind (table_cells h s headers 0 (get_elements (driver h) (cell_selector s) row) []) (\<lambda>details.
       translate_dictionary (version_comparator s) (compare_version h) details)"

text \<open>The sort key \<open>lambda d: str(d[[h for h in filter(None, headers)][0]])\<close>:
  \<open>IndexError\<close> when no header is non-empty, \<open>KeyError\<close> when the row lacks it.\<close>

definition row_key :: "string list \<Rightarrow> (string, pyval) pydict \<Rightarrow> string py_result" where
  "row_key headers d =
     (case filter (\<lambda>x. x \<noteq> []) headers of
        [] \<Rightarrow> Inl IndexError
      | h0 # _ \<Rightarrow> py_bind (dict_get d h0) (\<lambda>v. Inr (py_str v)))"

text \<open>\<open>sorted(result, key=...)\<close>: the keys are computed first, in order, then the
  rows are sorted stably by them.\<close>

definition table_sort :: "string list \<Rightarrow> (string, pyval) pydict list \<Rightarrow> (string, pyval) pydict list py_result" where
  "table_sort headers result =
     py_bind (map_r (row_key headers) result) (\<lambda>keys. Inr (map snd (sort_key fst (zip keys result))))"

definition table_scrape_details :: "helper \<Rightarrow> table_scrubber \<Rightarrow> node \<Rightarrow> (string, pyval) pydict list py_result" where
  "table_scrape_details h s parent =
     (let raw = map get_text_of (get_elements (driver h) (header_selector s) parent)
      in py_bind (cleanse_headers (version_comparator s) (compare_version h) raw) (\<lambda>headers.
         py_bind (map_r (table_row h s headers) (get_elements (driver h) (row_selector s) parent)) (\<lambda>result.
         table_sort headers result)))"

section \<open>Sample pages\<close>

text \<open>A table whose header row has a column outside the allow-list in the middle:
  \<open>Name | Extra | Age\<close> over the rows \<open>b | x | 2\<close> and \<open>a | y | 1\<close>, scraped at
  version 1.0 with the allow-list \<open>{Name, Age}\<close>.\<close>

definition demo_table :: node where
  "demo_table = demo_elem 10 ''table'' [] [] [
     demo_elem 11 ''thead'' [] [] [demo_elem 12 ''tr'' [] [] [demo_elem 13 ''th'' ''Name'' [] [],
       demo_elem 14 ''th'' ''Extra'' [] [], demo_elem 15 ''th'' ''Age'' [] []]],
     demo_elem 16 ''tbody'' [] [] [
       demo_elem 17 ''tr'' [] [] [demo_elem 18 ''td'' ''b'' [] [], demo_elem 19 ''td'' ''x'' [] [],
         demo_elem 20 ''td'' ''2'' [] []],
       demo_elem 21 ''tr'' [] [] [demo_elem 22 ''td'' ''a'' [] [], demo_elem 23 ''td'' ''y'' [] [],
         demo_elem 24 ''td'' ''1'' [] []]]]"

definition demo_table_page :: node where
  "demo_table_page = demo_elem 0 [] [] [] [demo_table]"

definition demo_table_helper :: helper where
  "demo_table_helper = \<lparr>page = demo_table_page, driver = css_find demo_table_page, compare_version = ''1.0''\<rparr>"

definition demo_table_scrubber :: table_scrubber where
  "demo_table_scrubber = TableScrubber None None None None None
     (Some \<lparr>columns = [([1], [''Name'', ''Age''])], label_translations = [], value_translations = []\<rparr>)"

text \<open>A list with an empty item: \<open><ul><li>b</li><li></li><li>a</li></ul>\<close>.\<close>

definition demo_list_page :: node where
  "demo_list_page = demo_elem 0 [] [] [] [demo_elem 30 ''ul'' [] [] [
     demo_elem 31 ''li'' ''b'' [] [], demo_elem 32 ''li'' [] [] [], demo_elem 33 ''li'' ''a'' [] []]]"

definition demo_list_helper :: helper where
  "demo_list_helper = \<lparr>page = demo_list_page, driver = css_find demo_list_page, compare_version = ''1.0''\<rparr>"

declare KeyValuePairScrubber_def [py_eval] kv_scrape_details_def [py_eval] ListScrubber_def [py_eval]
  py_sorted_def [py_eval] list_scrape_details_def [py_eval] TableScrubber_def [py_eval]
  table_row_def [py_eval] row_key_def [py_eval] table_sort_def [py_eval] table_scrape_details_def [py_eval]
  demo_table_def [py_eval] demo_table_page_def [py_eval] demo_table_helper_def [py_eval] demo_table_scrubber_def [py_eval]
  demo_list_page_def [py_eval] demo_list_helper_def [py_eval]

section \<open>Facts about results and sorting\<close>

lemma map_r_InrD:
  "map_r f xs = Inr ys \<Longrightarrow> length ys = length xs \<and> (\<forall>(y, x) \<in> set (zip ys xs). f x = Inr y)"
proof (induction xs arbitrary: ys)
  case Nil
  then show ?case by simp
next
  case (Cons x xs)
  then show ?case by (auto simp: py_bind_Inr_iff)
qed

lemma map_r_pairs: "\<forall>(y, x) \<in> set ps. f x = Inr y \<Longrightarrow> map_r f (map snd ps) = Inr (map fst ps)"
  by (induction ps) auto

text \<open>\<open>map_r\<close> stops at the first error; when every error is the same, it is that one.\<close>

lemma map_r_Inl:
  assumes "\<forall>x \<in> set xs. f x = Inl e \<or> (\<exists>y. f x = Inr y)" and "\<exists>x \<in> set xs. f x = Inl e"
  shows "map_r f xs = Inl e"
  using assms
proof (induction xs)
  case Nil
  then show ?case by simp
next
  case (Cons x xs)
  show ?case
  proof (cases "f x = Inl e")
    case True
    then show ?thesis by simp
  next
    case False
    with Cons.prems obtain y where "f x = Inr y" by auto
    moreover from False Cons.prems have "map_r f xs = Inl e" by (intro Cons.IH) auto
    ultimately show ?thesis by simp
  qed
qed

lemma table_sort_Inr:
  assumes "table_sort headers rs = Inr out"
  obtains ks where "length ks = length rs" "\<forall>(k, d) \<in> set (zip ks rs). row_key headers d = Inr k"
    and "out = map snd (sort_key fst (zip ks rs))"
proof -
  from assms obtain ks where ks: "map_r (row_key headers) rs = Inr ks"
    and out: "out = map snd (sort_key fst (zip ks rs))"
    by (auto simp: table_sort_def py_bind_Inr_iff)
  from map_r_InrD[OF ks] out show ?thesis by (intro that) auto
qed

lemma table_sort_mset: "table_sort headers rs = Inr out \<Longrightarrow> mset out = mset rs"
  by (erule table_sort_Inr) (metis map_snd_zip mset_map mset_sort)

lemma table_row_Inr:
  "table_row h s headers row = Inr r \<Longrightarrow> \<exists>details. translate_dictionary (version_comparator s) (compare_version h) details = Inr r"
  unfolding table_row_def by (auto simp: py_bind_Inr_iff)

lemma row_key_cases: "row_key headers d = Inl KeyError \<or> (\<exists>k. row_key headers d = Inr k) \<or> row_key headers d = Inl IndexError"
  unfolding row_key_def dict_get_def by (auto split: list.splits option.splits)

lemma kv_pairs_keys:
  "kv_pairs h s ps details = Inr d \<Longrightarrow> \<forall>k \<in> fst ` set details. k \<noteq> [] \<Longrightarrow> \<forall>k \<in> fst ` set d. k \<noteq> []"
proof (induction h s ps details rule: kv_pairs.induct)
  case (1 h s details)
  then show ?case by simp
next
  case (2 h s kvpair rest details)
  from "2.prems"(1) obtain title where t: "get_element (driver h) (key_selector s) True kvpair = Inr title"
    and r: "(case cleanse (get_text title) of
         Some header \<Rightarrow>
           if header \<noteq> [] then py_bind (get_value h s kvpair) (\<lambda>v. kv_pairs h s rest (dict_set header v details))
           else kv_pairs h s rest details
       | None \<Rightarrow> kv_pairs h s rest details) = Inr d"
    by (auto simp: py_bind_Inr_iff)
  show ?case
  proof (cases "cleanse (get_text title)")
    case None
    with r show ?thesis using "2.IH"(1)[OF None] "2.prems"(2) by simp
  next
    case (Some header)
    show ?thesis
    proof (cases "header \<noteq> []")
      case True
      with r Some obtain v where "kv_pairs h s rest (dict_set header v details) = Inr d"
        by (auto simp: py_bind_Inr_iff)
      then show ?thesis using "2.IH"(2)[OF Some True] "2.prems"(2) True by simp
    next
      case False
      with r Some show ?thesis using "2.IH"(3)[OF Some False] "2.prems"(2) by simp
    qed
  qed
qed

lemma get_version_Nil: "parse_version ver = Inr cv \<Longrightarrow> get_version ver [] = Inr None"
  by (simp add: get_version_def)

text \<open>With the default \<open>VersionTranslator\<close> (no tables), \<open>translate_dictionary\<close>
  keeps the keys of its input.\<close>

lemma translate_dictionary_new_keys:
  assumes "translate_dictionary new_version_translator ver input = Inr r"
  shows "fst ` set r = fst ` set input"
proof -
  from assms obtain cv where cv: "parse_version ver = Inr cv"
    by (cases "parse_version ver") (auto simp: translate_dictionary_def get_version_def)
  have n: "no_rules (None :: string list option)" "no_rules (None :: (string, string) pydict option)"
    by (simp_all add: no_rules_def)
  have "translate_items None None None input [] = Inr (dict_update [] input)"
    using n by (rule translate_items_no_rules) simp
  then have "translate_dictionary new_version_translator ver input = Inr (sort_key fst (dict_update [] input))"
    by (simp add: translate_dictionary_def new_version_translator_def get_version_Nil[OF cv] del: py_bind_Inr_iff)
  with assms have "r = sort_key fst (dict_update [] input)" by simp
  then have "fst ` set r = dom (map_of (dict_update [] input))"
    by (simp add: dom_map_of_conv_image_fst)
  then show ?thesis by (simp add: map_of_dict_update dom_map_of_conv_image_fst)
qed

section \<open>Properties of the scrubbers\<close>

text \<open>On the sample table \<open>Name | Extra | Age\<close> with the allow-list
  \<open>{Name, Age}\<close>, TableScrubber files the cells of the Extra column under Age and
  drops the ages: the headers are filtered by the allow-list before the cells are
  matched to them by position.\<close>

lemma table_scrape_details_header_misalignment:
  "get_details demo_table_helper demo_table_scrubber (table_scrape_details demo_table_helper demo_table_scrubber)
     = Inr (Some [[(''Age'', PStr ''y''), (''Name'', PStr ''a'')], [(''Age'', PStr ''x''), (''Name'', PStr ''b'')]])"
  by (simp add: py_eval)

text \<open>C5: When a non-empty allow-list applies at the helper's compare version, every
  row TableScrubber returns has only allowed columns.\<close>

theorem table_scrape_details_columns:
  assumes "table_scrape_details h s p = Inr rows"
    and "get_version (compare_version h) (columns (version_comparator s)) = Inr (Some c)" and "c \<noteq> []"
  shows "\<forall>r \<in> set rows. fst ` set r \<subseteq> set c"
proof
  fix r assume "r \<in> set rows"
  from assms(1) obtain headers result where
    res: "map_r (table_row h s headers) (get_elements (driver h) (row_selector s) p) = Inr result"
    and srt: "table_sort headers result = Inr rows"
    by (auto simp: table_scrape_details_def Let_def py_bind_Inr_iff)
  from table_sort_mset[OF srt] \<open>r \<in> set rows\<close> have "r \<in> set result"
    by (metis set_mset_mset)
  from map_r_InrD[OF res] have len: "length result = length (get_elements (driver h) (row_selector s) p)"
    and all: "\<forall>(y, x) \<in> set (zip result (get_elements (driver h) (row_selector s) p)). table_row h s headers x = Inr y"
    by auto
  from \<open>r \<in> set result\<close> obtain i where i: "i < length result" "result ! i = r"
    by (auto simp: in_set_conv_nth)
  with len have "(r, get_elements (driver h) (row_selector s) p ! i)
      \<in> set (zip result (get_elements (driver h) (row_selector s) p))"
    by (auto simp: set_zip)
  with all have "table_row h s headers (get_elements (driver h) (row_selector s) p ! i) = Inr r" by auto
  then obtain details where "translate_dictionary (version_comparator s) (compare_version h) details = Inr r"
    by (blast dest: table_row_Inr)
  then show "fst ` set r \<subseteq> set c" using assms(2,3) by (rule translate_dictionary_keys_in_columns)
qed

theorem table_scrape_details_columns_witness:
  "table_scrape_details demo_table_helper demo_table_scrubber demo_table
     = Inr [[(''Age'', PStr ''y''), (''Name'', PStr ''a'')], [(''Age'', PStr ''x''), (''Name'', PStr ''b'')]]
   \<and> fst ` set [(''Age'', PStr ''y''), (''Name'', PStr ''a'')] \<subseteq> set [''Name'', ''Age'']
   \<and> fst ` set [(''Age'', PStr ''x''), (''Name'', PStr ''b'')] \<subseteq> set [''Name'', ''Age'']"
proof -
  have t: "table_scrape_details demo_table_helper demo_table_scrubber demo_table
     = Inr [[(''Age'', PStr ''y''), (''Name'', PStr ''a'')], [(''Age'', PStr ''x''), (''Name'', PStr ''b'')]]"
    by (simp add: py_eval)
  have c: "get_version (compare_version demo_table_helper) (columns (version_comparator demo_table_scrubber))
     = Inr (Some [''Name'', ''Age''])"
    by (simp add: py_eval)
  from t table_scrape_details_columns[OF t c] show ?thesis by simp
qed

lemma insort_key_pairs:
  assumes "\<forall>p \<in> set ys. fst p = f (snd p)"
  shows "map snd (insort_key fst (f x, x) ys) = insort_key f x (map snd ys)"
  using assms by (induction ys) auto

lemma sort_key_pairs: "map snd (sort_key fst (zip (map f xs) xs)) = sort_key f xs"
proof (induction xs)
  case (Cons x xs)
  have "\<forall>p \<in> set (sort_key fst (zip (map f xs) xs)). fst p = f (snd p)"
    by (auto simp: set_zip)
  with Cons show ?case by (simp add: insort_key_pairs)
qed simp

text \<open>C8: when every row has a value under the first non-empty header, TableScrubber's
  sort is Python's stable sort of the rows by the string of that value.\<close>

theorem table_sort_by_first_header:
  assumes "filter (\<lambda>x. x \<noteq> []) headers = h0 # hs" and "\<forall>d \<in> set rs. map_of d h0 \<noteq> None"
  shows "table_sort headers rs = Inr (sort_key (\<lambda>d. py_str (the (map_of d h0))) rs)"
proof -
  let ?f = "\<lambda>d. py_str (the (map_of d h0))"
  have "map_r (row_key headers) rs = Inr (map ?f rs)"
    using assms by (intro map_r_Inr) (auto simp: row_key_def dict_get_def)
  then show ?thesis by (simp add: table_sort_def sort_key_pairs)
qed

theorem table_sort_by_first_header_witness:
  "table_sort [[], ''Name''] [[(''Name'', PStr ''b'')], [(''Name'', PStr ''a'')], [(''Name'', PStr ''c'')]]
     = Inr [[(''Name'', PStr ''a'')], [(''Name'', PStr ''b'')], [(''Name'', PStr ''c'')]]"
proof -
  have "table_sort [[], ''Name''] [[(''Name'', PStr ''b'')], [(''Name'', PStr ''a'')], [(''Name'', PStr ''c'')]]
     = Inr (sort_key (\<lambda>d. py_str (the (map_of d ''Name'')))
              [[(''Name'', PStr ''b'')], [(''Name'', PStr ''a'')], [(''Name'', PStr ''c'')]])"
    by (rule table_sort_by_first_header [of _ "''Name''" "[]"]) simp_all
  then show ?thesis by (simp add: py_eval)
qed

text \<open>C9: When a row lacks the first non-empty header (renamed, dropped by the
  allow-list or missing from the row), TableScrubber's sort raises KeyError.\<close>

theorem table_sort_missing_key:
  assumes "filter (\<lambda>x. x \<noteq> []) headers = h0 # hs" and "d \<in> set rs" and "map_of d h0 = None"
  shows "table_sort headers rs = Inl KeyError"
proof -
  have "\<forall>x \<in> set rs. row_key headers x = Inl KeyError \<or> (\<exists>k. row_key headers x = Inr k)"
    using assms(1) by (auto simp: row_key_def dict_get_def split: option.splits)
  moreover have "row_key headers d = Inl KeyError"
    using assms(1,3) by (simp add: row_key_def dict_get_def)
  ultimately have "map_r (row_key headers) rs = Inl KeyError"
    using assms(2) by (intro map_r_Inl) auto
  then show ?thesis by (simp add: table_sort_def)
qed

theorem table_sort_missing_key_witness:
  "table_sort [[], ''Name''] [[(''Name'', PStr ''a'')], [(''Age'', PStr ''1'')]] = Inl KeyError"
  by (rule table_sort_missing_key[of _ "''Name''" "[]" "[(''Age'', PStr ''1'')]"]) simp_all

text \<open>ListScrubber's sort raises TypeError exactly when there are two values or
  more and one of them is not a string (an empty item's None, or a Link).\<close>

theorem py_sorted_type_error:
  "py_sorted xs = Inl e \<longleftrightarrow> e = TypeError \<and> 2 \<le> length xs \<and> \<not> list_all is_pstr xs"
  by (auto simp: py_sorted_def)

text \<open>On the list \<open>b\<close>, an empty item, \<open>a\<close>, ListScrubber raises TypeError.\<close>

theorem list_scrape_details_empty_item:
  "get_details demo_list_helper (ListScrubber None None None)
     (list_scrape_details demo_list_helper (ListScrubber None None None)) = Inl TypeError"
  by (simp add: py_eval)

text \<open>ListScrubber returns its values sorted: a list of two values or more is
  made of strings in ascending order.\<close>

theorem list_scrape_details_sorted:
  assumes "list_scrape_details h s p = Inr ys" and "2 \<le> length ys"
  shows "list_all is_pstr ys \<and> sorted (map pstr_key ys)"
proof -
  from assms(1) obtain xs where "py_sorted xs = Inr ys"
    by (auto simp: list_scrape_details_def py_bind_Inr_iff)
  with assms(2) show ?thesis
    by (auto simp: py_sorted_def list_all_iff split: if_splits intro: sorted_sort_key)
qed

theorem list_scrape_details_sorted_witness:
  "list_scrape_details demo_list_helper (ListScrubber None None None) (demo_elem 30 ''ul'' [] [] [
     demo_elem 31 ''li'' ''b'' [] [], demo_elem 33 ''li'' ''a'' [] []]) = Inr [PStr ''a'', PStr ''b'']
   \<and> list_all is_pstr [PStr ''a'', PStr ''b''] \<and> sorted (map pstr_key [PStr ''a'', PStr ''b''])"
proof -
  have l: "list_scrape_details demo_list_helper (ListScrubber None None None) (demo_elem 30 ''ul'' [] [] [
     demo_elem 31 ''li'' ''b'' [] [], demo_elem 33 ''li'' ''a'' [] []]) = Inr [PStr ''a'', PStr ''b'']"
    by (simp add: py_eval)
  from l list_scrape_details_sorted[OF l] show ?thesis by simp
qed

text \<open>KeyValuePairScrubber with the default selectors and translator, on the
  sample key/value list: the flat link comes back as its \<open>repr\<close> and the pair whose
  link wraps a span comes back as the whole item's text.\<close>

theorem kv_scrape_details_sample:
  "get_details demo_helper (KeyValuePairScrubber None None None None None)
     (kv_scrape_details demo_helper (KeyValuePairScrubber None None None None None))
   = Inr (Some [(''Home'', PStr ''Link(href='/b', name='Bar')''), (''Name'', PStr ''Name Foo'')])"
  by (simp add: py_eval) blast

text \<open>C10: With the default translator, the record KeyValuePairScrubber returns has
  its keys sorted, distinct and non-empty: pairs without a key are skipped.\<close>

theorem kv_scrape_details_keys:
  assumes "kv_scrape_details h s p = Inr d" and "version_comparator s = new_version_translator"
  shows "sorted (map fst d) \<and> distinct (map fst d) \<and> (\<forall>k \<in> fst ` set d. k \<noteq> [])"
proof -
  from assms obtain details where
    kv: "kv_pairs h s (get_elements (driver h) (pair_selector s) p) [] = Inr details"
    and tr: "translate_dictionary new_version_translator (compare_version h) details = Inr d"
    by (auto simp: kv_scrape_details_def py_bind_Inr_iff)
  have "\<forall>k \<in> fst ` set details. k \<noteq> []" using kv by (rule kv_pairs_keys) simp
  then show ?thesis
    using translate_dictionary_new_keys[OF tr] translate_dictionary_sorted_keys[OF tr] by simp
qed

theorem kv_scrape_details_keys_witness:
  "kv_scrape_details demo_helper (KeyValuePairScrubber None None None None None)
     (demo_elem 1 ''ul'' [] [] [demo_flat_pair]) = Inr [(''Home'', PStr ''Link(href='/b', name='Bar')'')]
   \<and> sorted (map fst [(''Home'', PStr ''Link(href='/b', name='Bar')'')])
   \<and> distinct (map fst [(''Home'', PStr ''Link(href='/b', name='Bar')'')])
   \<and> fst ` set [(''Home'', PStr ''Link(href='/b', name='Bar')'')] = {''Home''}"
proof -
  have k: "kv_scrape_details demo_helper (KeyValuePairScrubber None None None None None)
     (demo_elem 1 ''ul'' [] [] [demo_flat_pair]) = Inr [(''Home'', PStr ''Link(href='/b', name='Bar')'')]"
    by (simp add: py_eval)
  have v: "version_comparator (KeyValuePairScrubber None None None None None) = new_version_translator"
    by (simp add: py_eval)
  from k kv_scrape_details_keys[OF k v] show ?thesis by simp
qed

end
