(* ===== verification/Interaction.thy ===== *)
theory Interaction
  imports Page
begin

text \<open>
  The interactive half of \<open>SeleniumHelper\<close> and the \<open>Action\<close> classes
  (src/lbrc_selenium/selenium.py): \<open>get\<close>, \<open>convert_to_relative_url\<close>,
  \<open>get_parent\<close>, \<open>type_in_textbox\<close>, \<open>click_element\<close>, \<open>click_all\<close>, and
  \<open>Action.do\<close> with the \<open>_do\<close> of each subclass. The browser is a state: the
  current document, whether a JavaScript alert is open, and the sequence of the
  observable things the helper does (navigations, clicks, key strokes, the sleeps and
  the \<open>print\<close> of a retry). What the browser does in answer to a command is an
  interface, \<open>driver_env\<close>: the elements a query finds, how a click changes the
  document, the document a URL loads and \<open>urljoin\<close>. A command sent while an alert is
  open raises \<open>UnexpectedAlertPresentException\<close> and dismisses the alert (the
  WebDriver default \<open>dismiss and notify\<close>); a command on an element that is no
  longer in the document raises \<open>StaleElementReferenceException\<close>.
\<close>

section \<open>The browser\<close>

datatype event =
    Navigate string
  | Click nat
  | Clear nat
  | SendKeys nat string
  | ClickWait
  | SleepSecond
  | SleepPoll
  | Retrying

record browser =
  document :: node
  alert :: bool
  events :: "event list"

record driver_env =
  find_all :: "node \<Rightarrow> finder"
  on_click :: "nat \<Rightarrow> node \<Rightarrow> node py_result"
  load :: "string \<Rightarrow> node \<times> bool"
  urljoin :: "string \<Rightarrow> string \<Rightarrow> string"

text \<open>A command of the helper: it reads and updates the browser and returns a value or
  raises.\<close>

type_synonym 'a command = "browser \<Rightarrow> (py_error + 'a) \<times> browser"

definition cmd_return :: "'a \<Rightarrow> 'a command" where
  "cmd_return x b = (Inr x, b)"

definition cmd_bind :: "'a command \<Rightarrow> ('a \<Rightarrow> 'b command) \<Rightarrow> 'b command" where
  "cmd_bind m f b = (case m b of (Inl e, b') \<Rightarrow> (Inl e, b') | (Inr x, b') \<Rightarrow> f x b')"

definition log :: "event list \<Rightarrow> browser \<Rightarrow> browser" where
  "log es b = b\<lparr>events := events b @ es\<rparr>"

text \<open>The element of the document with a given identity.\<close>

definition lookup :: "node \<Rightarrow> nat \<Rightarrow> node option" where
  "lookup d i = find (\<lambda>n. node_eid n = i) (tl (subtrees d))"

fun update_node :: "nat \<Rightarrow> (element_info \<Rightarrow> element_info) \<Rightarrow> node \<Rightarrow> node" where
  "update_node i f (Node ei cs) =
     (if eid ei = i then Node (f ei) cs else Node ei (map (update_node i f) cs))"

definition set_attribute :: "nat \<Rightarrow> string \<Rightarrow> string \<Rightarrow> node \<Rightarrow> node" where
  "set_attribute i a v = update_node i (\<lambda>ei. ei\<lparr>attributes := dict_set a v (attributes ei)\<rparr>)"

section \<open>WebDriver commands\<close>

text \<open>\<open>(element or self.driver).find_element(...)\<close> through \<open>get_element\<close>: the scope
  is the document or an element held by its identity.\<close>

definition helper_get_element :: "driver_env \<Rightarrow> selector \<Rightarrow> bool \<Rightarrow> nat option \<Rightarrow> node option command" where
  "helper_get_element env sel allow_null scope b =
     (if alert b then (Inl UnexpectedAlertPresentException, b\<lparr>alert := False\<rparr>)
      else (case scope of
              None \<Rightarrow> (get_element (find_all env (document b)) sel allow_null (document b), b)
            | Some i \<Rightarrow>
                (case lookup (document b) i of
                   None \<Rightarrow> (Inl StaleElementReferenceException, b)
                 | Some n \<Rightarrow> (get_element (find_all env (document b)) sel allow_null n, b))))"

text \<open>A command on an element: \<open>click()\<close>, \<open>clear()\<close>, \<open>send_keys(text)\<close>.\<close>

definition element_command :: "nat \<Rightarrow> (node \<Rightarrow> node py_result) \<Rightarrow> event \<Rightarrow> unit command" where
  "element_command i f ev b =
     (if alert b then (Inl UnexpectedAlertPresentException, b\<lparr>alert := False\<rparr>)
      else (case lookup (document b) i of
              None \<Rightarrow> (Inl StaleElementReferenceException, b)
            | Some _ \<Rightarrow>
                (case f (document b) of
                   Inl e \<Rightarrow> (Inl e, b)
                 | Inr d \<Rightarrow> (Inr (), b\<lparr>document := d, events := events b @ [ev]\<rparr>))))"

definition element_click :: "driver_env \<Rightarrow> nat \<Rightarrow> unit command" where
  "element_click env i = element_command i (on_click env i) (Click i)"

definition element_clear :: "nat \<Rightarrow> unit command" where
  "element_clear i = element_command i (\<lambda>d. Inr (set_attribute i ''value'' [] d)) (Clear i)"

definition element_send_keys :: "nat \<Rightarrow> string \<Rightarrow> unit command" where
  "element_send_keys i text =
     element_command i
       (\<lambda>d. Inr (case lookup d i of
                   None \<Rightarrow> d
                 | Some n \<Rightarrow> set_attribute i ''value''
                               ((case get_attribute n ''value'' of None \<Rightarrow> [] | Some v \<Rightarrow> v) @ text) d))
       (SendKeys i text)"

section \<open>Interaction methods of SeleniumHelper\<close>

text \<open>\<open>convert_to_relative_url(url)\<close>, for the helper's \<open>base_url\<close>.\<close>

definition convert_to_relative_url :: "string \<Rightarrow> string \<Rightarrow> string" where
  "convert_to_relative_url base_url url =
     (if py_startswith url base_url then drop (length base_url) url else url)"

text \<open>\<open>get_parent(element)\<close>: \<open>find_element(By.XPATH, './..')\<close>. The parent of a
  top-level element is the document, which is not an element, and the driver rejects
  the query.\<close>

definition get_parent :: "node \<Rightarrow> node \<Rightarrow> node py_result" where
  "get_parent root e =
     (case filter (\<lambda>p. node_eid e \<in> set (map node_eid (children p))) (tl (subtrees root)) of
        p # _ \<Rightarrow> Inr p
      | [] \<Rightarrow> Inl InvalidSelectorException)"

text \<open>\<open>click_element(selector, element)\<close>: find, click, sleep \<open>click_wait_time\<close>.
  With \<open>allow_null=False\<close>, \<open>get_element\<close> never returns \<open>None\<close>; \<open>None.click()\<close>
  would raise \<open>AttributeError\<close>.\<close>

definition click_element :: "driver_env \<Rightarrow> selector \<Rightarrow> nat option \<Rightarrow> node command" where
  "click_element env sel scope =
     cmd_bind (helper_get_element env sel False scope) (\<lambda>eo.
       case eo of
         None \<Rightarrow> (\<lambda>b. (Inl AttributeError, b))
       | Some e \<Rightarrow> cmd_bind (element_click env (node_eid e)) (\<lambda>_ b. (Inr e, log [ClickWait] b)))"

text \<open>\<open>type_in_textbox(selector, text, element)\<close>: find, clear, send the keys.\<close>

definition type_in_textbox :: "driver_env \<Rightarrow> selector \<Rightarrow> string \<Rightarrow> nat option \<Rightarrow> node command" where
  "type_in_textbox env sel text scope =
     cmd_bind (helper_get_element env sel False scope) (\<lambda>eo.
       case eo of
         None \<Rightarrow> (\<lambda>b. (Inl AttributeError, b))
       | Some e \<Rightarrow> cmd_bind (element_clear (node_eid e)) (\<lambda>_.
                   cmd_bind (element_send_keys (node_eid e) text) (\<lambda>_. cmd_return e)))"

text \<open>
  \<^verbatim>\<open>
  def click_all(self, selector, element=None):
      while True:
          element = self.get_element(selector, allow_null=True, element=element)
          if element is None:
              break
          element.click()
          sleep(self.click_wait_time)
  \<close>
  The loop rebinds \<open>element\<close>: each search runs inside the element clicked last.
  Nothing bounds the loop, so it is a partial function: \<open>None\<close> is a run that never
  stops.
\<close>

partial_function (option) click_all ::
  "driver_env \<Rightarrow> selector \<Rightarrow> nat option \<Rightarrow> browser \<Rightarrow> ((py_error + unit) \<times> browser) option" where
  "click_all env sel scope b =
     (case helper_get_element env sel True scope b of
        (Inl e, b') \<Rightarrow> Some (Inl e, b')
      | (Inr None, b') \<Rightarrow> Some (Inr (), b')
      | (Inr (Some e), b') \<Rightarrow>
          (case element_click env (node_eid e) b' of
             (Inl err, b'') \<Rightarrow> Some (Inl err, b'')
           | (Inr _, b'') \<Rightarrow> click_all env sel (Some (node_eid e)) (log [ClickWait] b'')))"

text \<open>
  \<^verbatim>\<open>
  def get(self, url):
      self.driver.get(urljoin(base, url))
      for i in range(20):
          try:
              self.get_element(CssSelector('body'), allow_null=False)
          except UnexpectedAlertPresentException as e:
              sleep(1)
  \<close>
  The loop has no \<open>break\<close>: it looks for the body twenty times. Only the alert is
  caught; a missing body raises \<open>NoSuchElementException\<close>.
\<close>

fun body_checks :: "nat \<Rightarrow> driver_env \<Rightarrow> unit command" where
  "body_checks 0 env b = (Inr (), b)"
| "body_checks (Suc n) env b =
     (case helper_get_element env (CssSelector ''body'') False None b of
        (Inl e, b') \<Rightarrow> if e = UnexpectedAlertPresentException then body_checks n env (log [SleepSecond] b') else (Inl e, b')
      | (Inr _, b') \<Rightarrow> body_checks n env b')"

definition navigate :: "driver_env \<Rightarrow> string \<Rightarrow> unit command" where
  "navigate env u b =
     (if alert b then (Inl UnexpectedAlertPresentException, b\<lparr>alert := False\<rparr>)
      else (Inr (), b\<lparr>document := fst (load env u), alert := snd (load env u), events := events b @ [Navigate u]\<rparr>))"

definition helper_get :: "driver_env \<Rightarrow> string \<Rightarrow> string \<Rightarrow> unit command" where
  "helper_get env base_url url = cmd_bind (navigate env (urljoin env base_url url)) (\<lambda>_. body_checks 20 env)"

section \<open>Actions\<close>

text \<open>
  \<^verbatim>\<open>
  def do(self):
      retried = 0
      while True:
          try:
              self._do()
              return
          except Exception as e:
              if retried > 2:
                  raise e
              sleep(1)
              retried += 1
              print('Retrying...')
  \<close>
  What bounds the loop is \<open>3 - retried\<close>, which every retry decreases.
\<close>

function do_loop :: "nat \<Rightarrow> unit command \<Rightarrow> unit command" where
  "do_loop retried f b =
     (case f b of
        (Inr u, b') \<Rightarrow> (Inr u, b')
      | (Inl e, b') \<Rightarrow> if 2 < retried then (Inl e, b') else do_loop (Suc retried) f (log [SleepSecond, Retrying] b'))"
  by pat_completeness auto
termination
  by (relation "measure (\<lambda>(retried, f, b). 3 - retried)") auto

definition action_do :: "unit command \<Rightarrow> unit command" where
  "action_do f = do_loop 0 f"

text \<open>\<open>Action._do\<close> raises \<open>NotImplementedError\<close>.\<close>

definition Action_do :: "unit command" where
  "Action_do b = (Inl NotImplementedError, b)"

definition SelectAction_do :: "driver_env \<Rightarrow> selector \<Rightarrow> selector \<Rightarrow> unit command" where
  "SelectAction_do env select_selector item_selector =
     cmd_bind (click_element env select_selector None) (\<lambda>_.
     cmd_bind (click_element env item_selector None) (\<lambda>_. cmd_return ()))"

text \<open>\<open>TypeInTextboxAction._do\<close> calls \<open>self.helper.type_in_textbox_selector\<close> and
  \<open>EnsureAction._do\<close> calls \<open>self.helper.get_element_selector\<close>: \<open>SeleniumHelper\<close>
  has neither method, so the attribute lookup raises \<open>AttributeError\<close> before anything
  reaches the browser.\<close>

definition TypeInTextboxAction_do :: "driver_env \<Rightarrow> selector \<Rightarrow> string \<Rightarrow> unit command" where
  "TypeInTextboxAction_do env sel text b = (Inl AttributeError, b)"

definition ClickAction_do :: "driver_env \<Rightarrow> selector \<Rightarrow> unit command" where
  "ClickAction_do env sel = cmd_bind (click_element env sel None) (\<lambda>_. cmd_return ())"

definition EnsureAction_do :: "driver_env \<Rightarrow> selector \<Rightarrow> unit command" where
  "EnsureAction_do env sel b = (Inl AttributeError, b)"

section \<open>The action classes\<close>

text \<open>\<open>Action\<close> and its subclasses as one datatype: a constructor per class with what
  its \<open>__init__\<close> stores besides the helper (\<open>SelectAction\<close> keeps the dropdown as
  \<open>selector\<close> and the item as \<open>item_selector\<close>). \<open>_do\<close> is dispatched on the class,
  and \<open>do\<close> is the retry loop around it.\<close>

datatype action =
    Action selector
  | SelectAction selector selector
  | TypeInTextboxAction selector string
  | ClickAction selector
  | EnsureAction selector

fun action_step :: "driver_env \<Rightarrow> action \<Rightarrow> unit command" where
  "action_step env (Action sel) = Action_do"
| "action_step env (SelectAction select_selector item_selector) = SelectAction_do env select_selector item_selector"
| "action_step env (TypeInTextboxAction sel text) = TypeInTextboxAction_do env sel text"
| "action_step env (ClickAction sel) = ClickAction_do env sel"
| "action_step env (EnsureAction sel) = EnsureAction_do env sel"

definition action_run :: "driver_env \<Rightarrow> action \<Rightarrow> unit command" where
  "action_run env a = action_do (action_step env a)"

section \<open>The contract of the retry loop\<close>

text \<open>What \<open>Action.do\<close> promises: try \<open>_do\<close>; on an exception, sleep a second,
  print, and try again, four attempts in all; the result is that of the first attempt
  that succeeds, else the exception of the fourth.\<close>

definition attempt_again :: "unit command \<Rightarrow> unit command \<Rightarrow> unit command" where
  "attempt_again m g b = (case m b of (Inl e, b') \<Rightarrow> g (log [SleepSecond, Retrying] b') | (Inr u, b') \<Rightarrow> (Inr u, b'))"

definition four_attempts :: "unit command \<Rightarrow> unit command" where
  "four_attempts f = attempt_again f (attempt_again f (attempt_again f f))"

section \<open>Sample pages\<close>

text \<open>A body with two sibling buttons, \<open><button>More</button><button>More</button>\<close>,
  a driver whose clicks leave the page as it is, and one whose clicks remove the
  clicked element (a button that hides itself).\<close>

definition demo_button :: "nat \<Rightarrow> node" where
  "demo_button i = Node \<lparr>eid = i, tag_name = ''button'', visible_text = ''More'', attributes = [], inner_html = ''More''\<rparr> []"

definition demo_buttons_page :: node where
  "demo_buttons_page = Node \<lparr>eid = 0, tag_name = [], visible_text = [], attributes = [], inner_html = []\<rparr>
     [Node \<lparr>eid = 1, tag_name = ''body'', visible_text = [], attributes = [], inner_html = []\<rparr>
        [demo_button 2, demo_button 3]]"

fun remove_element :: "nat \<Rightarrow> node \<Rightarrow> node" where
  "remove_element i (Node ei cs) = Node ei (map (remove_element i) (filter (\<lambda>c. node_eid c \<noteq> i) cs))"

definition demo_env :: driver_env where
  "demo_env = \<lparr>find_all = css_find, on_click = (\<lambda>i d. Inr d), load = (\<lambda>u. (demo_buttons_page, False)),
     urljoin = (\<lambda>base u. base @ u)\<rparr>"

definition demo_env_hiding :: driver_env where
  "demo_env_hiding = demo_env\<lparr>on_click := (\<lambda>i d. Inr (remove_element i d))\<rparr>"

definition demo_browser :: browser where
  "demo_browser = \<lparr>document = demo_buttons_page, alert = False, events = []\<rparr>"

lemmas interaction_eval = helper_get_element_def element_click_def element_command_def lookup_def log_def
  cmd_bind_def cmd_return_def click_element_def navigate_def helper_get_def demo_button_def
  demo_buttons_page_def demo_env_def demo_env_hiding_def demo_browser_def

section \<open>Facts about documents and commands\<close>

lemma size_subtrees_le: "x \<in> set (subtrees n) \<Longrightarrow> size x \<le> size n"
proof (induction n)
  case (Node i cs)
  show ?case
  proof (cases "x = Node i cs")
    case False
    with Node.prems obtain c where c: "c \<in> set cs" "x \<in> set (subtrees c)" by auto
    with Node.IH have "size x \<le> size c" by blast
    with c(1) have "size x \<le> size_list size cs" by (rule size_list_estimation')
    then show ?thesis by simp
  qed simp
qed

lemma size_tl_subtrees: "x \<in> set (tl (subtrees n)) \<Longrightarrow> size x < size n"
proof (cases n)
  case (Node i cs)
  assume "x \<in> set (tl (subtrees n))"
  with Node obtain c where "c \<in> set cs" "x \<in> set (subtrees c)" by auto
  then have "size x \<le> size c" "size c \<le> size_list size cs"
    by (auto intro: size_subtrees_le size_list_estimation')
  with Node show ?thesis by simp
qed

lemma find_eid_distinct:
  "distinct (map node_eid xs) \<Longrightarrow> x \<in> set xs \<Longrightarrow> find (\<lambda>n. node_eid n = node_eid x) xs = Some x"
  by (induction xs) (auto simp: image_iff)

lemma find_SomeD: "find P xs = Some x \<Longrightarrow> x \<in> set xs"
  by (induction xs) (auto split: if_splits)

lemma lookup_element: "wf_page d \<Longrightarrow> e \<in> set (tl (subtrees d)) \<Longrightarrow> lookup d (node_eid e) = Some e"
  unfolding lookup_def by (rule find_eid_distinct) (rule wf_page_distinct)

lemma lookup_in_page: "lookup d i = Some n \<Longrightarrow> n \<in> set (tl (subtrees d))"
  unfolding lookup_def by (rule find_SomeD)

lemma alert_log [simp]: "alert (log es b) = alert b"
  by (simp add: log_def)

lemma document_log [simp]: "document (log es b) = document b"
  by (simp add: log_def)

lemma css_find_scoped: "set (css_find root sel n) \<subseteq> set (tl (subtrees n))"
  unfolding css_find_def by auto

text \<open>\<open>click_all\<close> on a page that its clicks leave unchanged: each search runs
  strictly inside the element clicked before, so the run descends a chain of nested
  elements and stops.\<close>

lemma click_all_descends:
  assumes wf: "wf_page D" and scoped: "\<forall>sel n. set (find_all env D sel n) \<subseteq> set (tl (subtrees n))"
    and still: "\<forall>i. on_click env i D = Inr D"
  shows "document b = D \<Longrightarrow> \<not> alert b \<Longrightarrow> (case scope of None \<Rightarrow> True | Some i \<Rightarrow> lookup D i \<noteq> None) \<Longrightarrow>
         \<exists>es. click_all env sel scope b = Some (Inr (), b\<lparr>events := events b @ es\<rparr>)"
proof (induction "case scope of None \<Rightarrow> Suc (size D) | Some i \<Rightarrow> size (the (lookup D i))"
         arbitrary: scope b rule: less_induct)
  case less
  obtain n where n: "(case scope of None \<Rightarrow> D | Some i \<Rightarrow> the (lookup D i)) = n" by blast
  have nD: "n = D \<or> n \<in> set (tl (subtrees D))"
    using less.prems(3) n by (cases scope) (auto dest: lookup_in_page)
  have get: "helper_get_element env sel True scope b = (get_element (find_all env D) sel True n, b)"
    using less.prems n by (cases scope) (auto simp: helper_get_element_def)
  show ?case
  proof (cases "find_all env D sel n")
    case Nil
    then have "click_all env sel scope b = Some (Inr (), b)"
      by (subst click_all.simps) (simp add: get get_element_def)
    then show ?thesis by (intro exI[of _ "[]"]) simp
  next
    case (Cons e rest)
    have en: "e \<in> set (tl (subtrees n))" using scoped Cons by (metis list.set_intros(1) subsetD)
    have "e \<in> set (subtrees n)" using en by (cases n) auto
    then have eD: "e \<in> set (tl (subtrees D))"
      using nD en by (auto intro: elements_trans)
    have look: "lookup D (node_eid e) = Some e" using lookup_element[OF wf eD] .
    let ?b = "b\<lparr>events := events b @ [Click (node_eid e), ClickWait]\<rparr>"
    have click: "element_click env (node_eid e) b = (Inr (), b\<lparr>events := events b @ [Click (node_eid e)]\<rparr>)"
      using less.prems still look by (simp add: element_click_def element_command_def)
    have smaller: "size (the (lookup D (node_eid e))) < (case scope of None \<Rightarrow> Suc (size D) | Some i \<Rightarrow> size (the (lookup D i)))"
      using size_tl_subtrees[OF en] size_tl_subtrees[OF eD] n look by (cases scope) auto
    from less.hyps[OF _ _ _ ] smaller less.prems look
    obtain es where rec: "click_all env sel (Some (node_eid e)) ?b = Some (Inr (), ?b\<lparr>events := events ?b @ es\<rparr>)"
      using less.hyps[of "Some (node_eid e)" ?b] by auto
    have "click_all env sel scope b = click_all env sel (Some (node_eid e)) ?b"
      by (subst click_all.simps) (simp add: get get_element_def Cons click log_def)
    with rec show ?thesis by auto
  qed
qed

text \<open>\<open>body_checks\<close> on a page with a body: an open alert costs one caught exception
  and one second, and is dismissed.\<close>

lemma body_checks_found:
  assumes "find_all env (document b) (CssSelector ''body'') (document b) \<noteq> []"
  shows "body_checks n env b =
           (Inr (), if alert b \<and> 0 < n then log [SleepSecond] (b\<lparr>alert := False\<rparr>) else b)"
  using assms
proof (induction n arbitrary: b)
  case 0
  then show ?case by simp
next
  case (Suc n)
  show ?case
  proof (cases "alert b")
    case True
    have "body_checks n env (log [SleepSecond] (b\<lparr>alert := False\<rparr>)) = (Inr (), log [SleepSecond] (b\<lparr>alert := False\<rparr>))"
      using Suc.IH[of "log [SleepSecond] (b\<lparr>alert := False\<rparr>)"] Suc.prems by simp
    with True show ?thesis by (simp add: helper_get_element_def)
  next
    case False
    then have "helper_get_element env (CssSelector ''body'') False None b = (Inr (Some (hd (find_all env (document b) (CssSelector ''body'') (document b)))), b)"
      using Suc.prems by (auto simp: helper_get_element_def get_element_def split: list.splits)
    with False Suc.IH Suc.prems show ?thesis by simp
  qed
qed

lemma body_checks_alert_missing:
  assumes "find_all env (document b) (CssSelector ''body'') (document b) = []" and "alert b"
  shows "body_checks (Suc (Suc n)) env b = (Inl NoSuchElementException, log [SleepSecond] (b\<lparr>alert := False\<rparr>))"
  using assms by (simp add: helper_get_element_def get_element_def)

lemma body_checks_missing:
  assumes "find_all env (document b) (CssSelector ''body'') (document b) = []" and "\<not> alert b"
  shows "body_checks (Suc n) env b = (Inl NoSuchElementException, b)"
  using assms by (simp add: helper_get_element_def get_element_def)

text \<open>Of the five action classes only \<open>ClickAction\<close> and \<open>SelectAction\<close> can
  succeed: \<open>Action._do\<close> raises \<open>NotImplementedError\<close> and the \<open>_do\<close> of
  \<open>TypeInTextboxAction\<close> and \<open>EnsureAction\<close> call methods the helper lacks.\<close>

lemma action_run_success:
  assumes "fst (action_run env a b) = Inr ()"
  shows "(\<exists>sel. a = ClickAction sel) \<or> (\<exists>sel item. a = SelectAction sel item)"
  using assms
  by (cases a) (simp_all add: action_run_def action_do_def Action_do_def TypeInTextboxAction_do_def
      EnsureAction_do_def)

section \<open>Properties of the interaction\<close>

text \<open>C11: Action.do is the retry contract: four attempts of \<open>_do\<close>, a second's sleep
  and a print between two attempts, the result of the first attempt that succeeds or
  the exception of the fourth.\<close>

theorem action_do_four_attempts: "action_do f = four_attempts f"
proof -
  have step: "do_loop r f = attempt_again f (do_loop (Suc r) f)" if "r \<le> 2" for r
  proof
    fix b
    show "do_loop r f b = attempt_again f (do_loop (Suc r) f) b"
      using that by (simp add: attempt_again_def split: prod.split sum.split)
  qed
  have last: "do_loop (Suc (Suc (Suc 0))) f = f"
  proof
    fix b
    show "do_loop (Suc (Suc (Suc 0))) f b = f b" by (simp split: prod.split sum.split)
  qed
  show ?thesis
    unfolding action_do_def four_attempts_def
    by (simp only: step[of 0] step[of "Suc 0"] step[of "Suc (Suc 0)"] last)
qed

text \<open>An attempt that always fails makes Action.do attempt four times, sleeping and
  printing three times, and raise the exception.\<close>

theorem action_do_always_fails:
  assumes "\<forall>b. f b = (Inl e, g b)"
  shows "action_do f b =
           (Inl e, g (log [SleepSecond, Retrying] (g (log [SleepSecond, Retrying] (g (log [SleepSecond, Retrying] (g b)))))))"
  using assms by (simp add: action_do_def)

theorem action_do_always_fails_witness:
  "action_do (\<lambda>b. (Inl NoSuchElementException, log [Click 1] b)) demo_browser
     = (Inl NoSuchElementException, log [Click 1, SleepSecond, Retrying, Click 1, SleepSecond, Retrying,
          Click 1, SleepSecond, Retrying, Click 1] demo_browser)"
  using action_do_always_fails[of "\<lambda>b. (Inl NoSuchElementException, log [Click 1] b)" NoSuchElementException "log [Click 1]" demo_browser]
  by (simp add: log_def)

text \<open>TypeInTextboxAction and EnsureAction never act on the page: their
  \<open>_do\<close> calls a method SeleniumHelper does not have, so do() retries three times and
  raises AttributeError, whatever the page.\<close>

lemma action_do_missing_methods:
  "action_do (TypeInTextboxAction_do env sel text) b
     = (Inl AttributeError, log [SleepSecond, Retrying, SleepSecond, Retrying, SleepSecond, Retrying] b)
   \<and> action_do (EnsureAction_do env sel) b
     = (Inl AttributeError, log [SleepSecond, Retrying, SleepSecond, Retrying, SleepSecond, Retrying] b)"
  by (simp add: action_do_def TypeInTextboxAction_do_def EnsureAction_do_def log_def)

text \<open>C17: click_all returns on a well-formed page that its clicks leave unchanged,
  when the driver finds elements inside the scope searched.\<close>

theorem click_all_returns:
  assumes "wf_page (document b)" "\<forall>sel n. set (find_all env (document b) sel n) \<subseteq> set (tl (subtrees n))"
    and "\<forall>i. on_click env i (document b) = Inr (document b)" and "\<not> alert b"
  shows "\<exists>es. click_all env sel None b = Some (Inr (), b\<lparr>events := events b @ es\<rparr>)"
  using click_all_descends[OF assms(1-3)] assms(4) by simp

theorem click_all_returns_witness:
  "\<exists>es. click_all demo_env (CssSelector ''button'') None demo_browser
          = Some (Inr (), demo_browser\<lparr>events := events demo_browser @ es\<rparr>)"
proof (rule click_all_returns)
  show "wf_page (document demo_browser)" by (simp add: interaction_eval py_eval)
  show "\<forall>sel n. set (find_all demo_env (document demo_browser) sel n) \<subseteq> set (tl (subtrees n))"
    by (simp add: demo_env_def css_find_scoped)
  show "\<forall>i. on_click demo_env i (document demo_browser) = Inr (document demo_browser)"
    by (simp add: demo_env_def)
  show "\<not> alert demo_browser" by (simp add: demo_browser_def)
qed

text \<open>On two sibling buttons, click_all clicks the first only: its next search
  runs inside the button it clicked.\<close>

lemma click_all_siblings:
  "click_all demo_env (CssSelector ''button'') None demo_browser
     = Some (Inr (), demo_browser\<lparr>events := [Click 2, ClickWait]\<rparr>)"
  apply (subst click_all.simps)
  apply (simp add: interaction_eval py_eval)
  apply (subst click_all.simps)
  apply (simp add: interaction_eval py_eval)
  done

text \<open>When a click removes the button, click_all raises
  StaleElementReferenceException: its next search runs inside the removed button.\<close>

theorem click_all_hiding_stale:
  "click_all demo_env_hiding (CssSelector ''button'') None demo_browser
     = Some (Inl StaleElementReferenceException,
             demo_browser\<lparr>document := remove_element 2 demo_buttons_page, events := [Click 2, ClickWait]\<rparr>)"
  apply (subst click_all.simps)
  apply (simp add: interaction_eval py_eval)
  apply (subst click_all.simps)
  apply (simp add: interaction_eval py_eval)
  done

text \<open>Get(url) on a page with a body returns normally, and on a page without one
  raises NoSuchElementException; an alert the page opens is dismissed at the cost of a
  second.\<close>

theorem helper_get_result:
  assumes "\<not> alert b" and "load env (urljoin env base url) = (d, a)"
  shows "helper_get env base url b =
           (if find_all env d (CssSelector ''body'') d \<noteq> [] then Inr () else Inl NoSuchElementException,
            b\<lparr>document := d, alert := False,
              events := events b @ Navigate (urljoin env base url) # (if a then [SleepSecond] else [])\<rparr>)"
proof -
  let ?b = "b\<lparr>document := d, alert := a, events := events b @ [Navigate (urljoin env base url)]\<rparr>"
  have nav: "helper_get env base url b = body_checks 20 env ?b"
    using assms by (simp add: helper_get_def navigate_def cmd_bind_def)
  show ?thesis
  proof (cases "find_all env d (CssSelector ''body'') d = []")
    case False
    then show ?thesis unfolding nav using body_checks_found[of env ?b 20] by (simp add: log_def)
  next
    case True
    show ?thesis
    proof (cases a)
      case False
      with True show ?thesis unfolding nav using body_checks_missing[of env ?b 19] by simp
    next
      case a: True
      have "body_checks 20 env ?b = body_checks (Suc (Suc 18)) env ?b" by simp
      also have "\<dots> = (Inl NoSuchElementException, log [SleepSecond] (?b\<lparr>alert := False\<rparr>))"
        using True a by (intro body_checks_alert_missing) simp_all
      finally show ?thesis unfolding nav using True a by (simp add: log_def)
    qed
  qed
qed

theorem helper_get_result_witness:
  "helper_get demo_env ''http://host/'' ''page'' demo_browser
     = (Inr (), demo_browser\<lparr>events := [Navigate ''http://host/page'']\<rparr>)"
proof -
  have l: "load demo_env (urljoin demo_env ''http://host/'' ''page'') = (demo_buttons_page, False)"
    by (simp add: demo_env_def)
  have "\<not> alert demo_browser" by (simp add: demo_browser_def)
  from helper_get_result[OF this l] show ?thesis by (simp add: interaction_eval py_eval)
qed

text \<open>C23: convert_to_relative_url undoes the joining of the base URL: a URL under the
  base loses the base and gets it back by concatenation, and any other URL is
  returned unchanged.\<close>

theorem convert_to_relative_url_roundtrip:
  "convert_to_relative_url base (base @ r) = r
   \<and> (py_startswith url base \<longrightarrow> base @ convert_to_relative_url base url = url)
   \<and> (\<not> py_startswith url base \<longrightarrow> convert_to_relative_url base url = url)"
  unfolding convert_to_relative_url_def py_startswith_def
  by (metis append_take_drop_id append_eq_conv_conj)

theorem convert_to_relative_url_roundtrip_witness:
  "convert_to_relative_url ''http://host/'' ''http://host/a/b'' = ''a/b''
   \<and> convert_to_relative_url ''http://host/'' ''https://other/x'' = ''https://other/x''"
  using convert_to_relative_url_roundtrip[of "''http://host/''" "''a/b''" "''https://other/x''"]
  by (simp add: py_startswith_def)

text \<open>ClickAction.do on a page where the selector finds an element and the click
  goes through clicks it once, waits click_wait_time, and returns.\<close>

theorem click_action_do_clicks:
  assumes "\<not> alert b" and "find_all env (document b) sel (document b) = e # es"
    and "lookup (document b) (node_eid e) \<noteq> None" and "on_click env (node_eid e) (document b) = Inr d"
  shows "action_do (ClickAction_do env sel) b
           = (Inr (), b\<lparr>document := d, events := events b @ [Click (node_eid e), ClickWait]\<rparr>)"
  using assms
  by (auto simp: action_do_def ClickAction_do_def click_element_def cmd_bind_def cmd_return_def
      helper_get_element_def get_element_def element_click_def element_command_def log_def)

theorem click_action_do_clicks_witness:
  "action_do (ClickAction_do demo_env (CssSelector ''button'')) demo_browser
     = (Inr (), demo_browser\<lparr>events := [Click 2, ClickWait]\<rparr>)"
proof -
  have f: "find_all demo_env (document demo_browser) (CssSelector ''button'') (document demo_browser)
             = [demo_button 2, demo_button 3]"
    by (simp add: interaction_eval py_eval)
  have "lookup (document demo_browser) (node_eid (demo_button 2)) \<noteq> None"
    by (simp add: interaction_eval py_eval)
  moreover have "on_click demo_env (node_eid (demo_button 2)) (document demo_browser) = Inr (document demo_browser)"
    by (simp add: demo_env_def)
  moreover have "\<not> alert demo_browser" by (simp add: demo_browser_def)
  ultimately show ?thesis
    using click_action_do_clicks[OF _ f] by (simp add: demo_browser_def demo_button_def node_eid_def)
qed

text \<open>A SelectAction whose item is missing clicks the dropdown again on every
  attempt: four clicks on it, then NoSuchElementException.\<close>

theorem select_action_do_reclicks:
  "action_do (SelectAction_do demo_env (CssSelector ''button'') (CssSelector ''option'')) demo_browser
     = (Inl NoSuchElementException,
        demo_browser\<lparr>events := [Click 2, ClickWait, SleepSecond, Retrying, Click 2, ClickWait, SleepSecond, Retrying,
                                 Click 2, ClickWait, SleepSecond, Retrying, Click 2, ClickWait]\<rparr>)"
  by (simp add: action_do_def SelectAction_do_def interaction_eval py_eval)

end
