(* ===== verification/Session.thy ===== *)
theory Session
  imports Version
begin

text \<open>
  How a browser session is configured (src/lbrc_selenium/selenium.py): \<open>get_selenium\<close>
  reads the process environment, \<open>get_selenium_grid_helper\<close> builds a remote driver
  and \<open>get_selenium_local_helper\<close> a local Firefox, and \<open>SeleniumHelper.close\<close>
  ends the session. The environment is an association list of strings. Python's
  \<open>float()\<close> is a parameter \<open>to_float\<close> (it raises \<open>ValueError\<close> on text that is not
  a number) and the numeric defaults are given by \<open>of_num\<close>, so the model is generic
  in the type of the timing values. What the model returns is the configuration the
  code hands to Selenium: which driver with which options, whether \<open>close\<close> quits,
  and the keyword arguments of the helper. Starting the browser, the directories and
  the Firefox profile file are I/O and are not modelled, apart from the download
  directory the profile is given.
\<close>

record 't session_args =
  download_directory :: string
  output_directory :: string
  base_url :: string
  click_wait_time :: 't
  download_wait_time :: 't
  page_wait_time :: 't
  email_address :: string
  compare_version :: string
  version :: string

text \<open>The driver a helper gets: \<open>webdriver.Remote\<close> with its command executor URL,
  or \<open>webdriver.Firefox\<close> with the headless flag, the implicit wait and the download
  directory of its profile.\<close>

datatype 't webdriver = RemoteDriver string | FirefoxDriver bool 't string

record 't session =
  web_driver :: "'t webdriver"
  quitter :: bool
  helper_args :: "'t session_args"

section \<open>Reading the environment\<close>

text \<open>\<open>os.environ.get(key, default)\<close> of a string.\<close>

definition env_get :: "(string, string) pydict \<Rightarrow> string \<Rightarrow> string \<Rightarrow> string" where
  "env_get env k d = (case map_of env k of None \<Rightarrow> d | Some v \<Rightarrow> v)"

text \<open>\<open>float(os.environ.get(key, n))\<close>: the number \<open>n\<close> when the variable is unset.\<close>

definition env_float ::
  "(string \<Rightarrow> 't py_result) \<Rightarrow> (nat \<Rightarrow> 't) \<Rightarrow> (string, string) pydict \<Rightarrow> string \<Rightarrow> nat \<Rightarrow> 't py_result" where
  "env_float to_float of_num env k n = (case map_of env k of None \<Rightarrow> Inr (of_num n) | Some v \<Rightarrow> to_float v)"

text \<open>The truth value of \<open>os.environ.get(key, None)\<close> (or of \<open>False\<close> as default):
  set and not empty. Any non-empty text is true, \<open>'false'\<close> and \<open>'0'\<close> included.\<close>

definition env_truthy :: "(string, string) pydict \<Rightarrow> string \<Rightarrow> bool" where
  "env_truthy env k \<longleftrightarrow> (case map_of env k of None \<Rightarrow> False | Some v \<Rightarrow> v \<noteq> [])"

section \<open>The factories\<close>

text \<open>\<open>get_selenium_grid_helper\<close>: a remote driver at
  \<open>http://{selenium_host}:{selenium_port}/wd/hub\<close>, and \<open>quitter=True\<close>. The
  argument \<open>implicit_wait_time\<close> is taken and never used.\<close>

definition get_selenium_grid_helper :: "string \<Rightarrow> string \<Rightarrow> 't \<Rightarrow> 't session_args \<Rightarrow> 't session" where
  "get_selenium_grid_helper selenium_host selenium_port implicit_wait_time args =
     \<lparr>web_driver = RemoteDriver (''http://'' @ selenium_host @ '':'' @ selenium_port @ ''/wd/hub''),
      quitter = True, helper_args = args\<rparr>"

text \<open>\<open>get_selenium_local_helper\<close>: Firefox, headless when the argument is true,
  with \<open>implicitly_wait(implicit_wait_time)\<close>; \<open>quitter\<close> keeps its default
  \<open>False\<close>.\<close>

definition get_selenium_local_helper :: "bool \<Rightarrow> 't \<Rightarrow> 't session_args \<Rightarrow> 't session" where
  "get_selenium_local_helper headless implicit_wait_time args =
     \<lparr>web_driver = FirefoxDriver headless implicit_wait_time (download_directory args),
      quitter = False, helper_args = args\<rparr>"

text \<open>
  \<open>get_selenium()\<close>: the keyword arguments of \<open>dict(...)\<close> are evaluated in order, so
  the first missing required variable raises \<open>KeyError\<close> and the first timing that
  does not parse raises \<open>ValueError\<close>; then \<open>SELENIUM_HOST\<close> chooses the factory.
\<close>

definition get_selenium ::
  "(string \<Rightarrow> 't py_result) \<Rightarrow> (nat \<Rightarrow> 't) \<Rightarrow> (string, string) pydict \<Rightarrow> 't session py_result" where
  "get_selenium to_float of_num env =
     py_bind (dict_get env ''DOWNLOAD_DIRECTORY'') (\<lambda>dd.
     py_bind (dict_get env ''OUTPUT_DIRECTORY'') (\<lambda>od.
     py_bind (env_float to_float of_num env ''IMPLICIT_WAIT_TIME'' 1) (\<lambda>iw.
     py_bind (env_float to_float of_num env ''CLICK_WAIT_TIME'' 1) (\<lambda>cw.
     py_bind (env_float to_float of_num env ''DOWNLOAD_WAIT_TIME'' 60) (\<lambda>dw.
     py_bind (env_float to_float of_num env ''PAGE_WAIT_TIME'' 5) (\<lambda>pw.
     py_bind (dict_get env ''EMAIL_ADDRESS'') (\<lambda>em.
       let args = \<lparr>download_directory = dd, output_directory = od, base_url = env_get env ''BASE_URL'' [],
                   click_wait_time = cw, download_wait_time = dw, page_wait_time = pw, email_address = em,
                   compare_version = env_get env ''COMPARE_VERSION'' ''0.0'', version = env_get env ''VERSION'' ''0.0''\<rparr>
       in if env_truthy env ''SELENIUM_HOST''
          then py_bind (dict_get env ''SELENIUM_HOST'') (\<lambda>host.
                 Inr (get_selenium_grid_helper host (env_get env ''SELENIUM_PORT'' ''4444'') iw args))
          else Inr (get_selenium_local_helper (env_truthy env ''SELENIUM_HEADLESS'') iw args))))))))"

text \<open>\<open>SeleniumHelper.close()\<close>: \<open>driver.quit()\<close> when \<open>quitter\<close>, else
  \<open>driver.close()\<close>.\<close>

datatype close_call = DriverQuit | DriverClose

definition helper_close :: "'t session \<Rightarrow> close_call" where
  "helper_close s = (if quitter s then DriverQuit else DriverClose)"

section \<open>A sample environment\<close>

text \<open>\<open>float()\<close> on decimal text, and the environment of a local run that sets
  \<open>SELENIUM_HEADLESS=false\<close>.\<close>

definition demo_float :: "string \<Rightarrow> string py_result" where
  "demo_float s = (if s \<noteq> [] \<and> list_all (\<lambda>c. c \<in> set ''0123456789.'') s then Inr s else Inl ValueError)"

definition demo_environ :: "(string, string) pydict" where
  "demo_environ = [(''DOWNLOAD_DIRECTORY'', ''/tmp/d''), (''OUTPUT_DIRECTORY'', ''/tmp/o''),
     (''EMAIL_ADDRESS'', ''me@host''), (''SELENIUM_HEADLESS'', ''false'')]"

declare env_get_def [py_eval] env_float_def [py_eval] env_truthy_def [py_eval] get_selenium_def [py_eval]
  get_selenium_grid_helper_def [py_eval] get_selenium_local_helper_def [py_eval] demo_float_def [py_eval]
  demo_environ_def [py_eval]

section \<open>Properties of the configuration\<close>

lemma env_float_Inr_iff:
  "(\<exists>x. env_float to_float of_num env k n = Inr x) \<longleftrightarrow>
     (case map_of env k of None \<Rightarrow> True | Some v \<Rightarrow> (\<exists>x. to_float v = Inr x))"
  by (simp add: env_float_def split: option.splits)

lemma env_float_InrD:
  "env_float to_float of_num env k n = Inr x \<Longrightarrow>
     (case map_of env k of None \<Rightarrow> True | Some v \<Rightarrow> (\<exists>x. to_float v = Inr x))"
  by (auto simp: env_float_def split: option.splits)

lemma get_selenium_Inr:
  assumes "get_selenium to_float of_num env = Inr s"
  shows "\<exists>iw args. (if env_truthy env ''SELENIUM_HOST''
            then s = get_selenium_grid_helper (the (map_of env ''SELENIUM_HOST'')) (env_get env ''SELENIUM_PORT'' ''4444'') iw args
            else s = get_selenium_local_helper (env_truthy env ''SELENIUM_HEADLESS'') iw args)"
proof (cases "env_truthy env ''SELENIUM_HOST''")
  case True
  then obtain h where h: "map_of env ''SELENIUM_HOST'' = Some h"
    by (auto simp: env_truthy_def split: option.splits)
  from assms True h show ?thesis
    unfolding get_selenium_def Let_def by (auto simp: dict_get_def py_bind_Inr_iff split: option.splits)
next
  case False
  from assms False show ?thesis
    unfolding get_selenium_def Let_def by (auto simp: dict_get_def py_bind_Inr_iff split: option.splits)
qed

lemma get_selenium_args:
  assumes "get_selenium to_float of_num env = Inr s"
  shows "map_of env ''DOWNLOAD_DIRECTORY'' = Some (download_directory (helper_args s))
         \<and> map_of env ''OUTPUT_DIRECTORY'' = Some (output_directory (helper_args s))
         \<and> version (helper_args s) = env_get env ''VERSION'' ''0.0''"
  using assms unfolding get_selenium_def Let_def
  by (auto simp: dict_get_def py_bind_Inr_iff get_selenium_grid_helper_def get_selenium_local_helper_def
      split: option.splits if_splits)

text \<open>C24: a local session is headless whenever SELENIUM_HEADLESS is set to a non-empty
  text, \<open>false\<close> or \<open>0\<close> included: the variable's text is used as a truth value.\<close>

theorem get_selenium_headless_text:
  assumes "get_selenium to_float of_num env = Inr s" and "\<not> env_truthy env ''SELENIUM_HOST''"
  shows "\<exists>iw. web_driver s = FirefoxDriver (env_truthy env ''SELENIUM_HEADLESS'') iw (download_directory (helper_args s))
             \<and> \<not> quitter s"
  using get_selenium_Inr[OF assms(1)] assms(2) by (auto simp: get_selenium_local_helper_def)

theorem get_selenium_headless_text_witness:
  "get_selenium demo_float (\<lambda>n. nat_str n) demo_environ
     = Inr \<lparr>web_driver = FirefoxDriver True ''1'' ''/tmp/d'', quitter = False,
            helper_args = \<lparr>download_directory = ''/tmp/d'', output_directory = ''/tmp/o'', base_url = [],
              click_wait_time = ''1'', download_wait_time = ''60'', page_wait_time = ''5'', email_address = ''me@host'',
              compare_version = ''0.0'', version = ''0.0''\<rparr>\<rparr>
   \<and> env_truthy demo_environ ''SELENIUM_HEADLESS''"
proof -
  have g: "get_selenium demo_float (\<lambda>n. nat_str n) demo_environ
     = Inr \<lparr>web_driver = FirefoxDriver True ''1'' ''/tmp/d'', quitter = False,
            helper_args = \<lparr>download_directory = ''/tmp/d'', output_directory = ''/tmp/o'', base_url = [],
              click_wait_time = ''1'', download_wait_time = ''60'', page_wait_time = ''5'', email_address = ''me@host'',
              compare_version = ''0.0'', version = ''0.0''\<rparr>\<rparr>"
    by (simp add: py_eval dict_get_def)
  have "\<not> env_truthy demo_environ ''SELENIUM_HOST''" by (simp add: py_eval)
  from get_selenium_headless_text[OF g this] g show ?thesis by simp
qed

text \<open>A grid session drives a remote browser at
  \<open>http://SELENIUM_HOST:SELENIUM_PORT/wd/hub\<close> (port 4444 by default), quits on close,
  and gets no implicit wait: IMPLICIT_WAIT_TIME is read and then ignored.\<close>

theorem get_selenium_grid:
  assumes "get_selenium to_float of_num env = Inr s" and "env_truthy env ''SELENIUM_HOST''"
  shows "web_driver s = RemoteDriver (''http://'' @ the (map_of env ''SELENIUM_HOST'') @ '':''
                                     @ env_get env ''SELENIUM_PORT'' ''4444'' @ ''/wd/hub'')
         \<and> helper_close s = DriverQuit"
  using get_selenium_Inr[OF assms(1)] assms(2)
  by (auto simp: get_selenium_grid_helper_def helper_close_def)

theorem get_selenium_grid_witness:
  "get_selenium demo_float (\<lambda>n. nat_str n) ((''SELENIUM_HOST'', ''grid'') # demo_environ)
     = Inr \<lparr>web_driver = RemoteDriver ''http://grid:4444/wd/hub'', quitter = True,
            helper_args = \<lparr>download_directory = ''/tmp/d'', output_directory = ''/tmp/o'', base_url = [],
              click_wait_time = ''1'', download_wait_time = ''60'', page_wait_time = ''5'', email_address = ''me@host'',
              compare_version = ''0.0'', version = ''0.0''\<rparr>\<rparr>
   \<and> helper_close \<lparr>web_driver = RemoteDriver ''http://grid:4444/wd/hub'', quitter = True,
            helper_args = \<lparr>download_directory = ''/tmp/d'', output_directory = ''/tmp/o'', base_url = [],
              click_wait_time = ''1'', download_wait_time = ''60'', page_wait_time = ''5'', email_address = ''me@host'',
              compare_version = ''0.0'', version = ''0.0''\<rparr>\<rparr> = DriverQuit"
proof -
  have g: "get_selenium demo_float (\<lambda>n. nat_str n) ((''SELENIUM_HOST'', ''grid'') # demo_environ)
     = Inr \<lparr>web_driver = RemoteDriver ''http://grid:4444/wd/hub'', quitter = True,
            helper_args = \<lparr>download_directory = ''/tmp/d'', output_directory = ''/tmp/o'', base_url = [],
              click_wait_time = ''1'', download_wait_time = ''60'', page_wait_time = ''5'', email_address = ''me@host'',
              compare_version = ''0.0'', version = ''0.0''\<rparr>\<rparr>"
    by (simp add: py_eval dict_get_def)
  have "env_truthy ((''SELENIUM_HOST'', ''grid'') # demo_environ) ''SELENIUM_HOST''" by (simp add: py_eval)
  from get_selenium_grid[OF g this] g show ?thesis by (simp add: helper_close_def)
qed

text \<open>C25: get_selenium succeeds exactly when DOWNLOAD_DIRECTORY, OUTPUT_DIRECTORY and
  EMAIL_ADDRESS are set and every timing variable that is set parses as a number;
  otherwise it raises KeyError or ValueError.\<close>

theorem get_selenium_succeeds_iff:
  "(\<exists>s. get_selenium to_float of_num env = Inr s) \<longleftrightarrow>
     list_all (\<lambda>k. map_of env k \<noteq> None) [''DOWNLOAD_DIRECTORY'', ''OUTPUT_DIRECTORY'', ''EMAIL_ADDRESS'']
     \<and> list_all (\<lambda>k. case map_of env k of None \<Rightarrow> True | Some v \<Rightarrow> (\<exists>x. to_float v = Inr x))
         [''IMPLICIT_WAIT_TIME'', ''CLICK_WAIT_TIME'', ''DOWNLOAD_WAIT_TIME'', ''PAGE_WAIT_TIME'']"
  (is "?L \<longleftrightarrow> ?R")
proof
  assume ?L
  then obtain s where "get_selenium to_float of_num env = Inr s" by blast
  then obtain dd od iw cw dw pw em where
    "dict_get env ''DOWNLOAD_DIRECTORY'' = Inr dd" "dict_get env ''OUTPUT_DIRECTORY'' = Inr od"
    "env_float to_float of_num env ''IMPLICIT_WAIT_TIME'' 1 = Inr iw"
    "env_float to_float of_num env ''CLICK_WAIT_TIME'' 1 = Inr cw"
    "env_float to_float of_num env ''DOWNLOAD_WAIT_TIME'' 60 = Inr dw"
    "env_float to_float of_num env ''PAGE_WAIT_TIME'' 5 = Inr pw"
    "dict_get env ''EMAIL_ADDRESS'' = Inr em"
    unfolding get_selenium_def by (auto simp: py_bind_Inr_iff)
  then show ?R by (auto dest!: env_float_InrD)
next
  assume r: ?R
  obtain dd od em where dd: "dict_get env ''DOWNLOAD_DIRECTORY'' = Inr dd"
    and od: "dict_get env ''OUTPUT_DIRECTORY'' = Inr od" and em: "dict_get env ''EMAIL_ADDRESS'' = Inr em"
    using r by (auto simp: dict_get_def)
  have "\<exists>iw. env_float to_float of_num env ''IMPLICIT_WAIT_TIME'' 1 = Inr iw"
    "\<exists>cw. env_float to_float of_num env ''CLICK_WAIT_TIME'' 1 = Inr cw"
    "\<exists>dw. env_float to_float of_num env ''DOWNLOAD_WAIT_TIME'' 60 = Inr dw"
    "\<exists>pw. env_float to_float of_num env ''PAGE_WAIT_TIME'' 5 = Inr pw"
    using r by (simp_all add: env_float_Inr_iff)
  then obtain iw cw dw pw where iw: "env_float to_float of_num env ''IMPLICIT_WAIT_TIME'' 1 = Inr iw"
    and cw: "env_float to_float of_num env ''CLICK_WAIT_TIME'' 1 = Inr cw"
    and dw: "env_float to_float of_num env ''DOWNLOAD_WAIT_TIME'' 60 = Inr dw"
    and pw: "env_float to_float of_num env ''PAGE_WAIT_TIME'' 5 = Inr pw"
    by blast
  have host: "env_truthy env ''SELENIUM_HOST'' \<longrightarrow> (\<exists>h. dict_get env ''SELENIUM_HOST'' = Inr h)"
    by (auto simp: env_truthy_def dict_get_def split: option.splits)
  show ?L
    unfolding get_selenium_def Let_def dd od iw cw dw pw em py_bind.simps
    using host by (cases "env_truthy env ''SELENIUM_HOST''") auto
qed

end
