(* ===== verification/Waits.thy ===== *)
theory Waits
  imports Interaction
begin

text \<open>
  \<open>SeleniumHelper.wait_to_appear\<close> and \<open>wait_to_disappear\<close>
  (src/lbrc_selenium/selenium.py) hand a query to Selenium's \<open>WebDriverWait\<close>, whose
  \<open>until\<close> and \<open>until_not\<close> poll it every half second (\<open>POLL_FREQUENCY\<close>) until it
  holds or the timeout has passed, ignoring \<open>NoSuchElementException\<close> and letting
  every other exception through. Between two polls the page changes by itself
  (scripts, late loading): the interface \<open>tick\<close> gives the document at the next poll.
  Time is counted in milliseconds from the moment \<open>end_time\<close> is computed.
  \<open>time.sleep(0.5)\<close> sleeps at least half a second, so the iteration \<open>j\<close> (its
  query and its sleep) lasts \<open>500 + over j\<close> milliseconds, where the interface
  \<open>over\<close> is the rest: the time the query takes (the implicit wait of a local
  driver included) and the overshoot of the sleep. \<open>elapsed over j\<close> is then the
  reading of the clock after the \<open>j\<close>-th sleep, and the loop stops after the first
  sleep whose reading exceeds the timeout. Every iteration advances the clock by half a
  second at least, which is what makes the loop terminate.
\<close>

section \<open>The clock of WebDriverWait\<close>

text \<open>\<open>POLL_FREQUENCY = 0.5\<close>, in milliseconds.\<close>

definition poll_frequency :: nat where
  "poll_frequency = 500"

definition elapsed :: "(nat \<Rightarrow> nat) \<Rightarrow> nat \<Rightarrow> nat" where
  "elapsed over j = poll_frequency * j + sum_list (map over [0..<j])"

definition pause :: "(node \<Rightarrow> node) \<Rightarrow> browser \<Rightarrow> browser" where
  "pause tick b = b\<lparr>document := tick (document b), events := events b @ [SleepPoll]\<rparr>"

section \<open>The polling loops of WebDriverWait\<close>

text \<open>
  \<^verbatim>\<open>
  def until(self, method):
      end_time = time.time() + self._timeout
      while True:
          try:
              value = method(self._driver)
              if value:
                  return value
          except self._ignored_exceptions:
              pass
          time.sleep(self._poll)
          if time.time() > end_time:
              break
      raise TimeoutException()
  \<close>
  \<open>limit\<close> is the timeout in milliseconds and \<open>j\<close> the number of sleeps so far.
  The query is \<open>(element or self.driver).find_element(by, query)\<close>, which is
  \<open>helper_get_element\<close> with \<open>allow_null\<close> false; it never returns \<open>None\<close>, which
  would be a false value and poll again.
\<close>

function wait_until ::
  "driver_env \<Rightarrow> (node \<Rightarrow> node) \<Rightarrow> (nat \<Rightarrow> nat) \<Rightarrow> selector \<Rightarrow> nat option \<Rightarrow> nat \<Rightarrow> nat \<Rightarrow> node command" where
  "wait_until env tick over sel scope limit j b =
     (case helper_get_element env sel False scope b of
        (Inr (Some e), b') \<Rightarrow> (Inr e, b')
      | (Inl e, b') \<Rightarrow>
          if e \<noteq> NoSuchElementException then (Inl e, b')
          else if limit < elapsed over (Suc j) then (Inl TimeoutException, pause tick b')
          else wait_until env tick over sel scope limit (Suc j) (pause tick b')
      | (Inr None, b') \<Rightarrow>
          if limit < elapsed over (Suc j) then (Inl TimeoutException, pause tick b')
          else wait_until env tick over sel scope limit (Suc j) (pause tick b'))"
  by pat_completeness auto

text \<open>
  \<^verbatim>\<open>
  def until_not(self, method):
      end_time = time.time() + self._timeout
      while True:
          try:
              value = method(self._driver)
              if not value:
                  return value
          except self._ignored_exceptions:
              return True
          time.sleep(self._poll)
          if time.time() > end_time:
              break
      raise TimeoutException()
  \<close>
\<close>

function wait_until_not ::
  "driver_env \<Rightarrow> (node \<Rightarrow> node) \<Rightarrow> (nat \<Rightarrow> nat) \<Rightarrow> selector \<Rightarrow> nat option \<Rightarrow> nat \<Rightarrow> nat \<Rightarrow> bool command" where
  "wait_until_not env tick over sel scope limit j b =
     (case helper_get_element env sel False scope b of
        (Inr (Some e), b') \<Rightarrow>
          if limit < elapsed over (Suc j) then (Inl TimeoutException, pause tick b')
          else wait_until_not env tick over sel scope limit (Suc j) (pause tick b')
      | (Inl e, b') \<Rightarrow> if e = NoSuchElementException then (Inr True, b') else (Inl e, b')
      | (Inr None, b') \<Rightarrow> (Inr False, b'))"
  by pat_completeness auto

section \<open>wait_to_appear and wait_to_disappear\<close>

text \<open>\<open>wait_to_appear(selector, element=None, seconds_to_wait=10)\<close>: the element found,
  or \<open>TimeoutException\<close>.\<close>

definition wait_to_appear ::
  "driver_env \<Rightarrow> (node \<Rightarrow> node) \<Rightarrow> (nat \<Rightarrow> nat) \<Rightarrow> selector \<Rightarrow> nat option \<Rightarrow> nat \<Rightarrow> node command" where
  "wait_to_appear env tick over sel element seconds_to_wait =
     wait_until env tick over sel element (1000 * seconds_to_wait) 0"

definition wait_to_disappear ::
  "driver_env \<Rightarrow> (node \<Rightarrow> node) \<Rightarrow> (nat \<Rightarrow> nat) \<Rightarrow> selector \<Rightarrow> nat option \<Rightarrow> nat \<Rightarrow> bool command" where
  "wait_to_disappear env tick over sel element seconds_to_wait =
     wait_until_not env tick over sel element (1000 * seconds_to_wait) 0"

section \<open>The polls\<close>

text \<open>The browser after \<open>j\<close> sleeps, and whether the query finds an element at the
  poll after \<open>j\<close> sleeps.\<close>

definition after_polls :: "(node \<Rightarrow> node) \<Rightarrow> nat \<Rightarrow> browser \<Rightarrow> browser" where
  "after_polls tick j b = b\<lparr>document := (tick ^^ j) (document b), events := events b @ replicate j SleepPoll\<rparr>"

definition poll_finds :: "driver_env \<Rightarrow> (node \<Rightarrow> node) \<Rightarrow> selector \<Rightarrow> node \<Rightarrow> nat \<Rightarrow> bool" where
  "poll_finds env tick sel d j = (find_all env ((tick ^^ j) d) sel ((tick ^^ j) d) \<noteq> [])"

section \<open>Sample pages\<close>

text \<open>The buttons page while it loads: a body and no buttons yet.\<close>

definition demo_loading_page :: node where
  "demo_loading_page = Node \<lparr>eid = 0, tag_name = [], visible_text = [], attributes = [], inner_html = []\<rparr>
     [Node \<lparr>eid = 1, tag_name = ''body'', visible_text = [], attributes = [], inner_html = []\<rparr> []]"

section \<open>The clock\<close>

lemma elapsed_0 [simp]: "elapsed over 0 = 0"
  by (simp add: elapsed_def)

lemma elapsed_Suc: "elapsed over (Suc j) = elapsed over j + poll_frequency + over j"
  by (simp add: elapsed_def)

lemma elapsed_mono: "i \<le> j \<Longrightarrow> elapsed over i \<le> elapsed over j"
proof (induction j)
  case (Suc j)
  then show ?case by (cases "i = Suc j") (auto simp: elapsed_Suc le_Suc_eq)
qed simp

lemma elapsed_lower: "(\<forall>i<j. m \<le> over i) \<Longrightarrow> (poll_frequency + m) * j \<le> elapsed over j"
  by (induction j) (auto simp: elapsed_Suc)

termination wait_until
  by (relation "measure (\<lambda>(env, tick, over, sel, scope, limit, j, b). Suc limit - elapsed over j)")
     (auto simp: elapsed_Suc poll_frequency_def)

termination wait_until_not
  by (relation "measure (\<lambda>(env, tick, over, sel, scope, limit, j, b). Suc limit - elapsed over j)")
     (auto simp: elapsed_Suc poll_frequency_def)

section \<open>Facts about the polls\<close>

lemma after_polls_0 [simp]: "after_polls tick 0 b = b"
  by (simp add: after_polls_def)

lemma after_polls_Suc: "after_polls tick (Suc j) b = after_polls tick j (pause tick b)"
  by (simp add: after_polls_def pause_def funpow_swap1 replicate_append_same[symmetric])

lemma alert_pause [simp]: "alert (pause tick b) = alert b"
  by (simp add: pause_def)

lemma document_pause [simp]: "document (pause tick b) = tick (document b)"
  by (simp add: pause_def)

lemma poll_finds_Suc: "poll_finds env tick sel d (Suc j) = poll_finds env tick sel (tick d) j"
  by (simp add: poll_finds_def funpow_swap1)

lemma helper_get_element_top:
  "\<not> alert b \<Longrightarrow> helper_get_element env sel False None b =
     (case find_all env (document b) sel (document b) of [] \<Rightarrow> Inl NoSuchElementException | e # _ \<Rightarrow> Inr (Some e), b)"
  by (simp add: helper_get_element_def get_element_def)

declare wait_until.simps [simp del] wait_until_not.simps [simp del]

text \<open>One poll of each loop over the whole document.\<close>

lemma wait_until_step:
  assumes "\<not> alert b"
  shows "wait_until env tick over sel None limit j b =
     (case find_all env (document b) sel (document b) of
        e # _ \<Rightarrow> (Inr e, b)
      | [] \<Rightarrow> if limit < elapsed over (Suc j) then (Inl TimeoutException, pause tick b)
              else wait_until env tick over sel None limit (Suc j) (pause tick b))"
  using assms by (subst wait_until.simps) (simp add: helper_get_element_top split: list.split)

lemma wait_until_not_step:
  assumes "\<not> alert b"
  shows "wait_until_not env tick over sel None limit j b =
     (case find_all env (document b) sel (document b) of
        [] \<Rightarrow> (Inr True, b)
      | _ # _ \<Rightarrow> if limit < elapsed over (Suc j) then (Inl TimeoutException, pause tick b)
              else wait_until_not env tick over sel None limit (Suc j) (pause tick b))"
  using assms by (subst wait_until_not.simps) (simp add: helper_get_element_top split: list.split)

lemma wait_until_error:
  assumes "helper_get_element env sel False scope b = (Inl e, b')" and "e \<noteq> NoSuchElementException"
  shows "wait_until env tick over sel scope limit j b = (Inl e, b')"
    and "wait_until_not env tick over sel scope limit j b = (Inl e, b')"
  using assms by (subst wait_until.simps wait_until_not.simps, simp)+

text \<open>The loop of \<open>until\<close> returns at the first poll that finds an element, when
  that poll is made before the deadline.\<close>

lemma wait_until_found:
  assumes "\<not> alert b" and "elapsed over (j + k) \<le> limit" and "poll_finds env tick sel (document b) k"
  shows "\<exists>i\<le>k. poll_finds env tick sel (document b) i \<and> (\<forall>i'<i. \<not> poll_finds env tick sel (document b) i')
           \<and> wait_until env tick over sel None limit j b
               = (Inr (hd (find_all env ((tick ^^ i) (document b)) sel ((tick ^^ i) (document b)))), after_polls tick i b)"
  using assms
proof (induction k arbitrary: j b)
  case 0
  then show ?case
    by (auto simp: poll_finds_def wait_until_step neq_Nil_conv)
next
  case (Suc k)
  show ?case
  proof (cases "find_all env (document b) sel (document b)")
    case (Cons e es)
    with Suc.prems(1) show ?thesis by (intro exI [of _ 0]) (simp add: wait_until_step poll_finds_def)
  next
    case Nil
    have "elapsed over (Suc j) \<le> elapsed over (j + Suc k)" by (rule elapsed_mono) simp
    with Suc.prems(2) have in_time: "\<not> limit < elapsed over (Suc j)" by simp
    have "elapsed over (Suc j + k) \<le> limit" using Suc.prems(2) by simp
    moreover have "poll_finds env tick sel (document (pause tick b)) k"
      using Suc.prems(3) by (simp add: poll_finds_Suc)
    ultimately obtain i where i: "i \<le> k" "poll_finds env tick sel (document (pause tick b)) i"
        "\<forall>i'<i. \<not> poll_finds env tick sel (document (pause tick b)) i'"
        "wait_until env tick over sel None limit (Suc j) (pause tick b)
           = (Inr (hd (find_all env ((tick ^^ i) (document (pause tick b))) sel ((tick ^^ i) (document (pause tick b))))),
              after_polls tick i (pause tick b))"
      using Suc.IH Suc.prems(1) by (metis alert_pause)
    have none0: "\<not> poll_finds env tick sel (document b) 0" using Nil by (simp add: poll_finds_def)
    have before: "\<forall>i'<Suc i. \<not> poll_finds env tick sel (document b) i'"
    proof (intro allI impI)
      fix i' assume "i' < Suc i"
      then show "\<not> poll_finds env tick sel (document b) i'"
        using none0 i(3) by (cases i') (simp_all add: poll_finds_Suc)
    qed
    show ?thesis
      using i(1,2,4) before Nil in_time Suc.prems(1)
      by (intro exI [of _ "Suc i"]) (simp add: wait_until_step poll_finds_Suc after_polls_Suc funpow_swap1)
  qed
qed

text \<open>When no poll before the deadline finds an element, the loop of \<open>until\<close> sleeps
  until the first reading past the deadline and raises \<open>TimeoutException\<close>.\<close>

lemma wait_until_timeout:
  assumes "\<not> alert b" and "elapsed over j \<le> limit"
    and "\<forall>i. elapsed over (j + i) \<le> limit \<longrightarrow> \<not> poll_finds env tick sel (document b) i"
  shows "\<exists>n>0. wait_until env tick over sel None limit j b = (Inl TimeoutException, after_polls tick n b)
           \<and> limit < elapsed over (j + n) \<and> (\<forall>i<n. elapsed over (j + i) \<le> limit)"
  using assms
proof (induction "Suc limit - elapsed over j" arbitrary: j b rule: less_induct)
  case less
  have Nil: "find_all env (document b) sel (document b) = []"
    using less.prems(2,3) by (auto simp: poll_finds_def dest: spec [of _ 0])
  show ?case
  proof (cases "limit < elapsed over (Suc j)")
    case True
    with Nil less.prems(1,2) show ?thesis
      by (intro exI [of _ 1]) (simp add: wait_until_step after_polls_Suc)
  next
    case False
    then have in_time: "elapsed over (Suc j) \<le> limit" by simp
    have dec: "Suc limit - elapsed over (Suc j) < Suc limit - elapsed over j"
      using in_time by (simp add: elapsed_Suc poll_frequency_def)
    have "\<forall>i. elapsed over (Suc j + i) \<le> limit \<longrightarrow> \<not> poll_finds env tick sel (document (pause tick b)) i"
      using less.prems(3) by (auto simp: poll_finds_Suc [symmetric] dest: spec [of _ "Suc _"])
    then obtain n where n: "n > 0"
        "wait_until env tick over sel None limit (Suc j) (pause tick b) = (Inl TimeoutException, after_polls tick n (pause tick b))"
        "limit < elapsed over (Suc j + n)" "\<forall>i<n. elapsed over (Suc j + i) \<le> limit"
      using less.hyps [OF dec] less.prems(1) in_time by (metis alert_pause)
    have "\<forall>i<Suc n. elapsed over (j + i) \<le> limit"
    proof (intro allI impI)
      fix i assume "i < Suc n"
      then show "elapsed over (j + i) \<le> limit" using less.prems(2) n(4) by (cases i) simp_all
    qed
    with n(2,3) Nil False less.prems(1) show ?thesis
      by (intro exI [of _ "Suc n"]) (simp add: wait_until_step after_polls_Suc)
  qed
qed

text \<open>The loop of \<open>until_not\<close> returns True at the first poll that finds nothing,
  when that poll is made before the deadline.\<close>

lemma wait_until_not_found:
  assumes "\<not> alert b" and "elapsed over (j + k) \<le> limit" and "\<not> poll_finds env tick sel (document b) k"
  shows "\<exists>i\<le>k. wait_until_not env tick over sel None limit j b = (Inr True, after_polls tick i b)"
  using assms
proof (induction k arbitrary: j b)
  case 0
  then show ?case by (simp add: poll_finds_def wait_until_not_step)
next
  case (Suc k)
  show ?case
  proof (cases "find_all env (document b) sel (document b)")
    case Nil
    with Suc.prems(1) show ?thesis by (intro exI [of _ 0]) (simp add: wait_until_not_step)
  next
    case (Cons e es)
    have "elapsed over (Suc j) \<le> elapsed over (j + Suc k)" by (rule elapsed_mono) simp
    with Suc.prems(2) have in_time: "\<not> limit < elapsed over (Suc j)" by simp
    have "elapsed over (Suc j + k) \<le> limit" using Suc.prems(2) by simp
    moreover have "\<not> poll_finds env tick sel (document (pause tick b)) k"
      using Suc.prems(3) by (simp add: poll_finds_Suc)
    ultimately obtain i where "i \<le> k"
        "wait_until_not env tick over sel None limit (Suc j) (pause tick b) = (Inr True, after_polls tick i (pause tick b))"
      using Suc.IH Suc.prems(1) by (metis alert_pause)
    with Cons in_time Suc.prems(1) show ?thesis
      by (intro exI [of _ "Suc i"]) (simp add: wait_until_not_step after_polls_Suc)
  qed
qed

section \<open>Properties of the waits\<close>

text \<open>C13: wait_to_appear is live: when the query finds an element at the poll made
  after \<open>k\<close> sleeps, and the clock has not passed the timeout of \<open>s\<close> seconds at
  that poll, wait_to_appear returns an element found at the first poll that finds
  one, having slept no more than \<open>k\<close> times.\<close>

theorem wait_to_appear_live:
  assumes "\<not> alert b" and "elapsed over k \<le> 1000 * s"
    and "find_all env ((tick ^^ k) (document b)) sel ((tick ^^ k) (document b)) \<noteq> []"
  shows "\<exists>j\<le>k. find_all env ((tick ^^ j) (document b)) sel ((tick ^^ j) (document b)) \<noteq> []
           \<and> wait_to_appear env tick over sel None s b
               = (Inr (hd (find_all env ((tick ^^ j) (document b)) sel ((tick ^^ j) (document b)))), after_polls tick j b)"
  using wait_until_found [of b over 0 k "1000 * s" env tick sel] assms
  by (auto simp: wait_to_appear_def poll_finds_def)

text \<open>C18: when no poll made before the timeout finds an element, wait_to_appear
  raises TimeoutException after the first sleep that takes the clock past the timeout
  of \<open>s\<close> seconds. That is at most \<open>2 s + 1\<close> sleeps, since each lasts half a second
  at least, and at most \<open>2 s\<close> when every poll and sleep together take longer than
  half a second.\<close>

theorem wait_to_appear_timeout:
  assumes "\<not> alert b"
    and "\<forall>i. elapsed over i \<le> 1000 * s \<longrightarrow> find_all env ((tick ^^ i) (document b)) sel ((tick ^^ i) (document b)) = []"
  shows "\<exists>n. wait_to_appear env tick over sel None s b = (Inl TimeoutException, after_polls tick n b)
           \<and> 1000 * s < elapsed over n \<and> (\<forall>i<n. elapsed over i \<le> 1000 * s)
           \<and> n \<le> 2 * s + 1 \<and> (0 < s \<and> (\<forall>i. 0 < over i) \<longrightarrow> n \<le> 2 * s)"
proof -
  obtain n where n: "n > 0" "wait_to_appear env tick over sel None s b = (Inl TimeoutException, after_polls tick n b)"
      "1000 * s < elapsed over n" "\<forall>i<n. elapsed over i \<le> 1000 * s"
    using wait_until_timeout [of b over 0 "1000 * s" env tick sel] assms
    by (auto simp: wait_to_appear_def poll_finds_def)
  have "n \<le> 2 * s + 1"
  proof (rule ccontr)
    assume "\<not> n \<le> 2 * s + 1"
    then have "elapsed over (2 * s + 1) \<le> 1000 * s" using n(4) by simp
    moreover have "(poll_frequency + 0) * (2 * s + 1) \<le> elapsed over (2 * s + 1)" by (rule elapsed_lower) simp
    ultimately show False by (simp add: poll_frequency_def)
  qed
  moreover have "n \<le> 2 * s" if "0 < s" and pos: "\<forall>i. 0 < over i"
  proof (rule ccontr)
    assume "\<not> n \<le> 2 * s"
    then have "elapsed over (2 * s) \<le> 1000 * s" using n(4) by simp
    moreover have "(poll_frequency + 1) * (2 * s) \<le> elapsed over (2 * s)"
      by (rule elapsed_lower) (simp add: pos Suc_le_eq)
    ultimately show False using that(1) by (simp add: poll_frequency_def)
  qed
  ultimately show ?thesis using n by blast
qed


theorem wait_to_appear_live_witness:
  "\<exists>j\<le>1. find_all demo_env (((\<lambda>d. demo_buttons_page) ^^ j) demo_loading_page) (CssSelector ''button'')
                 (((\<lambda>d. demo_buttons_page) ^^ j) demo_loading_page) \<noteq> []
     \<and> wait_to_appear demo_env (\<lambda>d. demo_buttons_page) (\<lambda>j. 10) (CssSelector ''button'') None 1
           (demo_browser\<lparr>document := demo_loading_page\<rparr>)
         = (Inr (hd (find_all demo_env (((\<lambda>d. demo_buttons_page) ^^ j) demo_loading_page) (CssSelector ''button'')
                 (((\<lambda>d. demo_buttons_page) ^^ j) demo_loading_page))),
            after_polls (\<lambda>d. demo_buttons_page) j (demo_browser\<lparr>document := demo_loading_page\<rparr>))"
  using wait_to_appear_live [of "demo_browser\<lparr>document := demo_loading_page\<rparr>" "\<lambda>j. 10" 1 1 demo_env
      "\<lambda>d. demo_buttons_page" "CssSelector ''button''"]
  by (simp add: interaction_eval py_eval elapsed_def poll_frequency_def)

text \<open>With 10 ms of overhead per poll, a wait of one second polls twice and raises
  after its second sleep, the clock then reading 1020 ms.\<close>

theorem wait_to_appear_timeout_witness:
  "wait_to_appear demo_env id (\<lambda>j. 10) (CssSelector ''button'') None 1 (demo_browser\<lparr>document := demo_loading_page\<rparr>)
     = (Inl TimeoutException, after_polls id 2 (demo_browser\<lparr>document := demo_loading_page\<rparr>))"
proof -
  let ?b = "demo_browser\<lparr>document := demo_loading_page\<rparr>"
  have "\<not> alert ?b" by (simp add: demo_browser_def)
  moreover have "\<forall>i. elapsed (\<lambda>j. 10) i \<le> 1000 * 1 \<longrightarrow>
      find_all demo_env ((id ^^ i) (document ?b)) (CssSelector ''button'') ((id ^^ i) (document ?b)) = []"
    by (simp add: interaction_eval py_eval demo_loading_page_def)
  ultimately obtain n where n: "wait_to_appear demo_env id (\<lambda>j. 10) (CssSelector ''button'') None 1 ?b
        = (Inl TimeoutException, after_polls id n ?b)"
      "1000 * 1 < elapsed (\<lambda>j. 10) n" "n \<le> 2 * 1"
    using wait_to_appear_timeout [of ?b "\<lambda>j. 10" 1 demo_env id "CssSelector ''button''"] by auto
  have e1: "elapsed (\<lambda>j. 10::nat) 1 = 510" by (simp add: elapsed_def poll_frequency_def)
  have "n = 2"
  proof -
    have "n \<noteq> 0"
    proof
      assume "n = 0"
      with n(2) show False by simp
    qed
    moreover have "n \<noteq> 1" using n(2) e1 by auto
    ultimately show ?thesis using n(3) by simp
  qed
  with n(1) show ?thesis by simp
qed


end
