(* ===== verification/Files.thy ===== *)
theory Files
  imports Session Interaction
begin

text \<open>
  What \<open>SeleniumHelper\<close> does to the file system and the mail relay
  (src/lbrc_selenium/selenium.py): its constructor creates the download directory and
  empties it, and creates \<open>output_directory/version\<close>; \<open>_clear_directory\<close>,
  \<open>unzip_download_directory_contents\<close>, \<open>save_screenshot\<close> and
  \<open>email_screenshot\<close>. The file system is a store from paths to entries, a plain file
  with its content or a directory, as in the Unix model of the Isabelle distribution;
  \<open>pathlib\<close> and \<open>os\<close> calls are operations on it that return an exception or a
  value with the store they leave. Paths are lists of components: \<open>Path(s)\<close> splits at
  slashes and drops empty and \<open>.\<close> components, and an absolute path starts with the
  component \<open>/\<close>; the root \<open>/\<close> and the working directory \<open>[]\<close> are directories
  that are not entries of the store. \<open>..\<close> is kept as a name, as \<open>pathlib\<close> keeps
  it; the model does not resolve it, nor relative paths against the working
  directory, nor links.
\<close>

section \<open>Paths and the store\<close>

datatype entry = File string | Dir

type_synonym path = "string list"

type_synonym store = "(path, entry) pydict"

type_synonym 'a fs_op = "store \<Rightarrow> (py_error + 'a) \<times> store"

definition fs_bind :: "'a fs_op \<Rightarrow> ('a \<Rightarrow> 'b fs_op) \<Rightarrow> 'b fs_op" where
  "fs_bind m f fs = (case m fs of (Inl e, fs') \<Rightarrow> (Inl e, fs') | (Inr x, fs') \<Rightarrow> f x fs')"

text \<open>\<open>Path(s)\<close> and \<open>p / s\<close>; \<open>p.parent\<close>, which is \<open>p\<close> itself for \<open>/\<close> and
  \<open>.\<close>.\<close>

definition py_path :: "string \<Rightarrow> path" where
  "py_path s = (if take 1 s = ''/'' then [''/''] else []) @ filter (\<lambda>c. c \<noteq> [] \<and> c \<noteq> ''.'') (split_on CHR ''/'' s [])"

definition path_join :: "path \<Rightarrow> string \<Rightarrow> path" where
  "path_join p s = (if take 1 s = ''/'' then py_path s else p @ py_path s)"

definition path_parent :: "path \<Rightarrow> path" where
  "path_parent p = (if p = [''/''] then p else butlast p)"

definition is_root :: "path \<Rightarrow> bool" where
  "is_root p \<longleftrightarrow> p = [] \<or> p = [''/'']"

definition is_dir :: "store \<Rightarrow> path \<Rightarrow> bool" where
  "is_dir fs p \<longleftrightarrow> is_root p \<or> map_of fs p = Some Dir"

definition is_file :: "store \<Rightarrow> path \<Rightarrow> bool" where
  "is_file fs p \<longleftrightarrow> (case map_of fs p of Some (File _) \<Rightarrow> True | _ \<Rightarrow> False)"

text \<open>A store is well formed when its paths are distinct, no entry is a root, and the
  parent of every entry is a directory.\<close>

definition wf_store :: "store \<Rightarrow> bool" where
  "wf_store fs \<longleftrightarrow> distinct (map fst fs) \<and> list_all (\<lambda>(p, e). \<not> is_root p \<and> is_dir fs (path_parent p)) fs"

section \<open>Operations of os and pathlib\<close>

text \<open>\<open>os.mkdir(p)\<close>: \<open>FileExistsError\<close> when \<open>p\<close> exists, \<open>FileNotFoundError\<close>
  when its parent does not, \<open>NotADirectoryError\<close> when the parent is a file.\<close>

definition os_mkdir :: "path \<Rightarrow> unit fs_op" where
  "os_mkdir p fs =
     (if is_root p \<or> map_of fs p \<noteq> None then (Inl FileExistsError, fs)
      else if is_dir fs (path_parent p) then (Inr (), fs @ [(p, Dir)])
      else if map_of fs (path_parent p) = None then (Inl FileNotFoundError, fs)
      else (Inl NotADirectoryError, fs))"

text \<open>
  \<^verbatim>\<open>
  def mkdir(self, mode=0o777, parents=False, exist_ok=False):
      try:
          os.mkdir(self, mode)
      except FileNotFoundError:
          if not parents or self.parent == self:
              raise
          self.parent.mkdir(parents=True, exist_ok=True)
          self.mkdir(mode, parents=False, exist_ok=exist_ok)
      except OSError:
          if not exist_ok or not self.is_dir():
              raise
  \<close>
  \<open>mkdir_exist_ok\<close> is the inner call with \<open>parents=False, exist_ok=True\<close>, and
  \<open>mkdir_parents\<close> the call \<open>mkdir(parents=True, exist_ok=True)\<close> of the helper.
\<close>

definition mkdir_exist_ok :: "path \<Rightarrow> unit fs_op" where
  "mkdir_exist_ok p fs =
     (case os_mkdir p fs of
        (Inr u, fs') \<Rightarrow> (Inr u, fs')
      | (Inl e, fs') \<Rightarrow> if e \<noteq> FileNotFoundError \<and> is_dir fs' p then (Inr (), fs') else (Inl e, fs'))"

function mkdir_parents :: "path \<Rightarrow> unit fs_op" where
  "mkdir_parents p fs =
     (case os_mkdir p fs of
        (Inr u, fs') \<Rightarrow> (Inr u, fs')
      | (Inl e, fs') \<Rightarrow>
          if e = FileNotFoundError then
            (if path_parent p = p then (Inl e, fs')
             else fs_bind (mkdir_parents (path_parent p)) (\<lambda>_. mkdir_exist_ok p) fs')
          else if is_dir fs' p then (Inr (), fs') else (Inl e, fs'))"
  by pat_completeness auto
termination
proof (relation "measure (\<lambda>(p, fs). length p)", goal_cases)
  case 1
  show ?case by simp
next
  case (2 p fs x y a xa)
  then show ?case by (cases p) (auto simp: path_parent_def split: if_splits)
qed

text \<open>\<open>Path.iterdir()\<close>: the entries directly inside a directory, in the order of the
  store (\<open>os.listdir\<close> gives no order); the listing is taken once, before the loop
  that uses it changes anything.\<close>

definition iterdir :: "path \<Rightarrow> store \<Rightarrow> path list py_result" where
  "iterdir d fs =
     (if is_dir fs d then Inr (filter (\<lambda>p. p \<noteq> d \<and> path_parent p = d) (map fst fs))
      else if map_of fs d = None then Inl FileNotFoundError else Inl NotADirectoryError)"

text \<open>\<open>Path.unlink()\<close> removes a plain file; on a directory it raises
  \<open>IsADirectoryError\<close> (\<open>EISDIR\<close> on Linux).\<close>

definition unlink :: "path \<Rightarrow> unit fs_op" where
  "unlink p fs =
     (if is_dir fs p then (Inl IsADirectoryError, fs)
      else if map_of fs p = None then (Inl FileNotFoundError, fs)
      else (Inr (), filter (\<lambda>(q, _). q \<noteq> p) fs))"

text \<open>\<open>open(p, 'wb').write(data)\<close>.\<close>

definition open_write :: "path \<Rightarrow> string \<Rightarrow> unit fs_op" where
  "open_write p data fs =
     (if is_dir fs p then (Inl IsADirectoryError, fs)
      else if is_dir fs (path_parent p) then (Inr (), dict_set p (File data) fs)
      else if map_of fs (path_parent p) = None then (Inl FileNotFoundError, fs)
      else (Inl NotADirectoryError, fs))"

section \<open>The helper's file operations\<close>

text \<open>
  \<^verbatim>\<open>
  def _clear_directory(self, directory):
      for f in directory.iterdir():
          f.unlink()
  \<close>
\<close>

fun unlink_all :: "path list \<Rightarrow> unit fs_op" where
  "unlink_all [] fs = (Inr (), fs)"
| "unlink_all (p # ps) fs = fs_bind (unlink p) (\<lambda>_. unlink_all ps) fs"

definition clear_directory :: "path \<Rightarrow> unit fs_op" where
  "clear_directory d fs = (case iterdir d fs of Inl e \<Rightarrow> (Inl e, fs) | Inr ps \<Rightarrow> unlink_all ps fs)"

text \<open>
  The file system part of \<open>SeleniumHelper.__init__\<close>:
  \<^verbatim>\<open>
  self.download_directory = Path(download_directory)
  self.download_directory.mkdir(parents=True, exist_ok=True)
  self._clear_directory(self.download_directory)
  self.output_directory = Path(output_directory) / self.version
  self.output_directory.mkdir(parents=True, exist_ok=True)
  \<close>
\<close>

definition helper_init_files :: "string \<Rightarrow> string \<Rightarrow> string \<Rightarrow> unit fs_op" where
  "helper_init_files dl_dir out_dir ver =
     fs_bind (mkdir_parents (py_path dl_dir)) (\<lambda>_.
     fs_bind (clear_directory (py_path dl_dir)) (\<lambda>_.
     mkdir_parents (path_join (py_path out_dir) ver)))"

text \<open>\<open>get_selenium()\<close> ends with \<open>helper_class(driver=driver, ..., **kwargs)\<close>:
  the session it configures is a helper whose constructor runs the file operations
  above on its download and output directories.\<close>

definition get_selenium_helper ::
  "(string \<Rightarrow> 't py_result) \<Rightarrow> (nat \<Rightarrow> 't) \<Rightarrow> (string, string) pydict \<Rightarrow> store \<Rightarrow> ('t session py_result) \<times> store" where
  "get_selenium_helper to_float of_num env fs =
     (case get_selenium to_float of_num env of
        Inl e \<Rightarrow> (Inl e, fs)
      | Inr s \<Rightarrow>
          (case helper_init_files (download_directory (helper_args s)) (output_directory (helper_args s))
                  (version (helper_args s)) fs of
             (Inl e, fs') \<Rightarrow> (Inl e, fs')
           | (Inr _, fs') \<Rightarrow> (Inr s, fs')))"

text \<open>\<open>unzip_download_directory_contents\<close> reads \<open>self._download_directory\<close>, an
  attribute no method sets (the constructor sets \<open>self.download_directory\<close>): the
  lookup raises \<open>AttributeError\<close> before any file is read.\<close>

definition unzip_download_directory_contents :: "unit fs_op" where
  "unzip_download_directory_contents fs = (Inl AttributeError, fs)"

text \<open>\<open>save_screenshot(path)\<close> calls \<open>driver.save_screenshot(path)\<close>, which writes the
  PNG of the page and returns \<open>False\<close> when \<open>open\<close> raises an \<open>OSError\<close>
  (\<open>get_screenshot_as_file\<close>); the helper drops that result and returns \<open>None\<close>.\<close>

definition get_screenshot_as_file :: "string \<Rightarrow> string \<Rightarrow> store \<Rightarrow> bool \<times> store" where
  "get_screenshot_as_file filename png fs =
     (case open_write (py_path filename) png fs of (Inl _, fs') \<Rightarrow> (False, fs') | (Inr _, fs') \<Rightarrow> (True, fs'))"

definition save_screenshot :: "string \<Rightarrow> string \<Rightarrow> store \<Rightarrow> store" where
  "save_screenshot png path fs = snd (get_screenshot_as_file path png fs)"

section \<open>E-mail\<close>

text \<open>The message \<open>email_screenshot\<close> builds: subject, \<open>To\<close>, \<open>From\<close>, the text part,
  and the attachment with its content type, file name and payload (sent in base64,
  which the model does not spell out). Sending it appends it to the outbox of the
  relay it is handed to.\<close>

record mail =
  subject :: string
  mail_to :: string
  mail_from :: string
  mail_text :: string
  attachment :: "string \<times> string \<times> string"

definition screenshot_mail :: "string \<Rightarrow> string \<Rightarrow> string \<Rightarrow> mail" where
  "screenshot_mail addr url png =
     \<lparr>subject = ''Your Requested Screenshot from Selenium'', mail_to = addr, mail_from = addr,
      mail_text = ''Here is the screenshot that you requested of page '' @ url,
      attachment = (''image/png'', ''screenshot.png'', png)\<rparr>"

definition email_screenshot :: "string \<Rightarrow> string \<Rightarrow> string \<Rightarrow> (string \<times> mail) list \<Rightarrow> (string \<times> mail) list" where
  "email_screenshot addr url png outbox =
     outbox @ [(''smtp.xuhl-tr.nhs.uk'', screenshot_mail addr url png)]"


section \<open>Sample stores\<close>

text \<open>A local run with OUTPUT_DIRECTORY equal to DOWNLOAD_DIRECTORY: the first
  helper creates the output directory \<open>/tmp/d/0.0\<close> inside the download directory, and
  the next helper built on the same file system fails.\<close>

definition demo_run_store :: store where
  "demo_run_store = [([''/'', ''tmp''], Dir), ([''/'', ''tmp'', ''d''], Dir), ([''/'', ''tmp'', ''d'', ''0.0''], Dir)]"

text \<open>A download directory left with an old archive, and a helper for a run in
  \<open>/tmp/o\<close> at version 0.0.\<close>

definition demo_download_store :: store where
  "demo_download_store = [([''/'', ''tmp''], Dir), ([''/'', ''tmp'', ''d''], Dir),
     ([''/'', ''tmp'', ''d'', ''old.zip''], File ''PK''), ([''/'', ''tmp'', ''notes''], File ''keep'')]"

section \<open>Facts about the store\<close>

text \<open>No file lies on the way to a path: every prefix of it that exists is a
  directory.\<close>

definition no_file_on :: "store \<Rightarrow> path \<Rightarrow> bool" where
  "no_file_on fs p \<longleftrightarrow> list_all (\<lambda>i. \<not> is_file fs (take i p)) [0..<Suc (length p)]"

declare mkdir_parents.simps [simp del]

lemma no_file_on_iff: "no_file_on fs p \<longleftrightarrow> (\<forall>i \<le> length p. \<not> is_file fs (take i p))"
  by (auto simp: no_file_on_def list_all_iff less_Suc_eq_le simp del: upt_Suc)

lemma is_file_iff: "is_file fs p \<longleftrightarrow> (\<exists>c. map_of fs p = Some (File c))"
  by (auto simp: is_file_def split: option.split entry.split)

lemma is_root_parent: "path_parent p = p \<longleftrightarrow> is_root p"
  by (cases p rule: rev_cases) (auto simp: path_parent_def is_root_def)

lemma parent_take: "\<not> is_root p \<Longrightarrow> path_parent p = take (length p - 1) p"
  by (simp add: path_parent_def is_root_def butlast_conv_take)

lemma parent_shorter: "\<not> is_root p \<Longrightarrow> length (path_parent p) < length p"
  by (cases p) (auto simp: path_parent_def is_root_def)

lemma is_dir_same: "map_of fs' k = map_of fs k \<Longrightarrow> is_dir fs' k = is_dir fs k"
  by (simp add: is_dir_def)

lemma fs_bind_pres:
  assumes "P (snd (m fs))" and "\<And>x fs'. P fs' \<Longrightarrow> P (snd (f x fs'))"
  shows "P (snd (fs_bind m f fs))"
  using assms by (auto simp: fs_bind_def split: prod.split sum.split)

lemma wf_store_map_of:
  "wf_store fs \<longleftrightarrow> distinct (map fst fs) \<and>
     (\<forall>q e. map_of fs q = Some e \<longrightarrow> \<not> is_root q \<and> is_dir fs (path_parent q))"
  by (auto simp: wf_store_def list_all_iff dest: map_of_SomeD intro: map_of_is_SomeI)

text \<open>Changing one path that is not a directory keeps a store well formed, when the
  new entry, if any, sits in a directory.\<close>

lemma wf_store_change:
  assumes wf: "wf_store fs" and d: "distinct (map fst fs')"
    and m: "map_of fs' = (map_of fs)(p := v)" and nd: "\<not> is_dir fs p"
    and v: "v \<noteq> None \<Longrightarrow> \<not> is_root p \<and> is_dir fs (path_parent p)"
  shows "wf_store fs'"
proof -
  have "\<not> is_root q \<and> is_dir fs' (path_parent q)" if q: "map_of fs' q = Some e" for q e
  proof (cases "q = p")
    case True
    with q m v have p: "\<not> is_root p" "is_dir fs (path_parent p)" by auto
    then have "path_parent p \<noteq> p" by (simp add: is_root_parent)
    with p m True show ?thesis by (simp add: is_dir_def)
  next
    case False
    with q m have "map_of fs q = Some e" by simp
    with wf have w: "\<not> is_root q" "is_dir fs (path_parent q)" by (auto simp: wf_store_map_of)
    with nd have "path_parent q \<noteq> p" by auto
    with w m show ?thesis by (simp add: is_dir_def)
  qed
  with d show ?thesis by (simp add: wf_store_map_of)
qed

lemma os_mkdir_wf:
  assumes wf: "wf_store fs" shows "wf_store (snd (os_mkdir p fs))"
proof (cases "\<not> is_root p \<and> map_of fs p = None \<and> is_dir fs (path_parent p)")
  case True
  then have new: "os_mkdir p fs = (Inr (), fs @ [(p, Dir)])" by (simp add: os_mkdir_def)
  have "wf_store (fs @ [(p, Dir)])"
  proof (rule wf_store_change[OF wf, where p = p and v = "Some Dir"])
    show "distinct (map fst (fs @ [(p, Dir)]))"
      using True wf by (auto simp: wf_store_def dest: weak_map_of_SomeI)
    show "map_of (fs @ [(p, Dir)]) = (map_of fs)(p := Some Dir)"
      using True by (auto simp: map_of_append fun_eq_iff map_add_def split: option.split)
    show "\<not> is_dir fs p" using True by (simp add: is_dir_def)
    show "\<not> is_root p \<and> is_dir fs (path_parent p)" using True by simp
  qed
  with new show ?thesis by simp
qed (use wf in \<open>auto simp: os_mkdir_def\<close>)

lemma unlink_wf:
  assumes wf: "wf_store fs" shows "wf_store (snd (unlink p fs))"
proof (cases "\<not> is_dir fs p \<and> map_of fs p \<noteq> None")
  case True
  then have u: "unlink p fs = (Inr (), filter (\<lambda>(q, _). q \<noteq> p) fs)" by (simp add: unlink_def)
  have "wf_store (filter (\<lambda>(q, _). q \<noteq> p) fs)"
  proof (rule wf_store_change[OF wf, where p = p and v = None])
    show "distinct (map fst (filter (\<lambda>(q, _). q \<noteq> p) fs))"
      using wf by (simp add: wf_store_def distinct_map_filter)
    show "map_of (filter (\<lambda>(q, _). q \<noteq> p) fs) = (map_of fs)(p := None)"
      by (simp add: fun_eq_iff map_of_filter_key)
  qed (use True in simp_all)
  with u show ?thesis by simp
qed (use wf in \<open>auto simp: unlink_def\<close>)

lemma open_write_wf:
  assumes wf: "wf_store fs" shows "wf_store (snd (open_write p data fs))"
proof (cases "\<not> is_dir fs p \<and> is_dir fs (path_parent p)")
  case True
  then have w: "open_write p data fs = (Inr (), dict_set p (File data) fs)" by (simp add: open_write_def)
  have "\<not> is_root p" using True by (auto simp: is_dir_def)
  then have "wf_store (dict_set p (File data) fs)"
    using True wf by (intro wf_store_change[OF wf, where p = p and v = "Some (File data)"]) (simp_all add: wf_store_def)
  with w show ?thesis by simp
qed (use wf in \<open>auto simp: open_write_def\<close>)

lemma unlink_all_wf: "wf_store fs \<Longrightarrow> wf_store (snd (unlink_all ps fs))"
proof (induction ps arbitrary: fs)
  case (Cons p ps)
  then show ?case
    by (simp add: fs_bind_pres unlink_wf)
qed simp

lemma clear_directory_wf: "wf_store fs \<Longrightarrow> wf_store (snd (clear_directory d fs))"
  by (simp add: clear_directory_def unlink_all_wf split: sum.split)

lemma mkdir_exist_ok_snd: "snd (mkdir_exist_ok p fs) = snd (os_mkdir p fs)"
proof -
  obtain r fs' where m: "os_mkdir p fs = (r, fs')" by fastforce
  then show ?thesis by (cases r) (simp_all add: mkdir_exist_ok_def)
qed

lemma mkdir_exist_ok_wf: "wf_store fs \<Longrightarrow> wf_store (snd (mkdir_exist_ok p fs))"
  by (simp add: mkdir_exist_ok_snd os_mkdir_wf)

lemma mkdir_parents_wf: "wf_store fs \<Longrightarrow> wf_store (snd (mkdir_parents p fs))"
proof (induction p fs rule: mkdir_parents.induct)
  case (1 p fs)
  obtain r fs' where m: "os_mkdir p fs = (r, fs')" by fastforce
  have w: "wf_store fs'" using os_mkdir_wf[OF "1.prems", of p] m by simp
  show ?case
  proof (cases "r = Inl FileNotFoundError \<and> path_parent p \<noteq> p")
    case True
    then have u: "mkdir_parents p fs = fs_bind (mkdir_parents (path_parent p)) (\<lambda>_. mkdir_exist_ok p) fs'"
      using m by (subst mkdir_parents.simps) simp
    have "wf_store (snd (mkdir_parents (path_parent p) fs'))"
      using "1.IH"[OF m[symmetric]] True w by simp
    then show ?thesis
      unfolding u by (rule fs_bind_pres) (rule mkdir_exist_ok_wf)
  next
    case False
    then have "snd (mkdir_parents p fs) = fs'"
      using m by (subst mkdir_parents.simps) (cases r, simp_all)
    with w show ?thesis by simp
  qed
qed

lemma helper_init_files_wf: "wf_store fs \<Longrightarrow> wf_store (snd (helper_init_files dl out ver fs))"
  unfolding helper_init_files_def
  by (rule fs_bind_pres, erule mkdir_parents_wf, rule fs_bind_pres, erule clear_directory_wf, erule mkdir_parents_wf)

lemma save_screenshot_wf: "wf_store fs \<Longrightarrow> wf_store (save_screenshot png path fs)"
  using open_write_wf[of fs "py_path path" png]
  by (auto simp: save_screenshot_def get_screenshot_as_file_def split: prod.split sum.split)

text \<open>\<open>mkdir(parents=True, exist_ok=True)\<close> succeeds when no file lies on the way: it
  leaves the path a directory, keeps every entry, and adds only directories on the
  way to the path.\<close>

lemma no_file_on_parent: "no_file_on fs p \<Longrightarrow> \<not> is_root p \<Longrightarrow> no_file_on fs (path_parent p)"
  by (auto simp: no_file_on_iff parent_take min_def)

lemma not_file_Dir: "map_of fs p = Some e \<Longrightarrow> \<not> is_file fs p \<Longrightarrow> e = Dir"
  by (cases e) (auto simp: is_file_iff)

lemma no_file_on_self: "no_file_on fs p \<Longrightarrow> \<not> is_file fs p"
  using no_file_on_iff[of fs p] by fastforce

lemma mkdir_parents_ok:
  "wf_store fs \<Longrightarrow> no_file_on fs p \<Longrightarrow>
   \<exists>fs'. mkdir_parents p fs = (Inr (), fs') \<and> is_dir fs' p \<and> map_of fs \<subseteq>\<^sub>m map_of fs'
     \<and> (\<forall>q e. map_of fs' q = Some e \<longrightarrow> map_of fs q = Some e \<or> (e = Dir \<and> q = take (length q) p))"
proof (induction p fs rule: mkdir_parents.induct)
  case (1 p fs)
  have nf: "\<not> is_file fs p" using "1.prems"(2) by (rule no_file_on_self)
  show ?case
  proof (cases "is_root p \<or> map_of fs p \<noteq> None")
    case True
    then have "is_dir fs p" using nf by (auto simp: is_dir_def dest: not_file_Dir)
    moreover have "mkdir_parents p fs = (Inr (), fs)"
      using True calculation by (subst mkdir_parents.simps) (simp add: os_mkdir_def)
    ultimately show ?thesis by auto
  next
    case False
    have grow: "map_of fs \<subseteq>\<^sub>m map_of (fs @ [(p, Dir)])" "map_of (fs @ [(p, Dir)]) = (map_of fs)(p \<mapsto> Dir)"
      using False by (auto simp: map_le_def map_of_append fun_eq_iff map_add_def split: option.split)
    show ?thesis
    proof (cases "is_dir fs (path_parent p)")
      case True
      then have "mkdir_parents p fs = (Inr (), fs @ [(p, Dir)])"
        using False by (subst mkdir_parents.simps) (simp add: os_mkdir_def)
      with grow False show ?thesis by (auto simp: is_dir_def map_le_def)
    next
      case pd: False
      have pp: "path_parent p \<noteq> p" using False by (simp add: is_root_parent)
      have "\<not> is_file fs (path_parent p)"
        using no_file_on_parent[OF "1.prems"(2)] False by (blast dest: no_file_on_self)
      then have none: "map_of fs (path_parent p) = None"
        using pd by (cases "map_of fs (path_parent p)") (auto simp: is_dir_def dest: not_file_Dir)
      have m: "os_mkdir p fs = (Inl FileNotFoundError, fs)"
        using False pd none by (simp add: os_mkdir_def)
      obtain fs1 where fs1: "mkdir_parents (path_parent p) fs = (Inr (), fs1)" "is_dir fs1 (path_parent p)"
        "map_of fs \<subseteq>\<^sub>m map_of fs1"
        "\<forall>q e. map_of fs1 q = Some e \<longrightarrow> map_of fs q = Some e \<or> (e = Dir \<and> q = take (length q) (path_parent p))"
        using "1.IH"[OF m[symmetric] refl refl pp "1.prems"(1)] no_file_on_parent[OF "1.prems"(2)] False by blast
      have short: "length (path_parent p) < length p" using False by (simp add: parent_shorter)
      have "map_of fs1 p = None"
      proof (rule ccontr)
        assume "map_of fs1 p \<noteq> None"
        then obtain e where e: "map_of fs1 p = Some e" by blast
        from fs1(4)[rule_format, OF e] False have "p = take (length p) (path_parent p)" by simp
        then have "length p = length (take (length p) (path_parent p))" by (rule arg_cong)
        then have "length p \<le> length (path_parent p)" by simp
        with short show False by simp
      qed
      then have "mkdir_exist_ok p fs1 = (Inr (), fs1 @ [(p, Dir)])"
        using False fs1(2) by (simp add: mkdir_exist_ok_def os_mkdir_def)
      then have r: "mkdir_parents p fs = (Inr (), fs1 @ [(p, Dir)])"
        using m pp fs1(1) by (subst mkdir_parents.simps) (simp add: fs_bind_def)
      have m1: "map_of (fs1 @ [(p, Dir)]) = (map_of fs1)(p \<mapsto> Dir)"
        using \<open>map_of fs1 p = None\<close> by (auto simp: map_of_append fun_eq_iff map_add_def split: option.split)
      have pre: "q = take (length q) (path_parent p) \<Longrightarrow> q = take (length q) p" for q
        using False by (simp add: parent_take) (metis length_take min_def take_take)
      have le: "map_of fs \<subseteq>\<^sub>m map_of (fs1 @ [(p, Dir)])"
        unfolding m1 map_le_def
      proof
        fix a assume "a \<in> dom (map_of fs)"
        with fs1(3) have "map_of fs a = map_of fs1 a" by (simp add: map_le_def)
        moreover have "map_of fs a \<noteq> None" using \<open>a \<in> dom (map_of fs)\<close> by blast
        ultimately have "map_of fs1 a \<noteq> None" by simp
        with \<open>map_of fs1 p = None\<close> \<open>map_of fs a = map_of fs1 a\<close>
        show "map_of fs a = ((map_of fs1)(p \<mapsto> Dir)) a" by auto
      qed
      have new: "map_of fs q = Some e \<or> e = Dir \<and> q = take (length q) p"
        if q: "map_of (fs1 @ [(p, Dir)]) q = Some e" for q e
      proof (cases "q = p")
        case True
        with q m1 show ?thesis by simp
      next
        case False
        with q m1 have "map_of fs1 q = Some e" by simp
        from fs1(4)[rule_format, OF this] show ?thesis by (auto intro: pre)
      qed
      show ?thesis
      proof (intro exI[of _ "fs1 @ [(p, Dir)]"] conjI allI impI)
        show "mkdir_parents p fs = (Inr (), fs1 @ [(p, Dir)])" by (rule r)
        show "is_dir (fs1 @ [(p, Dir)]) p" by (simp add: is_dir_def m1 del: map_of_append)
        show "map_of fs \<subseteq>\<^sub>m map_of (fs1 @ [(p, Dir)])" by (rule le)
        fix q e assume "map_of (fs1 @ [(p, Dir)]) q = Some e"
        then show "map_of fs q = Some e \<or> e = Dir \<and> q = take (length q) p" by (rule new)
      qed
    qed
  qed
qed

lemma prefix_child:
  assumes "\<not> is_root q" and "q = take (length q) r" and "path_parent q = d"
  shows "length d < length r \<and> take (length d) r = d"
proof -
  have "length q = length (take (length q) r)" using assms(2) by (rule arg_cong)
  then have lq: "length q \<le> length r" by simp
  have ne: "q \<noteq> []" using assms(1) by (auto simp: is_root_def)
  have d: "d = take (length q - 1) q" using assms(1,3) by (simp add: parent_take)
  also have "\<dots> = take (length q - 1) r" using assms(2) by (metis take_take min_def diff_le_self)
  finally have d': "d = take (length q - 1) r" .
  have lt: "length q - 1 < length r" using lq ne by (cases q) auto
  with d' show ?thesis by (simp add: min_def)
qed

lemma is_dir_mono: "is_dir fs p \<Longrightarrow> map_of fs \<subseteq>\<^sub>m map_of fs' \<Longrightarrow> is_dir fs' p"
  unfolding is_dir_def map_le_def by (metis domI)

lemma wf_store_set: "wf_store fs \<Longrightarrow> (q, e) \<in> set fs \<longleftrightarrow> map_of fs q = Some e"
  by (auto simp: wf_store_def intro: map_of_is_SomeI dest: map_of_SomeD)

lemma wf_store_not_root: "wf_store fs \<Longrightarrow> map_of fs q = Some e \<Longrightarrow> \<not> is_root q"
  by (auto simp: wf_store_map_of)

lemma unlink_file:
  "wf_store fs \<Longrightarrow> is_file fs p \<Longrightarrow> unlink p fs = (Inr (), filter (\<lambda>(q, _). q \<noteq> p) fs)"
  by (auto simp: unlink_def is_file_iff is_dir_def dest: wf_store_not_root)

lemma unlink_all_files:
  "wf_store fs \<Longrightarrow> distinct ps \<Longrightarrow> \<forall>p\<in>set ps. is_file fs p \<Longrightarrow>
   unlink_all ps fs = (Inr (), filter (\<lambda>(q, _). q \<notin> set ps) fs)"
proof (induction ps arbitrary: fs)
  case Nil
  then show ?case by (simp add: case_prod_unfold)
next
  case (Cons p ps)
  let ?fs1 = "filter (\<lambda>(q, _). q \<noteq> p) fs"
  have u: "unlink p fs = (Inr (), ?fs1)" using Cons.prems by (simp add: unlink_file)
  have "wf_store ?fs1" using unlink_wf[OF Cons.prems(1), of p] u by simp
  moreover have "\<forall>p'\<in>set ps. is_file ?fs1 p'"
    using Cons.prems by (auto simp: is_file_def map_of_filter_key)
  ultimately have "unlink_all ps ?fs1 = (Inr (), filter (\<lambda>(q, _). q \<notin> set ps) ?fs1)"
    using Cons by simp
  then show ?case using u by (simp add: fs_bind_def case_prod_unfold conj_commute)
qed

lemma unlink_all_dir:
  "wf_store fs \<Longrightarrow> distinct ps \<Longrightarrow> \<forall>p\<in>set ps. map_of fs p \<noteq> None \<Longrightarrow> q \<in> set ps \<Longrightarrow>
   map_of fs q = Some Dir \<Longrightarrow> fst (unlink_all ps fs) = Inl IsADirectoryError"
proof (induction ps arbitrary: fs)
  case (Cons p ps)
  show ?case
  proof (cases "map_of fs p = Some Dir")
    case True
    then show ?thesis by (simp add: fs_bind_def unlink_def is_dir_def)
  next
    case False
    then have f: "is_file fs p"
      using Cons.prems(3) by (cases "map_of fs p") (auto simp: is_file_def split: entry.split)
    let ?fs1 = "filter (\<lambda>(q, _). q \<noteq> p) fs"
    have u: "unlink p fs = (Inr (), ?fs1)" using Cons.prems(1) f by (simp add: unlink_file)
    have "wf_store ?fs1" using unlink_wf[OF Cons.prems(1), of p] u by simp
    moreover have "q \<noteq> p" using False Cons.prems(5) by auto
    ultimately have "fst (unlink_all ps ?fs1) = Inl IsADirectoryError"
      using Cons.prems by (intro Cons.IH) (auto simp: map_of_filter_key)
    then show ?thesis using u by (simp add: fs_bind_def split: prod.split)
  qed
qed simp

text \<open>\<open>_clear_directory\<close> on a directory that holds only plain files removes them
  and nothing else; one subdirectory makes it raise \<open>IsADirectoryError\<close>.\<close>

lemma clear_directory_files:
  assumes wf: "wf_store fs" and d: "is_dir fs d"
    and nosub: "\<forall>(q, e)\<in>set fs. q \<noteq> d \<and> path_parent q = d \<longrightarrow> e \<noteq> Dir"
  shows "clear_directory d fs = (Inr (), filter (\<lambda>(q, _). q = d \<or> path_parent q \<noteq> d) fs)"
proof -
  let ?ps = "filter (\<lambda>p. p \<noteq> d \<and> path_parent p = d) (map fst fs)"
  have "distinct ?ps" using wf by (simp add: wf_store_def)
  moreover have "\<forall>p\<in>set ?ps. is_file fs p"
  proof
    fix p assume "p \<in> set ?ps"
    then obtain e where pe: "(p, e) \<in> set fs" "p \<noteq> d" "path_parent p = d" by auto
    with nosub have "e \<noteq> Dir" by auto
    with pe wf show "is_file fs p" by (cases e) (auto simp: is_file_def wf_store_set)
  qed
  ultimately have "unlink_all ?ps fs = (Inr (), filter (\<lambda>(q, _). q \<notin> set ?ps) fs)"
    by (rule unlink_all_files[OF wf])
  moreover have "filter (\<lambda>(q, _). q \<notin> set ?ps) fs = filter (\<lambda>(q, _). q = d \<or> path_parent q \<noteq> d) fs"
    by (rule filter_cong) force+
  ultimately show ?thesis using d by (simp add: clear_directory_def iterdir_def)
qed

lemma clear_directory_subdir:
  assumes wf: "wf_store fs" and d: "is_dir fs d" and q: "(q, Dir) \<in> set fs" "q \<noteq> d" "path_parent q = d"
  shows "fst (clear_directory d fs) = Inl IsADirectoryError"
proof -
  let ?ps = "filter (\<lambda>p. p \<noteq> d \<and> path_parent p = d) (map fst fs)"
  have "fst (unlink_all ?ps fs) = Inl IsADirectoryError"
  proof (rule unlink_all_dir[OF wf])
    show "distinct ?ps" using wf by (simp add: wf_store_def)
    show "\<forall>p\<in>set ?ps. map_of fs p \<noteq> None" by (auto simp: map_of_eq_None_iff)
    show "q \<in> set ?ps" using q by force
    show "map_of fs q = Some Dir" using q wf by (simp add: wf_store_set)
  qed
  then show ?thesis using d by (simp add: clear_directory_def iterdir_def)
qed

lemma files_kept:
  assumes "\<forall>q e. map_of fs' q = Some e \<longrightarrow> map_of fs q = Some e \<or> e = Dir \<and> P q"
  shows "is_file fs' q \<Longrightarrow> is_file fs q"
  using assms by (fastforce simp: is_file_iff)

lemma no_file_on_kept:
  assumes "no_file_on fs p" and "\<And>q. is_file fs' q \<Longrightarrow> is_file fs q"
  shows "no_file_on fs' p"
  using assms by (auto simp: no_file_on_iff)

lemma mkdir_parents_dir: "mkdir_parents p fs = (Inr u, fs') \<Longrightarrow> is_dir fs' p"
proof (induction p fs arbitrary: u fs' rule: mkdir_parents.induct)
  case (1 p fs)
  obtain r fs1 where m: "os_mkdir p fs = (r, fs1)" by fastforce
  show ?case
  proof (cases "r = Inl FileNotFoundError \<and> path_parent p \<noteq> p")
    case True
    then have u: "mkdir_parents p fs = fs_bind (mkdir_parents (path_parent p)) (\<lambda>_. mkdir_exist_ok p) fs1"
      using m by (subst mkdir_parents.simps) simp
    then obtain fs2 v where "mkdir_exist_ok p fs2 = (Inr u, fs')"
      using "1.prems" by (auto simp: fs_bind_def split: prod.splits sum.splits)
    then show ?thesis
      by (auto simp: mkdir_exist_ok_def os_mkdir_def is_dir_def map_of_append map_add_def
          split: prod.splits sum.splits if_splits)
  next
    case False
    then show ?thesis using m "1.prems"
      by (subst (asm) mkdir_parents.simps)
        (cases r, auto simp: os_mkdir_def is_dir_def map_of_append map_add_def split: if_splits)
  qed
qed

text \<open>In a well-formed store every prefix of a directory is a directory.\<close>

lemma wf_dir_prefix: "wf_store fs \<Longrightarrow> is_dir fs p \<Longrightarrow> i \<le> length p \<Longrightarrow> is_dir fs (take i p)"
proof (induction "length p" arbitrary: p i rule: less_induct)
  case less
  show ?case
  proof (cases "is_root p")
    case True
    then show ?thesis using less.prems by (cases i) (auto simp: is_root_def is_dir_def)
  next
    case False
    with less.prems have "map_of fs p = Some Dir" by (simp add: is_dir_def)
    with less.prems(1) False have pd: "is_dir fs (path_parent p)" by (auto simp: wf_store_map_of)
    show ?thesis
    proof (cases "i = length p")
      case False
      then have "i \<le> length (path_parent p)" using less.prems(3) \<open>\<not> is_root p\<close> by (simp add: parent_take)
      then have "is_dir fs (take i (path_parent p))"
        using less.hyps[OF parent_shorter[OF \<open>\<not> is_root p\<close>] less.prems(1) pd] by blast
      then show ?thesis using \<open>\<not> is_root p\<close> \<open>i \<le> length (path_parent p)\<close> by (simp add: parent_take)
    qed (use less.prems in simp)
  qed
qed

lemma wf_dir_no_file_on:
  assumes "wf_store fs" and "is_dir fs p" shows "no_file_on fs p"
  unfolding no_file_on_iff
proof (intro allI impI)
  fix i assume "i \<le> length p"
  then have "is_dir fs (take i p)" by (rule wf_dir_prefix[OF assms])
  then show "\<not> is_file fs (take i p)"
    using assms(1) by (auto simp: is_dir_def is_file_iff dest: wf_store_not_root)
qed

lemma helper_init_files_output: "helper_init_files dl out ver fs = (Inr u, fs') \<Longrightarrow> is_dir fs' (path_join (py_path out) ver)"
  by (auto simp: helper_init_files_def fs_bind_def split: prod.splits sum.splits intro: mkdir_parents_dir)

lemma helper_init_files_subdir_aux:
  assumes wf: "wf_store fs" and dl: "no_file_on fs (py_path dl)"
    and q: "(q, Dir) \<in> set fs" "q \<noteq> py_path dl" "path_parent q = py_path dl"
  shows "fst (helper_init_files dl out ver fs) = Inl IsADirectoryError"
proof -
  obtain fs1 where fs1: "mkdir_parents (py_path dl) fs = (Inr (), fs1)" "is_dir fs1 (py_path dl)"
      "map_of fs \<subseteq>\<^sub>m map_of fs1"
    using mkdir_parents_ok[OF wf dl] by blast
  have wf1: "wf_store fs1" using mkdir_parents_wf[OF wf, of "py_path dl"] fs1(1) by simp
  have "map_of fs q = Some Dir" using q(1) wf by (simp add: wf_store_set)
  with fs1(3) have "(q, Dir) \<in> set fs1" using wf1 by (simp add: wf_store_set map_le_Some)
  then have "fst (clear_directory (py_path dl) fs1) = Inl IsADirectoryError"
    using q(2,3) by (rule clear_directory_subdir[OF wf1 fs1(2)])
  then obtain fs2 where "clear_directory (py_path dl) fs1 = (Inl IsADirectoryError, fs2)"
    by (cases "clear_directory (py_path dl) fs1") auto
  then show ?thesis using fs1(1) by (simp add: helper_init_files_def fs_bind_def)
qed

section \<open>Properties of the helper's file operations\<close>

text \<open>C12: when no file lies on the way to the download directory or to
  output_directory/version, the download directory holds no subdirectory, and the
  output path does not pass through the download directory, the constructor's file
  operations succeed: they leave a well-formed store in which both directories exist,
  the download directory is empty, and every entry outside the download directory is
  kept.\<close>

theorem helper_init_files_ok:
  assumes wf: "wf_store fs" and dl: "no_file_on fs (py_path dl)"
    and nosub: "\<forall>(q, e)\<in>set fs. q \<noteq> py_path dl \<and> path_parent q = py_path dl \<longrightarrow> e \<noteq> Dir"
    and out: "no_file_on fs (path_join (py_path out) ver)"
    and apart: "\<not> (length (py_path dl) < length (path_join (py_path out) ver)
                  \<and> take (length (py_path dl)) (path_join (py_path out) ver) = py_path dl)"
  shows "\<exists>fs'. helper_init_files dl out ver fs = (Inr (), fs') \<and> wf_store fs'
           \<and> is_dir fs' (py_path dl) \<and> iterdir (py_path dl) fs' = Inr []
           \<and> is_dir fs' (path_join (py_path out) ver)
           \<and> (\<forall>(q, e)\<in>set fs. q = py_path dl \<or> path_parent q \<noteq> py_path dl \<longrightarrow> map_of fs' q = Some e)"
proof -
  let ?d = "py_path dl" and ?o = "path_join (py_path out) ver"
  obtain fs1 where fs1: "mkdir_parents ?d fs = (Inr (), fs1)" "is_dir fs1 ?d" "map_of fs \<subseteq>\<^sub>m map_of fs1"
      "\<forall>q e. map_of fs1 q = Some e \<longrightarrow> map_of fs q = Some e \<or> e = Dir \<and> q = take (length q) ?d"
    using mkdir_parents_ok[OF wf dl] by blast
  have wf1: "wf_store fs1" using mkdir_parents_wf[OF wf, of ?d] fs1(1) by simp
  have nosub1: "\<forall>(q, e)\<in>set fs1. q \<noteq> ?d \<and> path_parent q = ?d \<longrightarrow> e \<noteq> Dir"
  proof (clarify)
    fix q assume q: "(q, Dir) \<in> set fs1" "q \<noteq> ?d" "path_parent q = ?d"
    then have m: "map_of fs1 q = Some Dir" using wf1 by (simp add: wf_store_set)
    show False
    proof (cases "map_of fs q = Some Dir")
      case True
      with nosub q wf show False by (auto simp: wf_store_set)
    next
      case False
      with fs1(4) m have "q = take (length q) ?d" by blast
      from prefix_child[OF wf_store_not_root[OF wf1 m] this q(3)] show False by simp
    qed
  qed
  let ?fs2 = "filter (\<lambda>(q, _). q = ?d \<or> path_parent q \<noteq> ?d) fs1"
  have fs2: "clear_directory ?d fs1 = (Inr (), ?fs2)" by (rule clear_directory_files[OF wf1 fs1(2) nosub1])
  have wf2: "wf_store ?fs2" using clear_directory_wf[OF wf1, of ?d] fs2 by simp
  have m2: "map_of ?fs2 q = (if q = ?d \<or> path_parent q \<noteq> ?d then map_of fs1 q else None)" for q
    by (rule map_of_filter_key)
  have "is_file ?fs2 q \<Longrightarrow> is_file fs q" for q
    using files_kept[OF fs1(4), of q] m2[of q] by (auto simp: is_file_def split: if_splits)
  then have out2: "no_file_on ?fs2 ?o" by (rule no_file_on_kept[OF out])
  obtain fs3 where fs3: "mkdir_parents ?o ?fs2 = (Inr (), fs3)" "is_dir fs3 ?o" "map_of ?fs2 \<subseteq>\<^sub>m map_of fs3"
      "\<forall>q e. map_of fs3 q = Some e \<longrightarrow> map_of ?fs2 q = Some e \<or> e = Dir \<and> q = take (length q) ?o"
    using mkdir_parents_ok[OF wf2 out2] by blast
  have run: "helper_init_files dl out ver fs = (Inr (), fs3)"
    using fs1(1) fs2 fs3(1) by (simp add: helper_init_files_def fs_bind_def)
  have wf3: "wf_store fs3" using helper_init_files_wf[OF wf, of dl out ver] run by simp
  have d2: "is_dir ?fs2 ?d" using fs1(2) m2[of ?d] by (simp add: is_dir_def)
  have d3: "is_dir fs3 ?d" by (rule is_dir_mono[OF d2 fs3(3)])
  have empty: "filter (\<lambda>p. p \<noteq> ?d \<and> path_parent p = ?d) (map fst fs3) = []"
  proof (rule filter_False, intro ballI notI)
    fix q assume "q \<in> set (map fst fs3)" and q: "q \<noteq> ?d \<and> path_parent q = ?d"
    then obtain e where "(q, e) \<in> set fs3" by auto
    then have m: "map_of fs3 q = Some e" using wf3 by (simp add: wf_store_set)
    from fs3(4)[rule_format, OF this] show False
    proof
      assume "map_of ?fs2 q = Some e"
      with q m2[of q] show False by simp
    next
      assume "e = Dir \<and> q = take (length q) ?o"
      with prefix_child[OF wf_store_not_root[OF wf3 m], of ?o ?d] q apart show False by blast
    qed
  qed
  have kept: "map_of fs3 q = Some e" if "(q, e) \<in> set fs" "q = ?d \<or> path_parent q \<noteq> ?d" for q e
  proof -
    have "map_of fs q = Some e" using that(1) wf by (simp add: wf_store_set)
    with fs1(3) have "map_of fs1 q = Some e" by (rule map_le_Some)
    with m2[of q] that(2) have "map_of ?fs2 q = Some e" by simp
    with fs3(3) show ?thesis by (rule map_le_Some)
  qed
  show ?thesis
    using run wf3 d3 empty fs3(2) kept by (auto simp: iterdir_def)
qed

text \<open>C14: a subdirectory in the download directory makes the constructor raise
  IsADirectoryError: \<open>_clear_directory\<close> unlinks every entry and unlink refuses a
  directory.\<close>

theorem helper_init_files_subdir:
  assumes wf: "wf_store fs" and dl: "no_file_on fs (py_path dl)"
    and q: "(q, Dir) \<in> set fs" "q \<noteq> py_path dl" "path_parent q = py_path dl"
  shows "fst (helper_init_files dl out ver fs) = Inl IsADirectoryError"
  using assms by (rule helper_init_files_subdir_aux)

theorem helper_init_files_subdir_witness:
  "helper_init_files ''/tmp/d'' ''/tmp/d'' ''0.0'' [] = (Inr (), demo_run_store)
   \<and> fst (helper_init_files ''/tmp/d'' ''/tmp/d'' ''0.0'' demo_run_store) = Inl IsADirectoryError"
proof
  show "helper_init_files ''/tmp/d'' ''/tmp/d'' ''0.0'' [] = (Inr (), demo_run_store)"
    by code_simp
  show "fst (helper_init_files ''/tmp/d'' ''/tmp/d'' ''0.0'' demo_run_store) = Inl IsADirectoryError"
  proof (rule helper_init_files_subdir)
    show "wf_store demo_run_store" by code_simp
    show "no_file_on demo_run_store (py_path ''/tmp/d'')" by code_simp
    show "([''/'', ''tmp'', ''d'', ''0.0''], Dir) \<in> set demo_run_store" by (simp add: demo_run_store_def)
    show "[''/'', ''tmp'', ''d'', ''0.0''] \<noteq> py_path ''/tmp/d''" by code_simp
    show "path_parent [''/'', ''tmp'', ''d'', ''0.0''] = py_path ''/tmp/d''" by code_simp
  qed
qed

theorem helper_init_files_ok_witness:
  "\<exists>fs'. helper_init_files ''/tmp/d'' ''/tmp/o'' ''0.0'' demo_download_store = (Inr (), fs') \<and> wf_store fs'
     \<and> is_dir fs' [''/'', ''tmp'', ''d''] \<and> iterdir [''/'', ''tmp'', ''d''] fs' = Inr []
     \<and> is_dir fs' [''/'', ''tmp'', ''o'', ''0.0''] \<and> map_of fs' [''/'', ''tmp''] = Some Dir
     \<and> map_of fs' [''/'', ''tmp'', ''d''] = Some Dir \<and> map_of fs' [''/'', ''tmp'', ''notes''] = Some (File ''keep'')"
proof -
  have d: "py_path ''/tmp/d'' = [''/'', ''tmp'', ''d'']" and o: "path_join (py_path ''/tmp/o'') ''0.0'' = [''/'', ''tmp'', ''o'', ''0.0'']"
    by code_simp+
  have "\<exists>fs'. helper_init_files ''/tmp/d'' ''/tmp/o'' ''0.0'' demo_download_store = (Inr (), fs') \<and> wf_store fs'
     \<and> is_dir fs' (py_path ''/tmp/d'') \<and> iterdir (py_path ''/tmp/d'') fs' = Inr []
     \<and> is_dir fs' (path_join (py_path ''/tmp/o'') ''0.0'')
     \<and> (\<forall>(q, e)\<in>set demo_download_store. q = py_path ''/tmp/d'' \<or> path_parent q \<noteq> py_path ''/tmp/d''
          \<longrightarrow> map_of fs' q = Some e)"
  proof (rule helper_init_files_ok)
    show "wf_store demo_download_store" by code_simp
    show "no_file_on demo_download_store (py_path ''/tmp/d'')" by code_simp
    show "\<forall>(q, e)\<in>set demo_download_store. q \<noteq> py_path ''/tmp/d'' \<and> path_parent q = py_path ''/tmp/d'' \<longrightarrow> e \<noteq> Dir"
      by code_simp
    show "no_file_on demo_download_store (path_join (py_path ''/tmp/o'') ''0.0'')" by code_simp
    show "\<not> (length (py_path ''/tmp/d'') < length (path_join (py_path ''/tmp/o'') ''0.0'')
            \<and> take (length (py_path ''/tmp/d'')) (path_join (py_path ''/tmp/o'') ''0.0'') = py_path ''/tmp/d'')"
      by code_simp
  qed
  then show ?thesis unfolding d o by (simp add: demo_download_store_def path_parent_def)
qed

text \<open>Every file operation of the helper keeps the store well formed: the
  constructor's, \<open>_clear_directory\<close>'s and \<open>save_screenshot\<close>'s, whether they
  succeed or raise.\<close>

lemma file_operations_wf:
  assumes "wf_store fs"
  shows "wf_store (snd (helper_init_files dl out ver fs)) \<and> wf_store (snd (clear_directory d fs))
         \<and> wf_store (save_screenshot png path fs) \<and> wf_store (snd (unzip_download_directory_contents fs))"
  using assms helper_init_files_wf clear_directory_wf save_screenshot_wf
  by (simp add: unzip_download_directory_contents_def)

theorem file_operations_wf_witness:
  "wf_store (snd (helper_init_files ''/tmp/d'' ''/tmp/o'' ''0.0'' demo_download_store))
   \<and> wf_store (snd (clear_directory [''/'', ''tmp''] demo_download_store))
   \<and> wf_store (save_screenshot ''PNG'' ''/tmp/shot.png'' demo_download_store)
   \<and> wf_store (snd (unzip_download_directory_contents demo_download_store))"
  by (rule file_operations_wf) code_simp

text \<open>Save_screenshot writes the PNG when the path names no directory and its
  parent is a directory, and otherwise leaves the files as they were and returns
  None all the same: a failed screenshot is not reported.\<close>

lemma save_screenshot_silent:
  "save_screenshot png path fs =
     (if \<not> is_dir fs (py_path path) \<and> is_dir fs (path_parent (py_path path))
      then dict_set (py_path path) (File png) fs else fs)"
  by (auto simp: save_screenshot_def get_screenshot_as_file_def open_write_def)

end
