(* ===== verification/Legacy.thy ===== *)
theory Legacy
  imports Session Waits Files
begin

text \<open>
  The older helper module src/lbrc_selenium/__init__.py, kept beside selenium.py. Its
  \<open>SeleniumHelper\<close> has the same element access and navigation helpers without the
  \<open>None\<close> guards of the newer one, and its \<open>get_selenium\<close> reads variables named
  \<open>LBRC_SELENIUM_*\<close>, requires the base URL, and builds \<open>SeleniumGridHelper\<close> or
  \<open>SeleniumLocalHelper\<close>, subclasses whose \<open>close\<close> quits or closes the driver. The
  definitions below translate that module; the lemmas compare it with the model of
  selenium.py. Its \<open>get\<close> waits for the body with \<open>wait_to_appear\<close> where
  selenium.py checks for it twenty times and tolerates an alert; the rest repeats
  selenium.py and is modelled over the same browser, clock and file store.
\<close>

section \<open>Element access without None guards\<close>

text \<open>\<open>get_text(element)\<close> reads \<open>element.text\<close> at once: \<open>None\<close> has no attribute
  \<open>text\<close>.\<close>

definition legacy_get_text :: "node option \<Rightarrow> string py_result" where
  "legacy_get_text e =
     (case e of
        None \<Rightarrow> Inl AttributeError
      | Some x \<Rightarrow>
          Inr (let r = normalise_text (Some (visible_text (info x)))
               in if r = [] then
                    (let r' = normalise_text (get_attribute x ''text'') in if r' = [] then get_innerHtml x else r')
                  else r))"

definition legacy_get_href :: "node option \<Rightarrow> string py_result" where
  "legacy_get_href e =
     (case e of
        None \<Rightarrow> Inl AttributeError
      | Some x \<Rightarrow> Inr (py_strip (case get_attribute x ''href'' of None \<Rightarrow> [] | Some s \<Rightarrow> s)))"

definition legacy_get_value :: "node option \<Rightarrow> string py_result" where
  "legacy_get_value e =
     (case e of None \<Rightarrow> Inl AttributeError | Some x \<Rightarrow> Inr (normalise_text (get_attribute x ''value'')))"

definition legacy_convert_to_relative_url :: "string \<Rightarrow> string \<Rightarrow> string" where
  "legacy_convert_to_relative_url base url =
     (if py_startswith url base then drop (length base) url else url)"

section \<open>Selectors, queries and interaction\<close>

definition legacy_CssSelector :: "string \<Rightarrow> selector" where
  "legacy_CssSelector q = \<lparr>query = q, strategy = CSS_SELECTOR\<rparr>"

definition legacy_XpathSelector :: "string \<Rightarrow> selector" where
  "legacy_XpathSelector q = \<lparr>query = q, strategy = XPATH\<rparr>"

text \<open>\<open>get(url)\<close>: navigate, then \<open>wait_to_appear(CssSelector('body'))\<close> with its
  default ten seconds.\<close>

definition legacy_get :: "driver_env \<Rightarrow> (node \<Rightarrow> node) \<Rightarrow> (nat \<Rightarrow> nat) \<Rightarrow> string \<Rightarrow> string \<Rightarrow> unit command" where
  "legacy_get env tick over base url =
     cmd_bind (navigate env (urljoin env base url)) (\<lambda>_.
     cmd_bind (wait_to_appear env tick over (legacy_CssSelector ''body'') None 10) (\<lambda>_. cmd_return ()))"

definition legacy_wait_to_appear ::
  "driver_env \<Rightarrow> (node \<Rightarrow> node) \<Rightarrow> (nat \<Rightarrow> nat) \<Rightarrow> selector \<Rightarrow> nat option \<Rightarrow> nat \<Rightarrow> node command" where
  "legacy_wait_to_appear env tick over sel element seconds_to_wait =
     wait_until env tick over sel element (1000 * seconds_to_wait) 0"

definition legacy_wait_to_disappear ::
  "driver_env \<Rightarrow> (node \<Rightarrow> node) \<Rightarrow> (nat \<Rightarrow> nat) \<Rightarrow> selector \<Rightarrow> nat option \<Rightarrow> nat \<Rightarrow> bool command" where
  "legacy_wait_to_disappear env tick over sel element seconds_to_wait =
     wait_until_not env tick over sel element (1000 * seconds_to_wait) 0"

definition legacy_get_parent :: "node \<Rightarrow> node \<Rightarrow> node py_result" where
  "legacy_get_parent root e =
     (case filter (\<lambda>p. node_eid e \<in> set (map node_eid (children p))) (tl (subtrees root)) of
        p # _ \<Rightarrow> Inr p
      | [] \<Rightarrow> Inl InvalidSelectorException)"

definition legacy_get_element :: "driver_env \<Rightarrow> selector \<Rightarrow> bool \<Rightarrow> nat option \<Rightarrow> node option command" where
  "legacy_get_element env sel allow_null scope b =
     (if alert b then (Inl UnexpectedAlertPresentException, b\<lparr>alert := False\<rparr>)
      else (case scope of
              None \<Rightarrow> (get_element (find_all env (document b)) sel allow_null (document b), b)
            | Some i \<Rightarrow>
                (case lookup (document b) i of
                   None \<Rightarrow> (Inl StaleElementReferenceException, b)
                 | Some n \<Rightarrow> (get_element (find_all env (document b)) sel allow_null n, b))))"

definition legacy_get_elements :: "finder \<Rightarrow> selector \<Rightarrow> node \<Rightarrow> node list" where
  "legacy_get_elements drv sel scope = drv sel scope"

definition legacy_type_in_textbox :: "driver_env \<Rightarrow> selector \<Rightarrow> string \<Rightarrow> nat option \<Rightarrow> node command" where
  "legacy_type_in_textbox env sel text scope =
     cmd_bind (legacy_get_element env sel False scope) (\<lambda>eo.
       case eo of
         None \<Rightarrow> (\<lambda>b. (Inl AttributeError, b))
       | Some e \<Rightarrow> cmd_bind (element_clear (node_eid e)) (\<lambda>_.
                   cmd_bind (element_send_keys (node_eid e) text) (\<lambda>_. cmd_return e)))"

definition legacy_click_element :: "driver_env \<Rightarrow> selector \<Rightarrow> nat option \<Rightarrow> node command" where
  "legacy_click_element env sel scope =
     cmd_bind (legacy_get_element env sel False scope) (\<lambda>eo.
       case eo of
         None \<Rightarrow> (\<lambda>b. (Inl AttributeError, b))
       | Some e \<Rightarrow> cmd_bind (element_click env (node_eid e)) (\<lambda>_ b. (Inr e, log [ClickWait] b)))"

partial_function (option) legacy_click_all ::
  "driver_env \<Rightarrow> selector \<Rightarrow> nat option \<Rightarrow> browser \<Rightarrow> ((py_error + unit) \<times> browser) option" where
  "legacy_click_all env sel scope b =
     (case legacy_get_element env sel True scope b of
        (Inl e, b') \<Rightarrow> Some (Inl e, b')
      | (Inr None, b') \<Rightarrow> Some (Inr (), b')
      | (Inr (Some e), b') \<Rightarrow>
          (case element_click env (node_eid e) b' of
             (Inl err, b'') \<Rightarrow> Some (Inl err, b'')
           | (Inr _, b'') \<Rightarrow> legacy_click_all env sel (Some (node_eid e)) (log [ClickWait] b'')))"

definition legacy_normalise_text :: "string option \<Rightarrow> string" where
  "legacy_normalise_text value =
     py_strip (py_join '' '' (py_split (remove_tags (case value of None \<Rightarrow> [] | Some s \<Rightarrow> s))))"

definition legacy_get_innerHtml :: "node \<Rightarrow> string" where
  "legacy_get_innerHtml e = legacy_normalise_text (Some (inner_html (info e)))"

section \<open>Files and e-mail\<close>

text \<open>The constructor creates and empties the download directory; there is no output
  directory.\<close>

definition legacy_helper_init_files :: "string \<Rightarrow> unit fs_op" where
  "legacy_helper_init_files dl_dir =
     fs_bind (mkdir_parents (py_path dl_dir)) (\<lambda>_. clear_directory (py_path dl_dir))"

definition legacy_clear_directory :: "path \<Rightarrow> unit fs_op" where
  "legacy_clear_directory d fs = (case iterdir d fs of Inl e \<Rightarrow> (Inl e, fs) | Inr ps \<Rightarrow> unlink_all ps fs)"

text \<open>The same \<open>self._download_directory\<close> that no method sets.\<close>

definition legacy_unzip_download_directory_contents :: "unit fs_op" where
  "legacy_unzip_download_directory_contents fs = (Inl AttributeError, fs)"

text \<open>\<open>email_screenshot(email_address)\<close> takes the address as an argument.\<close>

definition legacy_email_screenshot :: "string \<Rightarrow> string \<Rightarrow> string \<Rightarrow> (string \<times> mail) list \<Rightarrow> (string \<times> mail) list" where
  "legacy_email_screenshot addr url png outbox =
     outbox @ [(''smtp.xuhl-tr.nhs.uk'',
       \<lparr>subject = ''Your Requested Screenshot from Selenium'', mail_to = addr, mail_from = addr,
        mail_text = ''Here is the screenshot that you requested of page '' @ url,
        attachment = (''image/png'', ''screenshot.png'', png)\<rparr>)]"

section \<open>The legacy session factory\<close>

record 't legacy_args =
  legacy_download_directory :: string
  legacy_base_url :: string
  legacy_click_wait_time :: 't
  legacy_download_wait_time :: 't
  legacy_page_wait_time :: 't

record 't legacy_helper =
  legacy_driver :: "'t webdriver"
  legacy_close :: close_call
  legacy_helper_args :: "'t legacy_args"

text \<open>\<open>SeleniumGridHelper(download_directory, selenium_host, selenium_port,
  implicit_wait_time, ...)\<close>: a remote driver, \<open>close\<close> quits it; the implicit wait is
  not used. \<open>SeleniumLocalHelper(download_directory, implicit_wait_time, headless)\<close>:
  Firefox with \<open>implicitly_wait\<close>, \<open>close\<close> closes it.\<close>

definition SeleniumGridHelper :: "string \<Rightarrow> string \<Rightarrow> 't \<Rightarrow> 't legacy_args \<Rightarrow> 't legacy_helper" where
  "SeleniumGridHelper selenium_host selenium_port implicit_wait_time args =
     \<lparr>legacy_driver = RemoteDriver (''http://'' @ selenium_host @ '':'' @ selenium_port @ ''/wd/hub''),
      legacy_close = DriverQuit, legacy_helper_args = args\<rparr>"

definition SeleniumLocalHelper :: "bool \<Rightarrow> 't \<Rightarrow> 't legacy_args \<Rightarrow> 't legacy_helper" where
  "SeleniumLocalHelper headless implicit_wait_time args =
     \<lparr>legacy_driver = FirefoxDriver headless implicit_wait_time (legacy_download_directory args),
      legacy_close = DriverClose, legacy_helper_args = args\<rparr>"

definition legacy_get_selenium ::
  "(string \<Rightarrow> 't py_result) \<Rightarrow> (nat \<Rightarrow> 't) \<Rightarrow> (string, string) pydict \<Rightarrow> 't legacy_helper py_result" where
  "legacy_get_selenium to_float of_num env =
     py_bind (dict_get env ''LBRC_SELENIUM_DOWNLOAD_DIRECTORY'') (\<lambda>dd.
     py_bind (dict_get env ''LBRC_SELENIUM_BASE_URL'') (\<lambda>bu.
     py_bind (env_float to_float of_num env ''LBRC_SELENIUM_IMPLICIT_WAIT_TIME'' 1) (\<lambda>iw.
     py_bind (env_float to_float of_num env ''LBRC_SELENIUM_CLICK_WAIT_TIME'' 1) (\<lambda>cw.
     py_bind (env_float to_float of_num env ''LBRC_SELENIUM_DOWNLOAD_WAIT_TIME'' 30) (\<lambda>dw.
     py_bind (env_float to_float of_num env ''LBRC_SELENIUM_PAGE_WAIT_TIME'' 5) (\<lambda>pw.
       let args = \<lparr>legacy_download_directory = dd, legacy_base_url = bu, legacy_click_wait_time = cw,
                   legacy_download_wait_time = dw, legacy_page_wait_time = pw\<rparr>
       in if env_truthy env ''LBRC_SELENIUM_HOST''
          then py_bind (dict_get env ''LBRC_SELENIUM_HOST'') (\<lambda>host.
                 Inr (SeleniumGridHelper host (env_get env ''LBRC_SELENIUM_PORT'' ''4444'') iw args))
          else Inr (SeleniumLocalHelper (env_truthy env ''LBRC_SELENIUM_HEADLESS'') iw args)))))))"

section \<open>A page that opens an alert\<close>

definition demo_env_alert :: driver_env where
  "demo_env_alert = demo_env\<lparr>load := (\<lambda>u. (demo_buttons_page, True))\<rparr>"

section \<open>Comparison with selenium.py\<close>

lemma legacy_get_element_eq: "legacy_get_element = helper_get_element"
  by (simp add: fun_eq_iff legacy_get_element_def helper_get_element_def)

text \<open>The two \<open>click_all\<close> are least fixed points of the same loop body: each
  returns only what the other returns, by fixed-point induction.\<close>

lemma click_all_of_legacy:
  "\<forall>env sel scope b y. legacy_click_all env sel scope b = Some y \<longrightarrow> click_all env sel scope b = Some y"
proof (rule legacy_click_all.fixp_induct[where
      P = "\<lambda>f. \<forall>env sel scope b y. f env sel scope b = Some y \<longrightarrow> click_all env sel scope b = Some y"])
  show "option.admissible (\<lambda>f. \<forall>env sel scope b y.
          curry (curry (curry f)) env sel scope b = Some y \<longrightarrow> click_all env sel scope b = Some y)"
    using option_admissible[where P = "\<lambda>x y. case x of (((env, sel), scope), b) \<Rightarrow> click_all env sel scope b = Some y"]
    by (simp add: split_paired_All)
next
  fix f assume IH: "\<forall>env sel scope b y. f env sel scope b = Some y \<longrightarrow> click_all env sel scope b = Some y"
  show "\<forall>env sel scope b y. (case legacy_get_element env sel True scope b of
        (Inl e, b') \<Rightarrow> Some (Inl e, b')
      | (Inr None, b') \<Rightarrow> Some (Inr (), b')
      | (Inr (Some e), b') \<Rightarrow>
          (case element_click env (node_eid e) b' of
             (Inl err, b'') \<Rightarrow> Some (Inl err, b'')
           | (Inr _, b'') \<Rightarrow> f env sel (Some (node_eid e)) (log [ClickWait] b''))) = Some y
        \<longrightarrow> click_all env sel scope b = Some y"
    using IH by (auto simp: legacy_get_element_eq split: prod.splits sum.splits option.splits
        intro: click_all.simps[THEN trans])
qed simp

lemma legacy_of_click_all:
  "\<forall>env sel scope b y. click_all env sel scope b = Some y \<longrightarrow> legacy_click_all env sel scope b = Some y"
proof (rule click_all.fixp_induct[where
      P = "\<lambda>f. \<forall>env sel scope b y. f env sel scope b = Some y \<longrightarrow> legacy_click_all env sel scope b = Some y"])
  show "option.admissible (\<lambda>f. \<forall>env sel scope b y.
          curry (curry (curry f)) env sel scope b = Some y \<longrightarrow> legacy_click_all env sel scope b = Some y)"
    using option_admissible[where P = "\<lambda>x y. case x of (((env, sel), scope), b) \<Rightarrow> legacy_click_all env sel scope b = Some y"]
    by (simp add: split_paired_All)
next
  fix f assume IH: "\<forall>env sel scope b y. f env sel scope b = Some y \<longrightarrow> legacy_click_all env sel scope b = Some y"
  show "\<forall>env sel scope b y. (case helper_get_element env sel True scope b of
        (Inl e, b') \<Rightarrow> Some (Inl e, b')
      | (Inr None, b') \<Rightarrow> Some (Inr (), b')
      | (Inr (Some e), b') \<Rightarrow>
          (case element_click env (node_eid e) b' of
             (Inl err, b'') \<Rightarrow> Some (Inl err, b'')
           | (Inr _, b'') \<Rightarrow> f env sel (Some (node_eid e)) (log [ClickWait] b''))) = Some y
        \<longrightarrow> legacy_click_all env sel scope b = Some y"
    using IH by (auto split: prod.splits sum.splits option.splits
        intro: legacy_click_all.simps[unfolded legacy_get_element_eq, THEN trans])
qed simp

lemma legacy_click_all_eq: "legacy_click_all = click_all"
proof (intro ext)
  fix env sel scope b
  show "legacy_click_all env sel scope b = click_all env sel scope b"
  proof (cases "legacy_click_all env sel scope b")
    case None
    show ?thesis
    proof (cases "click_all env sel scope b")
      case (Some y)
      then have "legacy_click_all env sel scope b = Some y" by (rule legacy_of_click_all[rule_format])
      with None show ?thesis by simp
    qed (use None in simp)
  next
    case (Some y)
    then have "click_all env sel scope b = Some y" by (rule click_all_of_legacy[rule_format])
    with Some show ?thesis by simp
  qed
qed


text \<open>The legacy element access agrees with selenium.py on an element, and raises
  AttributeError where selenium.py returns None for a missing one; the two
  convert_to_relative_url are the same function.\<close>

lemma legacy_element_access_equiv:
  "legacy_get_text (Some e) = Inr (get_text_of e) \<and> legacy_get_href (Some e) = Inr (get_href e)
   \<and> legacy_get_value (Some e) = Inr (get_value_attr e)
   \<and> legacy_get_text None = Inl AttributeError \<and> get_text None = None
   \<and> legacy_get_href None = Inl AttributeError \<and> legacy_get_value None = Inl AttributeError
   \<and> legacy_convert_to_relative_url = convert_to_relative_url"
  by (simp add: legacy_get_text_def get_text_of_def legacy_get_href_def get_href_def legacy_get_value_def
      get_value_attr_def get_text_def legacy_convert_to_relative_url_def convert_to_relative_url_def fun_eq_iff)

text \<open>The legacy get_selenium requires LBRC_SELENIUM_BASE_URL: without it, it raises
  KeyError, where get_selenium of selenium.py defaults BASE_URL to the empty text.\<close>

theorem legacy_get_selenium_requires_base_url:
  assumes "map_of env ''LBRC_SELENIUM_DOWNLOAD_DIRECTORY'' \<noteq> None" and "map_of env ''LBRC_SELENIUM_BASE_URL'' = None"
  shows "legacy_get_selenium to_float of_num env = Inl KeyError"
  using assms by (auto simp: legacy_get_selenium_def dict_get_def)

theorem legacy_get_selenium_requires_base_url_witness:
  "legacy_get_selenium demo_float (\<lambda>n. nat_str n) [(''LBRC_SELENIUM_DOWNLOAD_DIRECTORY'', ''/tmp/d'')] = Inl KeyError
   \<and> get_selenium demo_float (\<lambda>n. nat_str n) demo_environ \<noteq> Inl KeyError"
proof -
  have "legacy_get_selenium demo_float (\<lambda>n. nat_str n) [(''LBRC_SELENIUM_DOWNLOAD_DIRECTORY'', ''/tmp/d'')] = Inl KeyError"
    by (rule legacy_get_selenium_requires_base_url) simp_all
  moreover have "get_selenium demo_float (\<lambda>n. nat_str n) demo_environ \<noteq> Inl KeyError"
    by (simp add: py_eval dict_get_def)
  ultimately show ?thesis by blast
qed

text \<open>The helpers the legacy module repeats are those of selenium.py: the
  selectors, get_element, get_elements, get_parent, type_in_textbox, click_element,
  click_all, normalise_text, get_innerHtml, wait_to_appear, wait_to_disappear,
  _clear_directory, unzip_download_directory_contents and, given the address,
  email_screenshot.\<close>

lemma legacy_helpers_equiv:
  "legacy_CssSelector = CssSelector \<and> legacy_XpathSelector = XpathSelector
   \<and> legacy_get_element = helper_get_element \<and> legacy_get_elements = get_elements
   \<and> legacy_get_parent = get_parent \<and> legacy_type_in_textbox = type_in_textbox
   \<and> legacy_click_element = click_element \<and> legacy_click_all = click_all
   \<and> legacy_normalise_text = normalise_text \<and> legacy_get_innerHtml = get_innerHtml
   \<and> legacy_wait_to_appear = wait_to_appear \<and> legacy_wait_to_disappear = wait_to_disappear
   \<and> legacy_clear_directory = clear_directory
   \<and> legacy_unzip_download_directory_contents = unzip_download_directory_contents
   \<and> legacy_email_screenshot = email_screenshot"
  by (simp add: legacy_click_all_eq legacy_get_element_eq fun_eq_iff legacy_CssSelector_def CssSelector_def
      legacy_XpathSelector_def XpathSelector_def legacy_get_elements_def get_elements_def legacy_get_parent_def
      get_parent_def legacy_type_in_textbox_def type_in_textbox_def legacy_click_element_def click_element_def
      legacy_normalise_text_def normalise_text_def legacy_get_innerHtml_def get_innerHtml_def
      legacy_wait_to_appear_def wait_to_appear_def legacy_wait_to_disappear_def wait_to_disappear_def
      legacy_clear_directory_def clear_directory_def legacy_unzip_download_directory_contents_def
      unzip_download_directory_contents_def legacy_email_screenshot_def email_screenshot_def screenshot_mail_def)

text \<open>C15: a page that opens an alert on load makes the legacy get raise
  UnexpectedAlertPresentException: its wait lets every exception but
  NoSuchElementException through. get of selenium.py catches it and returns once the
  page has a body.\<close>

theorem legacy_get_alert:
  assumes "\<not> alert b" and "load env (urljoin env base url) = (d, True)"
  shows "legacy_get env tick over base url b
           = (Inl UnexpectedAlertPresentException,
              b\<lparr>document := d, alert := False, events := events b @ [Navigate (urljoin env base url)]\<rparr>)
         \<and> (find_all env d (CssSelector ''body'') d \<noteq> [] \<longrightarrow> fst (helper_get env base url b) = Inr ())"
proof
  let ?b = "b\<lparr>document := d, alert := True, events := events b @ [Navigate (urljoin env base url)]\<rparr>"
  have nav: "navigate env (urljoin env base url) b = (Inr (), ?b)"
    using assms by (simp add: navigate_def)
  have "helper_get_element env (legacy_CssSelector ''body'') False None ?b
          = (Inl UnexpectedAlertPresentException, ?b\<lparr>alert := False\<rparr>)"
    by (simp add: helper_get_element_def)
  then have "wait_to_appear env tick over (legacy_CssSelector ''body'') None 10 ?b
               = (Inl UnexpectedAlertPresentException, ?b\<lparr>alert := False\<rparr>)"
    unfolding wait_to_appear_def by (rule wait_until_error) simp
  then show "legacy_get env tick over base url b
           = (Inl UnexpectedAlertPresentException,
              b\<lparr>document := d, alert := False, events := events b @ [Navigate (urljoin env base url)]\<rparr>)"
    using nav by (simp add: legacy_get_def cmd_bind_def)
  show "find_all env d (CssSelector ''body'') d \<noteq> [] \<longrightarrow> fst (helper_get env base url b) = Inr ()"
    using nav body_checks_found[of env ?b 20] by (simp add: helper_get_def cmd_bind_def)
qed

theorem legacy_get_alert_witness:
  "legacy_get demo_env_alert id (\<lambda>j. 0) ''http://host/'' ''page'' demo_browser
     = (Inl UnexpectedAlertPresentException,
        demo_browser\<lparr>document := demo_buttons_page, alert := False, events := [Navigate ''http://host/page'']\<rparr>)
   \<and> find_all demo_env_alert demo_buttons_page (CssSelector ''body'') demo_buttons_page \<noteq> []
   \<and> fst (helper_get demo_env_alert ''http://host/'' ''page'' demo_browser) = Inr ()"
proof -
  have "\<not> alert demo_browser" by (simp add: demo_browser_def)
  moreover have "load demo_env_alert (urljoin demo_env_alert ''http://host/'' ''page'') = (demo_buttons_page, True)"
    by (simp add: demo_env_alert_def demo_env_def)
  moreover have "find_all demo_env_alert demo_buttons_page (CssSelector ''body'') demo_buttons_page \<noteq> []"
    by (simp add: demo_env_alert_def interaction_eval py_eval)
  ultimately show ?thesis
    using legacy_get_alert[of demo_browser demo_env_alert "''http://host/''" "''page''" demo_buttons_page id "\<lambda>j. 0"]
    by (simp add: demo_env_alert_def demo_env_def demo_browser_def)
qed

end
