(* ===== verification/Packaging.thy ===== *)
theory Packaging
  imports Prelude
begin

text \<open>
  The distribution src/setup.py describes, and the third-party modules the package
  imports. \<open>setup()\<close> is \<open>distutils.core.setup\<close>, whose keywords are the metadata
  below; \<open>install_requires\<close> is a keyword of setuptools that distutils does not know:
  it warns \<open>Unknown distribution option\<close> and keeps no requirement.
\<close>

record distribution =
  dist_name :: string
  dist_version :: string
  description :: string
  author :: string
  author_email :: string
  dist_url :: string
  packages :: "string list"
  install_requires :: "string list"

definition setup_py :: distribution where
  "setup_py =
     \<lparr>dist_name = ''lbrc_selenium'', dist_version = ''1.0'', description = ''NIHR Leicester BRC Selenium Helper'',
      author = ''Richard Bramley'', author_email = ''rabramley@gmail.com'',
      dist_url = ''https://github.com/LCBRU/lbrc_selenium/'', packages = [''lbrc_selenium''],
      install_requires = [''selenium'']\<rparr>"

text \<open>The requirements an installation made with \<open>distutils.core.setup\<close> declares.\<close>

definition distutils_requirements :: "distribution \<Rightarrow> string list" where
  "distutils_requirements d = []"

text \<open>The top-level third-party modules src/lbrc_selenium/selenium.py imports:
  \<open>selenium\<close> (its \<open>webdriver\<close>, options, capabilities, \<open>By\<close>, exceptions and
  \<open>WebDriverWait\<close>) and \<open>packaging\<close> (\<open>from packaging import version\<close>); the other
  imports are of the standard library.\<close>

definition third_party_imports :: "string list" where
  "third_party_imports = [''selenium'', ''packaging'']"

lemma setup_py_missing_requirements:
  "''packaging'' \<in> set third_party_imports \<and> ''packaging'' \<notin> set (install_requires setup_py)
   \<and> set third_party_imports \<inter> set (distutils_requirements setup_py) = {}"
  by (simp add: third_party_imports_def setup_py_def distutils_requirements_def)

end
