(* ===== verification/Pep440.thy ===== *)
theory Pep440
  imports Version "HOL-Library.Product_Lexorder"
begin

text \<open>
  The version library the code imports, \<open>packaging.version\<close>, in full: the PEP 440
  grammar its \<open>VERSION_PATTERN\<close> accepts (epoch, release, pre-, post- and
  dev-release, local segment, any letter case, the alternative spellings and
  separators), the normalised \<open>_Version\<close> tuple \<open>Version.__init__\<close> builds from
  the match, the comparison key \<open>_cmpkey\<close> with the \<open>Infinity\<close> and
  \<open>NegativeInfinity\<close> objects of \<open>packaging._structures\<close>, and \<open>__str__\<close>.
  The library is not part of the repository; it is modelled from its own source.
\<close>

section \<open>Infinity and NegativeInfinity\<close>

text \<open>\<open>packaging._structures\<close>: \<open>NegativeInfinity\<close> is below and \<open>Infinity\<close>
  above every other value; each is equal only to itself. \<open>Fin x\<close> is an ordinary
  value \<open>x\<close>.\<close>

datatype 'a ext = NegativeInfinity | Fin 'a | Infinity

instantiation ext :: (linorder) linorder
begin

fun less_eq_ext :: "'a ext \<Rightarrow> 'a ext \<Rightarrow> bool" where
  "less_eq_ext NegativeInfinity y = True"
| "less_eq_ext (Fin a) NegativeInfinity = False"
| "less_eq_ext (Fin a) (Fin b) = (a \<le> b)"
| "less_eq_ext (Fin a) Infinity = True"
| "less_eq_ext Infinity y = (y = Infinity)"

definition less_ext :: "'a ext \<Rightarrow> 'a ext \<Rightarrow> bool" where
  "less_ext x y \<longleftrightarrow> x \<le> y \<and> \<not> y \<le> x"

instance
proof
  fix x y z :: "'a ext"
  show "x < y \<longleftrightarrow> x \<le> y \<and> \<not> y \<le> x" by (rule less_ext_def)
  show "x \<le> x" by (cases x) simp_all
  show "x \<le> y \<Longrightarrow> y \<le> z \<Longrightarrow> x \<le> z"
    by (cases x; cases y; cases z) auto
  show "x \<le> y \<Longrightarrow> y \<le> x \<Longrightarrow> x = y"
    by (cases x; cases y) auto
  show "x \<le> y \<or> y \<le> x"
    by (cases x; cases y) auto
qed

end

section \<open>The normalised version\<close>

text \<open>A segment of the local version: \<open>int(part)\<close> when the part is all digits,
  \<open>part.lower()\<close> otherwise.\<close>

datatype local_seg = LInt nat | LStr string

text \<open>\<open>_Version(epoch, release, pre, post, dev, local)\<close>: \<open>pre\<close>, \<open>post\<close> and
  \<open>dev\<close> are the \<open>(letter, number)\<close> pairs \<open>_parse_letter_version\<close> returns.\<close>

record pep_version =
  pep_epoch :: nat
  pep_release :: "nat list"
  pep_pre :: "(string \<times> nat) option"
  pep_post :: "(string \<times> nat) option"
  pep_dev :: "(string \<times> nat) option"
  pep_local :: "local_seg list option"

section \<open>Parsing\<close>

definition is_sep :: "char \<Rightarrow> bool" where
  "is_sep c \<longleftrightarrow> c = CHR ''-'' \<or> c = CHR ''_'' \<or> c = CHR ''.''"

text \<open>\<open>[-_\.]?\<close>, taken when present (the greedy choice of the regular
  expression).\<close>

definition opt_sep :: "string \<Rightarrow> string" where
  "opt_sep s = (case s of c # r \<Rightarrow> if is_sep c then r else s | [] \<Rightarrow> [])"

text \<open>\<open>re.IGNORECASE\<close> on ASCII letters.\<close>

definition ascii_lower :: "char \<Rightarrow> char" where
  "ascii_lower c = (if 65 \<le> (of_char c :: nat) \<and> (of_char c :: nat) \<le> 90 then char_of (of_char c + 32 :: nat) else c)"

definition is_alnum :: "char \<Rightarrow> bool" where
  "is_alnum c \<longleftrightarrow> is_digit c \<or> ((97 :: nat) \<le> of_char (ascii_lower c) \<and> (of_char (ascii_lower c) :: nat) \<le> 122)"

text \<open>A literal of the pattern at the front of the string, letter case ignored.\<close>

fun prefix_ci :: "string \<Rightarrow> string \<Rightarrow> bool" where
  "prefix_ci [] s = True"
| "prefix_ci (x # l) [] = False"
| "prefix_ci (x # l) (c # s) = (ascii_lower c = x \<and> prefix_ci l s)"

text \<open>A label of an alternation at the front of the string: the first alternative
  that matches, and the rest of the string.\<close>

fun match_label :: "string list \<Rightarrow> string \<Rightarrow> (string \<times> string) option" where
  "match_label [] s = None"
| "match_label (l # ls) s = (if prefix_ci l s then Some (l, drop (length l) s) else match_label ls s)"

text \<open>\<open>[0-9]+\<close> read greedily, as \<open>int()\<close> reads it.\<close>

definition digits_prefix :: "string \<Rightarrow> string \<times> string" where
  "digits_prefix s = (takeWhile is_digit s, dropWhile is_digit s)"

text \<open>\<open>(?:(?P<epoch>[0-9]+)!)?\<close>: the epoch is \<open>0\<close> when the group is absent.\<close>

definition parse_epoch :: "string \<Rightarrow> nat \<times> string" where
  "parse_epoch s =
     (case digits_prefix s of
        (ds, c # r) \<Rightarrow> if ds \<noteq> [] \<and> c = CHR ''!'' then (digits_val ds, r) else (0, s)
      | (ds, []) \<Rightarrow> (0, s))"

text \<open>\<open>(?:\.[0-9]+)*\<close> after the first number of the release.\<close>

function (sequential) release_tail :: "string \<Rightarrow> nat list \<times> string" where
  "release_tail (c # d # r) =
     (if c = CHR ''.'' \<and> is_digit d
      then (case release_tail (dropWhile is_digit (d # r)) of
              (ns, rest) \<Rightarrow> (digits_val (takeWhile is_digit (d # r)) # ns, rest))
      else ([], c # d # r))"
| "release_tail s = ([], s)"
  by pat_completeness auto
termination
proof (relation "measure length")
  fix c d r
  have "length (dropWhile is_digit (d # r)) \<le> length (d # r)" by (rule length_dropWhile_le)
  then show "(dropWhile is_digit (d # r), c # d # r) \<in> measure length" by simp
qed simp

definition parse_release_seg :: "string \<Rightarrow> (nat list \<times> string) option" where
  "parse_release_seg s =
     (case digits_prefix s of
        ([], _) \<Rightarrow> None
      | (ds, r) \<Rightarrow> (case release_tail r of (ns, rest) \<Rightarrow> Some (digits_val ds # ns, rest)))"

text \<open>\<open>_parse_letter_version\<close>: the letter lower-cased and spelled canonically,
  a missing number read as \<open>0\<close>.\<close>

definition canonical_letter :: "string \<Rightarrow> string" where
  "canonical_letter l =
     (if l = ''alpha'' then ''a'' else if l = ''beta'' then ''b''
      else if l \<in> {''c'', ''pre'', ''preview''} then ''rc''
      else if l \<in> {''rev'', ''r''} then ''post'' else l)"

text \<open>\<open>[-_\.]?(?P<l>labels)[-_\.]?(?P<n>[0-9]+)?\<close>, used by the pre-, post-
  and dev-release groups; \<open>None\<close> and the string unchanged when the label is
  missing.\<close>

definition parse_letter :: "string list \<Rightarrow> string \<Rightarrow> (string \<times> nat) option \<times> string" where
  "parse_letter labels s =
     (case match_label labels (opt_sep s) of
        None \<Rightarrow> (None, s)
      | Some (l, r) \<Rightarrow>
          (case digits_prefix (opt_sep r) of (ds, rest) \<Rightarrow> (Some (canonical_letter l, digits_val ds), rest)))"

definition pre_labels :: "string list" where
  "pre_labels = [''alpha'', ''a'', ''beta'', ''b'', ''preview'', ''pre'', ''c'', ''rc'']"

definition post_labels :: "string list" where
  "post_labels = [''post'', ''rev'', ''r'']"

text \<open>The post-release group: the implicit form \<open>-(?P<post_n1>[0-9]+)\<close> first,
  then the spelled-out form.\<close>

definition parse_post :: "string \<Rightarrow> (string \<times> nat) option \<times> string" where
  "parse_post s =
     (case s of
        c # r \<Rightarrow> (case digits_prefix r of
                     (ds, rest) \<Rightarrow> if c = CHR ''-'' \<and> ds \<noteq> [] then (Some (''post'', digits_val ds), rest)
                                   else parse_letter post_labels s)
      | [] \<Rightarrow> (None, []))"

text \<open>\<open>[a-z0-9]+(?:[-_\.][a-z0-9]+)*\<close> split at the separators
  (\<open>_local_version_separators.split\<close>), each part converted.\<close>

fun split_seps :: "string \<Rightarrow> string \<Rightarrow> string list" where
  "split_seps [] w = [rev w]"
| "split_seps (c # cs) w = (if is_sep c then rev w # split_seps cs [] else split_seps cs (c # w))"

definition local_part :: "string \<Rightarrow> local_seg" where
  "local_part p = (if (\<forall>c \<in> set p. is_digit c) then LInt (digits_val p) else LStr (map ascii_lower p))"

definition parse_local :: "string \<Rightarrow> local_seg list option py_result" where
  "parse_local s =
     (case s of
        [] \<Rightarrow> Inr None
      | c # r \<Rightarrow>
          (let ps = split_seps r []
           in if c = CHR ''+'' \<and> (\<forall>p \<in> set ps. p \<noteq> [] \<and> (\<forall>x \<in> set p. is_alnum x))
              then Inr (Some (map local_part ps)) else Inl InvalidVersion))"

text \<open>
  \<^verbatim>\<open>
  _regex = re.compile(r"^\s*" + VERSION_PATTERN + r"\s*$", re.VERBOSE | re.IGNORECASE)
  match = self._regex.search(version)
  if not match:
      raise InvalidVersion(f"Invalid version: '{version}'")
  \<close>
  Surrounding whitespace, then an optional \<open>v\<close>, then the groups in the order of
  the pattern; the match fails unless the groups reach the end of the string.
\<close>

definition pep_parse :: "string \<Rightarrow> pep_version py_result" where
  "pep_parse s =
     (let t = py_strip s;
          u = (case t of c # r \<Rightarrow> if ascii_lower c = CHR ''v'' then r else t | [] \<Rightarrow> []);
          (ep, u1) = parse_epoch u
      in case parse_release_seg u1 of
           None \<Rightarrow> Inl InvalidVersion
         | Some (rel, u2) \<Rightarrow>
             (case parse_letter pre_labels u2 of
                (pr, u3) \<Rightarrow> (case parse_post u3 of
                  (po, u4) \<Rightarrow> (case parse_letter [''dev''] u4 of
                    (dv, u5) \<Rightarrow> py_bind (parse_local u5) (\<lambda>lc.
                      Inr \<lparr>pep_epoch = ep, pep_release = rel, pep_pre = pr, pep_post = po,
                           pep_dev = dv, pep_local = lc\<rparr>)))))"

section \<open>The comparison key\<close>

text \<open>\<open>_cmpkey\<close>: trailing zeros of the release dropped; a version with only a
  dev segment sorts before its pre-releases; no pre-release sorts after every
  pre-release, no post-release before every post-release, no dev-release after every
  dev-release; no local segment before every local segment, whose parts compare as
  \<open>(i, "")\<close> for an integer and \<open>(NegativeInfinity, s)\<close> for a string.\<close>

type_synonym pep_key =
  "nat \<times> nat list \<times> (string \<times> nat) ext \<times> (string \<times> nat) ext \<times> (string \<times> nat) ext
     \<times> ((nat ext \<times> string) list) ext"

definition local_key :: "local_seg \<Rightarrow> nat ext \<times> string" where
  "local_key p = (case p of LInt i \<Rightarrow> (Fin i, []) | LStr s \<Rightarrow> (NegativeInfinity, s))"

definition pep_key :: "pep_version \<Rightarrow> pep_key" where
  "pep_key v =
     (pep_epoch v,
      rev (dropWhile (\<lambda>n. n = 0) (rev (pep_release v))),
      (case pep_pre v of
         None \<Rightarrow> if pep_post v = None \<and> pep_dev v \<noteq> None then NegativeInfinity else Infinity
       | Some p \<Rightarrow> Fin p),
      (case pep_post v of None \<Rightarrow> NegativeInfinity | Some p \<Rightarrow> Fin p),
      (case pep_dev v of None \<Rightarrow> Infinity | Some d \<Rightarrow> Fin d),
      (case pep_local v of None \<Rightarrow> NegativeInfinity | Some ls \<Rightarrow> Fin (map local_key ls)))"

section \<open>Printing\<close>

definition local_seg_str :: "local_seg \<Rightarrow> string" where
  "local_seg_str p = (case p of LInt i \<Rightarrow> nat_str i | LStr s \<Rightarrow> s)"

text \<open>
  \<^verbatim>\<open>
  def __str__(self):
      parts = []
      if self.epoch != 0: parts.append(f"{self.epoch}!")
      parts.append(".".join(str(x) for x in self.release))
      if self.pre is not None: parts.append("".join(str(x) for x in self.pre))
      if self.post is not None: parts.append(f".post{self.post}")
      if self.dev is not None: parts.append(f".dev{self.dev}")
      if self.local is not None: parts.append(f"+{self.local}")
      return "".join(parts)
  \<close>
\<close>

definition pep_str :: "pep_version \<Rightarrow> string" where
  "pep_str v =
     (if pep_epoch v \<noteq> 0 then nat_str (pep_epoch v) @ ''!'' else [])
     @ py_join ''.'' (map nat_str (pep_release v))
     @ (case pep_pre v of None \<Rightarrow> [] | Some (l, n) \<Rightarrow> l @ nat_str n)
     @ (case pep_post v of None \<Rightarrow> [] | Some (_, n) \<Rightarrow> ''.post'' @ nat_str n)
     @ (case pep_dev v of None \<Rightarrow> [] | Some (_, n) \<Rightarrow> ''.dev'' @ nat_str n)
     @ (case pep_local v of None \<Rightarrow> [] | Some ls \<Rightarrow> ''+'' @ py_join ''.'' (map local_seg_str ls))"

section \<open>The version lookups with packaging.version\<close>

text \<open>\<open>get_compare_version_item\<close> and \<open>get_version_item\<close> of
  src/lbrc_selenium/selenium.py with the library they call.\<close>

definition get_compare_version_item_pep :: "string \<Rightarrow> (string, 'a) pydict \<Rightarrow> 'a py_result" where
  "get_compare_version_item_pep = get_compare_version_item_with pep_parse pep_key"

definition get_version_item_pep :: "string \<Rightarrow> (string, 'a) pydict \<Rightarrow> 'a py_result" where
  "get_version_item_pep = get_version_item_with pep_parse pep_key pep_str"

section \<open>Release-only versions and well-formed versions\<close>

text \<open>A release-only version of Version.thy as a PEP 440 version.\<close>

definition pep_of_version :: "version \<Rightarrow> pep_version" where
  "pep_of_version v =
     \<lparr>pep_epoch = 0, pep_release = release v, pep_pre = None, pep_post = None, pep_dev = None,
      pep_local = None\<rparr>"

text \<open>The versions \<open>Version.__init__\<close> can build: a non-empty release, the
  canonical letters, and local segments whose string parts are lower-case letters and
  digits, not all digits.\<close>

definition wf_local_seg :: "local_seg \<Rightarrow> bool" where
  "wf_local_seg p =
     (case p of LInt i \<Rightarrow> True
      | LStr s \<Rightarrow> s \<noteq> [] \<and> (\<forall>c \<in> set s. is_alnum c \<and> ascii_lower c = c) \<and> \<not> (\<forall>c \<in> set s. is_digit c))"

definition wf_pep :: "pep_version \<Rightarrow> bool" where
  "wf_pep v \<longleftrightarrow>
     pep_release v \<noteq> []
     \<and> (case pep_pre v of None \<Rightarrow> True | Some (l, _) \<Rightarrow> l \<in> {''a'', ''b'', ''rc''})
     \<and> (case pep_post v of None \<Rightarrow> True | Some (l, _) \<Rightarrow> l = ''post'')
     \<and> (case pep_dev v of None \<Rightarrow> True | Some (l, _) \<Rightarrow> l = ''dev'')
     \<and> (case pep_local v of None \<Rightarrow> True | Some ls \<Rightarrow> ls \<noteq> [] \<and> (\<forall>p \<in> set ls. wf_local_seg p))"

text \<open>The beginnings of the text that follows each part of a printed version, used
  to show that each stage of the parser stops where the next part begins.\<close>

definition digit_free_start :: "string \<Rightarrow> bool" where
  "digit_free_start r \<longleftrightarrow> r = [] \<or> \<not> is_digit (hd r)"

definition local_start :: "string \<Rightarrow> bool" where
  "local_start L \<longleftrightarrow> L = [] \<or> hd L = CHR ''+''"

definition dev_start :: "string \<Rightarrow> bool" where
  "dev_start X \<longleftrightarrow> local_start X \<or> (\<exists>r. X = ''.dev'' @ r)"

definition post_start :: "string \<Rightarrow> bool" where
  "post_start X \<longleftrightarrow> dev_start X \<or> (\<exists>r. X = ''.post'' @ r)"

definition pre_start :: "string \<Rightarrow> bool" where
  "pre_start Y \<longleftrightarrow> post_start Y \<or> (\<exists>c r. Y = c # r \<and> c \<in> {CHR ''a'', CHR ''b'', CHR ''r''})"

declare pep_parse_def [py_eval] parse_epoch_def [py_eval] digits_prefix_def [py_eval]
  parse_release_seg_def [py_eval] parse_letter_def [py_eval] opt_sep_def [py_eval] is_sep_def [py_eval]
  ascii_lower_def [py_eval] pre_labels_def [py_eval] post_labels_def [py_eval] canonical_letter_def [py_eval]
  parse_post_def [py_eval] parse_local_def [py_eval] local_part_def [py_eval] is_alnum_def [py_eval]
  pep_key_def [py_eval] local_key_def [py_eval] pep_str_def [py_eval] local_seg_str_def [py_eval]
  get_version_item_pep_def [py_eval] get_compare_version_item_pep_def [py_eval] pep_of_version_def [py_eval]

section \<open>Lemmas: the stages of the parser on printed text\<close>

lemma nat_str_Cons: "\<exists>d ds. nat_str n = d # ds \<and> is_digit d \<and> (\<forall>c \<in> set ds. is_digit c)"
  using nat_str_props [of n] by (cases "nat_str n") auto

lemma is_digit_lower: "is_digit c \<Longrightarrow> ascii_lower c = c"
  by (simp add: is_digit_def ascii_lower_def)

lemma digit_lower_ne: "is_digit d \<Longrightarrow> \<not> is_digit c \<Longrightarrow> (ascii_lower d = c) = False"
  by (auto simp: is_digit_lower)

lemma is_digit_not_sep: "is_digit d \<Longrightarrow> \<not> is_sep d"
  by (auto simp: is_digit_def is_sep_def)

lemma ascii_lower_other: "\<not> (65 \<le> (of_char c :: nat) \<and> (of_char c :: nat) \<le> 90) \<Longrightarrow> ascii_lower c = c"
  unfolding ascii_lower_def by (rule if_not_P)

lemma digits_prefix_digits:
  assumes "\<forall>c \<in> set ds. is_digit c" and "digit_free_start r"
  shows "digits_prefix (ds @ r) = (ds, r)"
proof -
  have "takeWhile is_digit r = [] \<and> dropWhile is_digit r = r"
    using assms(2) by (cases r) (auto simp: digit_free_start_def)
  with assms(1) show ?thesis
    by (simp add: digits_prefix_def takeWhile_append2 dropWhile_append2)
qed

lemma digits_prefix_nat_str:
  "digit_free_start r \<Longrightarrow> digits_prefix (nat_str n @ r) = (nat_str n, r)"
  using nat_str_props [of n] by (intro digits_prefix_digits) auto

lemma parse_letter_nat_str:
  assumes "match_label labels (opt_sep s) = Some (l, nat_str n @ r)" and "digit_free_start r"
  shows "parse_letter labels s = (Some (canonical_letter l, n), r)"
proof -
  obtain d ds where "nat_str n = d # ds" "is_digit d" using nat_str_Cons by blast
  then have "opt_sep (nat_str n @ r) = nat_str n @ r" by (simp add: opt_sep_def is_digit_not_sep)
  with assms digits_prefix_nat_str [OF assms(2)] nat_str_props [of n] show ?thesis
    by (simp add: parse_letter_def)
qed

lemma match_post_label:
  "match_label post_labels (opt_sep (''.post'' @ s)) = Some (''post'', s)"
  by (simp add: post_labels_def opt_sep_def is_sep_def ascii_lower_def)

lemma match_dev_label:
  "match_label [''dev''] (opt_sep (''.dev'' @ s)) = Some (''dev'', s)"
  by (simp add: opt_sep_def is_sep_def ascii_lower_def)

lemma not_digit_le: "\<not> is_digit (CHR ''l'')" "\<not> is_digit (CHR ''e'')"
  by (simp_all add: is_digit_def)

lemma match_pre_label:
  assumes "l \<in> {''a'', ''b'', ''rc''}"
  shows "match_label pre_labels (opt_sep (l @ nat_str n @ r)) = Some (l, nat_str n @ r)"
proof -
  obtain d ds where d: "nat_str n = d # ds" "is_digit d" using nat_str_Cons by blast
  from assms consider "l = ''a''" | "l = ''b''" | "l = ''rc''" by blast
  then show ?thesis
    by cases (simp_all add: d pre_labels_def opt_sep_def is_sep_def ascii_lower_other digit_lower_ne not_digit_le)
qed

lemma local_start_cases: "local_start L \<Longrightarrow> L = [] \<or> (\<exists>r. L = CHR ''+'' # r)"
  by (cases L) (auto simp: local_start_def)

lemma local_start_digit_free: "local_start L \<Longrightarrow> digit_free_start L"
  by (auto simp: local_start_def digit_free_start_def is_digit_def)

lemma parse_dev_str:
  assumes "case dv of None \<Rightarrow> True | Some (l, _) \<Rightarrow> l = ''dev''" and "local_start L"
  shows "parse_letter [''dev''] ((case dv of None \<Rightarrow> [] | Some (_, n) \<Rightarrow> ''.dev'' @ nat_str n) @ L) = (dv, L)"
proof (cases dv)
  case None
  from local_start_cases [OF assms(2)] show ?thesis
    by (auto simp: None parse_letter_def opt_sep_def is_sep_def ascii_lower_other)
next
  case (Some p)
  with assms(1) obtain n where "dv = Some (''dev'', n)" by (cases p) auto
  moreover have "match_label [''dev''] (opt_sep (''.dev'' @ nat_str n @ L)) = Some (''dev'', nat_str n @ L)"
    by (rule match_dev_label)
  ultimately show ?thesis
    using parse_letter_nat_str local_start_digit_free [OF assms(2)] by (simp add: canonical_letter_def)
qed

lemma dev_start_digit_free: "dev_start X \<Longrightarrow> digit_free_start X"
  unfolding dev_start_def
proof (elim disjE exE)
  show "local_start X \<Longrightarrow> digit_free_start X" by (rule local_start_digit_free)
  show "X = ''.dev'' @ r \<Longrightarrow> digit_free_start X" for r by (simp add: digit_free_start_def is_digit_def)
qed

lemma dev_start_str:
  "local_start L \<Longrightarrow> dev_start ((case dv of None \<Rightarrow> [] | Some (_, n) \<Rightarrow> ''.dev'' @ nat_str n) @ L)"
  by (cases dv) (auto simp: dev_start_def)

lemma parse_post_str:
  assumes "case po of None \<Rightarrow> True | Some (l, _) \<Rightarrow> l = ''post''" and "dev_start X"
  shows "parse_post ((case po of None \<Rightarrow> [] | Some (_, n) \<Rightarrow> ''.post'' @ nat_str n) @ X) = (po, X)"
proof (cases po)
  case None
  from assms(2) consider "X = []" | r where "X = CHR ''+'' # r" | r where "X = ''.dev'' @ r"
    unfolding dev_start_def using local_start_cases by blast
  then show ?thesis
    by cases (simp_all add: None parse_post_def parse_letter_def post_labels_def opt_sep_def is_sep_def
                ascii_lower_other digits_prefix_def is_digit_def)
next
  case (Some p)
  with assms(1) obtain n where po: "po = Some (''post'', n)" by (cases p) auto
  have "parse_post (''.post'' @ nat_str n @ X) = parse_letter post_labels (''.post'' @ nat_str n @ X)"
    by (simp add: parse_post_def digits_prefix_def is_digit_def)
  moreover have "parse_letter post_labels (''.post'' @ nat_str n @ X) = (Some (''post'', n), X)"
    using parse_letter_nat_str [OF match_post_label dev_start_digit_free [OF assms(2)]]
    by (simp add: canonical_letter_def)
  ultimately show ?thesis by (simp add: po)
qed

lemma post_start_digit_free: "post_start X \<Longrightarrow> digit_free_start X"
  unfolding post_start_def
proof (elim disjE exE)
  show "dev_start X \<Longrightarrow> digit_free_start X" by (rule dev_start_digit_free)
  show "X = ''.post'' @ r \<Longrightarrow> digit_free_start X" for r by (simp add: digit_free_start_def is_digit_def)
qed

lemma post_start_str:
  "dev_start X \<Longrightarrow> post_start ((case po of None \<Rightarrow> [] | Some (_, n) \<Rightarrow> ''.post'' @ nat_str n) @ X)"
  by (cases po) (auto simp: post_start_def)

lemma parse_pre_str:
  assumes "case pr of None \<Rightarrow> True | Some (l, _) \<Rightarrow> l \<in> {''a'', ''b'', ''rc''}" and "post_start X"
  shows "parse_letter pre_labels ((case pr of None \<Rightarrow> [] | Some (l, n) \<Rightarrow> l @ nat_str n) @ X) = (pr, X)"
proof (cases pr)
  case None
  from assms(2) consider "X = []" | r where "X = CHR ''+'' # r" | r where "X = ''.dev'' @ r"
      | r where "X = ''.post'' @ r"
    unfolding post_start_def dev_start_def using local_start_cases by blast
  then show ?thesis
    by cases (simp_all add: None parse_letter_def pre_labels_def opt_sep_def is_sep_def ascii_lower_other)
next
  case (Some p)
  with assms(1) obtain l n where pr: "pr = Some (l, n)" and l: "l \<in> {''a'', ''b'', ''rc''}"
    by (cases p) auto
  have "canonical_letter l = l" using l by (auto simp: canonical_letter_def)
  with parse_letter_nat_str [OF match_pre_label [OF l] post_start_digit_free [OF assms(2)]]
  show ?thesis by (simp add: pr)
qed

lemma pre_start_str:
  assumes "case pr of None \<Rightarrow> True | Some (l, _) \<Rightarrow> l \<in> {''a'', ''b'', ''rc''}" and "post_start X"
  shows "pre_start ((case pr of None \<Rightarrow> [] | Some (l, n) \<Rightarrow> l @ nat_str n) @ X)"
  using assms by (cases pr) (auto simp: pre_start_def)

lemma pre_start_cases:
  assumes "pre_start Y"
  obtains "Y = []" | c r where "Y = c # r" "\<not> is_digit c" "c \<noteq> CHR ''.''" "c \<noteq> CHR ''!''"
    | r where "Y = ''.dev'' @ r" | r where "Y = ''.post'' @ r"
proof -
  from assms consider "post_start Y" | c r where "Y = c # r" "c \<in> {CHR ''a'', CHR ''b'', CHR ''r''}"
    unfolding pre_start_def by blast
  then show ?thesis
  proof cases
    case 1
    then consider "Y = []" | r where "Y = CHR ''+'' # r" | r where "Y = ''.dev'' @ r"
        | r where "Y = ''.post'' @ r"
      unfolding post_start_def dev_start_def using local_start_cases by blast
    then show ?thesis
    proof cases
      case (2 r)
      then show ?thesis by (rule that(2)) (simp_all add: is_digit_def)
    qed (fact that(1,3,4))+
  next
    case (2 c r)
    from 2(2) have "\<not> is_digit c" "c \<noteq> CHR ''.''" "c \<noteq> CHR ''!''" by (auto simp: is_digit_def)
    with 2(1) show ?thesis by (rule that(2))
  qed
qed

lemma release_tail_stop:
  assumes "pre_start Y"
  shows "release_tail Y = ([], Y)"
  using assms
proof (cases rule: pre_start_cases)
  case (2 c r)
  then show ?thesis by (cases r) simp_all
qed (simp_all add: is_digit_def)

lemma pre_start_digit_free: "pre_start Y \<Longrightarrow> digit_free_start Y"
  by (cases rule: pre_start_cases) (auto simp: digit_free_start_def is_digit_def)

lemma release_tail_join:
  assumes "\<forall>p \<in> set ps. p \<noteq> [] \<and> (\<forall>c \<in> set p. is_digit c)" and "pre_start Y"
  shows "release_tail (concat (map (\<lambda>p. CHR ''.'' # p) ps) @ Y) = (map digits_val ps, Y)"
  using assms(1)
proof (induction ps)
  case Nil
  then show ?case using release_tail_stop [OF assms(2)] by simp
next
  case (Cons p ps)
  from Cons.prems obtain d ds where p: "p = d # ds" "is_digit d" "\<forall>c \<in> set ds. is_digit c"
    by (cases p) auto
  let ?rest = "concat (map ((#) CHR ''.'') ps) @ Y"
  have df: "digit_free_start ?rest"
    using pre_start_digit_free [OF assms(2)] by (cases ps) (auto simp: digit_free_start_def is_digit_def)
  have tw: "takeWhile is_digit ?rest = []" "dropWhile is_digit ?rest = ?rest"
    using df by (cases ?rest; simp add: digit_free_start_def)+
  from Cons p show ?case by (simp add: tw)
qed

lemma py_join_Cons_concat: "py_join sep (w # ws) = w @ concat (map (\<lambda>v. sep @ v) ws)"
  by (induction ws arbitrary: w) simp_all

text \<open>A release printed as digit strings joined by dots, followed by the rest of a
  printed version.\<close>

lemma release_digits_split:
  assumes "ps \<noteq> []" and "\<forall>p \<in> set ps. p \<noteq> [] \<and> (\<forall>c \<in> set p. is_digit c)" and "pre_start Y"
  obtains p qs where "ps = p # qs" "py_join ''.'' ps @ Y = p @ concat (map ((#) CHR ''.'') qs) @ Y"
    "digits_prefix (py_join ''.'' ps @ Y) = (p, concat (map ((#) CHR ''.'') qs) @ Y)"
    "release_tail (concat (map ((#) CHR ''.'') qs) @ Y) = (map digits_val qs, Y)"
    "concat (map ((#) CHR ''.'') qs) @ Y = [] \<or> hd (concat (map ((#) CHR ''.'') qs) @ Y) \<noteq> CHR ''!''"
proof -
  from assms(1) obtain p qs where ps: "ps = p # qs" by (cases ps) auto
  let ?rest = "concat (map ((#) CHR ''.'') qs) @ Y"
  have df: "digit_free_start ?rest"
    using pre_start_digit_free [OF assms(3)] by (cases qs) (auto simp: digit_free_start_def is_digit_def)
  have j: "py_join ''.'' ps @ Y = p @ ?rest" by (simp add: ps py_join_Cons_concat)
  have "digits_prefix (p @ ?rest) = (p, ?rest)"
    using assms(2) df by (intro digits_prefix_digits) (auto simp: ps)
  moreover have "release_tail ?rest = (map digits_val qs, Y)"
    using assms(2,3) by (intro release_tail_join) (auto simp: ps)
  moreover have "?rest = [] \<or> hd ?rest \<noteq> CHR ''!''"
    using assms(3) by (cases qs) (auto elim: pre_start_cases)
  ultimately show ?thesis using that ps j by simp
qed

lemma parse_release_seg_digits:
  assumes "ps \<noteq> []" and "\<forall>p \<in> set ps. p \<noteq> [] \<and> (\<forall>c \<in> set p. is_digit c)" and "pre_start Y"
  shows "parse_release_seg (py_join ''.'' ps @ Y) = Some (map digits_val ps, Y)"
proof -
  obtain p qs where "ps = p # qs" "digits_prefix (py_join ''.'' ps @ Y) = (p, concat (map ((#) CHR ''.'') qs) @ Y)"
      "release_tail (concat (map ((#) CHR ''.'') qs) @ Y) = (map digits_val qs, Y)"
    using release_digits_split [OF assms] by metis
  with assms(2) show ?thesis by (cases p) (simp_all add: parse_release_seg_def)
qed

lemma parse_epoch_digits:
  assumes "ps \<noteq> []" and "\<forall>p \<in> set ps. p \<noteq> [] \<and> (\<forall>c \<in> set p. is_digit c)" and "pre_start Y"
  shows "parse_epoch (py_join ''.'' ps @ Y) = (0, py_join ''.'' ps @ Y)"
proof -
  obtain p qs where "digits_prefix (py_join ''.'' ps @ Y) = (p, concat (map ((#) CHR ''.'') qs) @ Y)"
      "concat (map ((#) CHR ''.'') qs) @ Y = [] \<or> hd (concat (map ((#) CHR ''.'') qs) @ Y) \<noteq> CHR ''!''"
    using release_digits_split [OF assms] by metis
  then show ?thesis by (cases "concat (map ((#) CHR ''.'') qs) @ Y") (auto simp: parse_epoch_def)
qed

lemma nat_str_digit_strings: "\<forall>p \<in> set (map nat_str ns). p \<noteq> [] \<and> (\<forall>c \<in> set p. is_digit c)"
  using nat_str_props by auto

lemma digits_val_nat_str: "digits_val (nat_str n) = n"
  using nat_str_props by simp

lemma split_seps_append:
  "\<forall>c \<in> set w. \<not> is_sep c \<Longrightarrow> split_seps (w @ s) acc = split_seps s (rev w @ acc)"
  by (induction w arbitrary: acc) auto

lemma split_seps_join:
  "ws \<noteq> [] \<Longrightarrow> \<forall>w \<in> set ws. \<forall>c \<in> set w. \<not> is_sep c \<Longrightarrow> split_seps (py_join ''.'' ws) [] = ws"
proof (induction "''.''" ws rule: py_join.induct)
  case (2 w)
  then show ?case using split_seps_append [of w "[]" "[]"] by simp
next
  case (3 w v ws)
  then show ?case
    using split_seps_append [of w "CHR ''.'' # py_join ''.'' (v # ws)" "[]"] by (simp add: is_sep_def)
qed simp

lemma is_alnum_not_sep: "is_alnum c \<Longrightarrow> \<not> is_sep c"
  by (auto simp: is_alnum_def is_sep_def is_digit_def ascii_lower_other)

lemma is_digit_alnum: "is_digit c \<Longrightarrow> is_alnum c"
  by (simp add: is_alnum_def)

lemma local_seg_str_props:
  assumes "wf_local_seg p"
  shows "local_seg_str p \<noteq> [] \<and> (\<forall>c \<in> set (local_seg_str p). is_alnum c) \<and> local_part (local_seg_str p) = p"
proof (cases p)
  case (LInt i)
  with nat_str_props [of i] show ?thesis
    by (auto simp: local_seg_str_def local_part_def is_digit_alnum)
next
  case (LStr s)
  with assms have "map ascii_lower s = s" by (simp add: wf_local_seg_def map_idI)
  with LStr assms show ?thesis by (auto simp: local_seg_str_def local_part_def wf_local_seg_def)
qed

lemma parse_local_str:
  assumes "case lc of None \<Rightarrow> True | Some ls \<Rightarrow> ls \<noteq> [] \<and> (\<forall>p \<in> set ls. wf_local_seg p)"
  shows "parse_local (case lc of None \<Rightarrow> [] | Some ls \<Rightarrow> ''+'' @ py_join ''.'' (map local_seg_str ls)) = Inr lc"
proof (cases lc)
  case (Some ls)
  with assms have ls: "ls \<noteq> []" "\<forall>p \<in> set ls. wf_local_seg p" by simp_all
  then have props: "\<forall>w \<in> set (map local_seg_str ls). w \<noteq> [] \<and> (\<forall>c \<in> set w. is_alnum c)"
    using local_seg_str_props by auto
  then have "split_seps (py_join ''.'' (map local_seg_str ls)) [] = map local_seg_str ls"
    using ls(1) is_alnum_not_sep by (intro split_seps_join) auto
  moreover have "map local_part (map local_seg_str ls) = ls"
    using ls(2) local_seg_str_props by (induction ls) auto
  ultimately show ?thesis using props by (simp add: Some parse_local_def)
qed (simp add: parse_local_def)

lemma is_alnum_not_space: "is_alnum c \<Longrightarrow> \<not> py_isspace c"
proof
  assume a: "is_alnum c" and s: "py_isspace c"
  from s have "of_char c \<in> {9, 10, 11, 12, 13, 28, 29, 30, 31, 32, 133, 160 :: nat}"
    by (simp add: py_isspace_def)
  then have "ascii_lower c = c" by (auto simp: ascii_lower_def)
  with a s show False by (auto simp: is_alnum_def is_digit_def py_isspace_def)
qed

lemma pep_str_chars:
  assumes "wf_pep v"
  shows "\<forall>c \<in> set (pep_str v). \<not> py_isspace c"
proof -
  have ns: "\<forall>c \<in> set (nat_str n). \<not> py_isspace c" for n
    using nat_str_props [of n] is_digit_alnum is_alnum_not_space by blast
  have rel: "\<forall>c \<in> set (py_join ''.'' (map nat_str (pep_release v))). \<not> py_isspace c"
    using set_py_join_sub [of "''.''" "map nat_str (pep_release v)"] ns by (auto simp: py_isspace_def)
  have pre: "\<forall>c \<in> set (case pep_pre v of None \<Rightarrow> [] | Some (l, n) \<Rightarrow> l @ nat_str n). \<not> py_isspace c"
    using assms ns by (auto simp: wf_pep_def py_isspace_def split: option.splits)
  have lc: "\<forall>c \<in> set (case pep_local v of None \<Rightarrow> [] | Some ls \<Rightarrow> ''+'' @ py_join ''.'' (map local_seg_str ls)).
              \<not> py_isspace c"
  proof (cases "pep_local v")
    case (Some ls)
    with assms have "\<forall>p \<in> set ls. wf_local_seg p" by (simp add: wf_pep_def)
    then have "\<forall>w \<in> set (map local_seg_str ls). \<forall>c \<in> set w. \<not> py_isspace c"
      using local_seg_str_props is_alnum_not_space by fastforce
    with Some show ?thesis
      using set_py_join_sub [of "''.''" "map local_seg_str ls"] by (auto simp: py_isspace_def)
  qed simp
  from rel pre lc ns show ?thesis
    by (auto simp: pep_str_def py_isspace_def split: option.splits)
qed

lemma parse_epoch_str:
  assumes "rel \<noteq> []" and "pre_start Y"
  shows "parse_epoch ((if e \<noteq> 0 then nat_str e @ ''!'' else []) @ py_join ''.'' (map nat_str rel) @ Y)
           = (e, py_join ''.'' (map nat_str rel) @ Y)"
proof (cases "e = 0")
  case True
  with parse_epoch_digits [of "map nat_str rel", OF _ nat_str_digit_strings assms(2)] assms(1)
  show ?thesis by simp
next
  case False
  have "digit_free_start (CHR ''!'' # py_join ''.'' (map nat_str rel) @ Y)"
    by (simp add: digit_free_start_def is_digit_def)
  from digits_prefix_nat_str [OF this, of e] nat_str_props [of e] False show ?thesis
    by (simp add: parse_epoch_def)
qed

text \<open>Printing a well-formed version with \<open>str()\<close> and parsing the text gives the same version back: \<open>Version(str(v))\<close> rebuilds every field of \<open>v\<close>.\<close>

lemma pep_parse_str:
  assumes "wf_pep v"
  shows "pep_parse (pep_str v) = Inr v"
proof -
  define L where "L = (case pep_local v of None \<Rightarrow> [] | Some ls \<Rightarrow> ''+'' @ py_join ''.'' (map local_seg_str ls))"
  define D where "D = (case pep_dev v of None \<Rightarrow> [] | Some (_, n) \<Rightarrow> ''.dev'' @ nat_str n)"
  define Po where "Po = (case pep_post v of None \<Rightarrow> [] | Some (_, n) \<Rightarrow> ''.post'' @ nat_str n)"
  define P where "P = (case pep_pre v of None \<Rightarrow> [] | Some (l, n) \<Rightarrow> l @ nat_str n)"
  define R where "R = py_join ''.'' (map nat_str (pep_release v))"
  define E where "E = (if pep_epoch v \<noteq> 0 then nat_str (pep_epoch v) @ ''!'' else [])"
  from assms have wf: "pep_release v \<noteq> []"
      "case pep_pre v of None \<Rightarrow> True | Some (l, _) \<Rightarrow> l \<in> {''a'', ''b'', ''rc''}"
      "case pep_post v of None \<Rightarrow> True | Some (l, _) \<Rightarrow> l = ''post''"
      "case pep_dev v of None \<Rightarrow> True | Some (l, _) \<Rightarrow> l = ''dev''"
      "case pep_local v of None \<Rightarrow> True | Some ls \<Rightarrow> ls \<noteq> [] \<and> (\<forall>p \<in> set ls. wf_local_seg p)"
    by (simp_all add: wf_pep_def)
  have str: "pep_str v = E @ R @ P @ Po @ D @ L"
    by (simp add: pep_str_def E_def R_def P_def Po_def D_def L_def)
  have ls: "local_start L" by (cases "pep_local v") (simp_all add: L_def local_start_def)
  have ds: "dev_start (D @ L)" unfolding D_def by (rule dev_start_str [OF ls])
  have ps: "post_start (Po @ D @ L)" unfolding Po_def by (rule post_start_str [OF ds])
  have rs: "pre_start (P @ Po @ D @ L)" unfolding P_def by (rule pre_start_str [OF wf(2) ps])
  have lc: "parse_local L = Inr (pep_local v)" unfolding L_def by (rule parse_local_str [OF wf(5)])
  have dv: "parse_letter [''dev''] (D @ L) = (pep_dev v, L)" unfolding D_def by (rule parse_dev_str [OF wf(4) ls])
  have po: "parse_post (Po @ D @ L) = (pep_post v, D @ L)" unfolding Po_def by (rule parse_post_str [OF wf(3) ds])
  have pr: "parse_letter pre_labels (P @ Po @ D @ L) = (pep_pre v, Po @ D @ L)"
    unfolding P_def by (rule parse_pre_str [OF wf(2) ps])
  have rl: "parse_release_seg (R @ P @ Po @ D @ L) = Some (pep_release v, P @ Po @ D @ L)"
    using parse_release_seg_digits [of "map nat_str (pep_release v)", OF _ nat_str_digit_strings rs] wf(1)
    by (simp add: R_def digits_val_nat_str comp_def)
  have ep: "parse_epoch (E @ R @ P @ Po @ D @ L) = (pep_epoch v, R @ P @ Po @ D @ L)"
    unfolding E_def R_def by (rule parse_epoch_str [OF wf(1) rs])
  have strip: "py_strip (pep_str v) = pep_str v"
  proof (rule py_strip_id)
    have "\<forall>c \<in> set (pep_str v). \<not> py_isspace c" by (rule pep_str_chars [OF assms])
    then show "pep_str v = [] \<or> \<not> py_isspace (hd (pep_str v)) \<and> \<not> py_isspace (last (pep_str v))"
      by (cases "pep_str v = []") auto
  qed
  have hd: "\<exists>c r. E @ R @ P @ Po @ D @ L = c # r \<and> is_digit c"
  proof -
    obtain m ms where "pep_release v = m # ms" using wf(1) by (cases "pep_release v") auto
    moreover obtain d1 ds1 where "nat_str (pep_epoch v) = d1 # ds1" "is_digit d1" using nat_str_Cons by blast
    moreover obtain d2 ds2 where "nat_str m = d2 # ds2" "is_digit d2" using nat_str_Cons by blast
    ultimately show ?thesis by (simp add: E_def R_def py_join_Cons_concat)
  qed
  then obtain c r where cr: "E @ R @ P @ Po @ D @ L = c # r" "is_digit c" by blast
  have "c \<noteq> CHR ''v''"
  proof
    assume "c = CHR ''v''"
    with cr(2) show False by (simp add: is_digit_def)
  qed
  then have nv: "ascii_lower c \<noteq> CHR ''v''" by (simp add: is_digit_lower [OF cr(2)])
  show ?thesis
    using strip str cr nv ep rl pr po dv lc by (simp add: pep_parse_def)
qed

section \<open>Lemmas: the release-only model is a restriction of packaging.version\<close>

lemma split_dots_ne: "split_dots s w \<noteq> []"
  by (induction s w rule: split_dots.induct) auto

lemma py_join_split_dots: "py_join ''.'' (split_dots s w) = rev w @ s"
proof (induction s w rule: split_dots.induct)
  case (2 c cs w)
  show ?case
  proof (cases "c = CHR ''.''")
    case True
    obtain x xs where "split_dots cs [] = x # xs" using split_dots_ne by (cases "split_dots cs []") auto
    with True 2(1) show ?thesis by simp
  next
    case False
    with 2(2) show ?thesis by simp
  qed
qed simp

lemma ascii_lower_v: "ascii_lower c = CHR ''v'' \<longleftrightarrow> c = CHR ''v'' \<or> c = CHR ''V''"
proof
  assume l: "ascii_lower c = CHR ''v''"
  show "c = CHR ''v'' \<or> c = CHR ''V''"
  proof (cases "65 \<le> (of_char c :: nat) \<and> (of_char c :: nat) \<le> 90")
    case True
    then have "of_char (ascii_lower c) = (of_char c + 32 :: nat)"
      by (simp add: ascii_lower_def of_char_of)
    with l have "(of_char c :: nat) = 86" by simp
    then have "c = char_of (86 :: nat)" by (metis char_of_char)
    then show ?thesis by (simp add: char_of_def bit_iff_odd)
  next
    case False
    with l show ?thesis by (simp add: ascii_lower_other)
  qed
next
  show "c = CHR ''v'' \<or> c = CHR ''V'' \<Longrightarrow> ascii_lower c = CHR ''v''"
    by (auto simp: ascii_lower_def char_of_def bit_iff_odd)
qed

lemma parse_empty_tail:
  "parse_letter pre_labels [] = (None, [])" "parse_post [] = (None, [])"
  "parse_letter [''dev''] [] = (None, [])" "parse_local [] = Inr None" "pre_start []"
  by (simp_all add: parse_letter_def pre_labels_def opt_sep_def parse_post_def parse_local_def
      pre_start_def post_start_def dev_start_def local_start_def)

lemma parse_version_pep:
  assumes "parse_version s = Inr v"
  shows "pep_parse s = Inr (pep_of_version v)"
proof -
  define u where
    "u = (case py_strip s of c # r \<Rightarrow> if c = CHR ''v'' \<or> c = CHR ''V'' then r else py_strip s | [] \<Rightarrow> [])"
  have u': "(case py_strip s of c # r \<Rightarrow> if ascii_lower c = CHR ''v'' then r else py_strip s | [] \<Rightarrow> []) = u"
    by (cases "py_strip s") (simp_all add: u_def ascii_lower_v)
  define ps where "ps = split_dots u []"
  have pv: "parse_version s = (case parse_release u of Some ns \<Rightarrow> Inr \<lparr>release = ns\<rparr> | None \<Rightarrow> Inl InvalidVersion)"
    by (simp add: parse_version_def Let_def u_def)
  with assms have pr: "parse_release u = Some (release v)"
    by (cases "parse_release u") auto
  then have ok: "\<forall>p \<in> set ps. p \<noteq> [] \<and> (\<forall>c \<in> set p. is_digit c)"
      and v: "v = \<lparr>release = map digits_val ps\<rparr>"
    by (simp_all add: parse_release_def Let_def ps_def split: if_splits)
  have ne: "ps \<noteq> []" by (simp add: ps_def split_dots_ne)
  have uj: "u = py_join ''.'' ps @ []" by (simp add: ps_def py_join_split_dots)
  have ep: "parse_epoch u = (0, u)"
    using parse_epoch_digits [OF ne ok parse_empty_tail(5)] uj by simp
  have rl: "parse_release_seg u = Some (map digits_val ps, [])"
    using parse_release_seg_digits [OF ne ok parse_empty_tail(5)] uj by simp
  show ?thesis
    using u' ep rl parse_empty_tail(1-4)
    by (simp add: pep_parse_def v pep_of_version_def)
qed

lemma pep_key_of_version:
  "pep_key (pep_of_version v) \<le> pep_key (pep_of_version w) \<longleftrightarrow> vkey v \<le> vkey w"
  by (auto simp: pep_key_def pep_of_version_def vkey_def less_eq_prod_def)

lemma pep_str_of_version: "pep_str (pep_of_version v) = version_str v"
  by (simp add: pep_str_def pep_of_version_def version_str_def)

section \<open>Lemmas: lookups over two version libraries\<close>

text \<open>When every string a lookup parses is accepted by a first library, and a second
  library parses each such string to the image of the first's version under \<open>f\<close>,
  with the same order and the same \<open>str()\<close>, the lookups agree.\<close>

lemma fold_max_map:
  assumes "\<And>x y. gt2 (f x) (f y) = gt1 x y"
  shows "fold (\<lambda>y m. if gt2 y m then y else m) (map f ys) (f x) = f (fold (\<lambda>y m. if gt1 y m then y else m) ys x)"
  using assms by (induction ys arbitrary: x) simp_all

lemma py_max_map:
  assumes "\<And>x y. gt2 (f x) (f y) = gt1 x y"
  shows "py_max gt2 (map f xs) = map_sum id f (py_max gt1 xs)"
  using fold_max_map [of gt2 f gt1, OF assms] by (cases xs) (simp_all add: py_max_def)

lemma filter_r_cong: "\<forall>x \<in> set xs. P x = Q x \<Longrightarrow> filter_r P xs = filter_r Q xs"
  by (induction xs) simp_all

lemma map_r_map:
  "\<forall>x \<in> set xs. p2 x = map_sum id f (p1 x) \<Longrightarrow> map_r p2 xs = map_sum id (map f) (map_r p1 xs)"
proof (induction xs)
  case (Cons x xs)
  then show ?case by (cases "p1 x"; cases "map_r p1 xs") simp_all
qed simp

lemma version_lookup_sim:
  fixes keyA :: "'v \<Rightarrow> 'k::linorder" and keyB :: "'w \<Rightarrow> 'j::linorder"
  assumes parses: "\<forall>s \<in> insert ver (fst ` set versions). \<exists>v. parseA s = Inr v"
    and p: "\<And>s v. parseA s = Inr v \<Longrightarrow> parseB s = Inr (f v)"
    and k: "\<And>v w. keyB (f v) \<le> keyB (f w) \<longleftrightarrow> keyA v \<le> keyA w"
    and st: "\<And>v. strB (f v) = strA v"
  shows "get_version_item_with parseB keyB strB ver versions = get_version_item_with parseA keyA strA ver versions
         \<and> get_compare_version_item_with parseB keyB ver versions
             = get_compare_version_item_with parseA keyA ver versions"
proof -
  define pv where "pv s = projr (parseA s)" for s
  have p1: "parseA s = Inr (pv s)" if "s \<in> insert ver (fst ` set versions)" for s
    using parses that by (auto simp: pv_def)
  have p2: "parseB s = Inr (f (pv s))" if "s \<in> insert ver (fst ` set versions)" for s
    using p [OF p1 [OF that]] .
  let ?cv = "pv ver"
  have lt: "keyB (f m) < keyB (f x) \<longleftrightarrow> keyA m < keyA x" for m x
    using k [of x m] by (simp add: not_le [symmetric])
  have filt: "filter_r (version_le_with parseB keyB (f ?cv)) (map fst versions)
              = filter_r (version_le_with parseA keyA ?cv) (map fst versions)"
    by (rule filter_r_cong) (auto simp: version_le_with_def p1 p2 k)
  have ks: "filter_r (version_le_with parseA keyA ?cv) (map fst versions)
            = Inr (filter (\<lambda>s. keyA (pv s) \<le> keyA ?cv) (map fst versions))"
    by (rule filter_r_Inr) (auto simp: version_le_with_def p1)
  let ?ks = "filter (\<lambda>s. keyA (pv s) \<le> keyA ?cv) (map fst versions)"
  have m1: "map_r parseA ?ks = Inr (map pv ?ks)" by (rule map_r_Inr) (auto simp: p1)
  have m2: "map_r parseB ?ks = Inr (map (f \<circ> pv) ?ks)"
    using map_r_map [of ?ks parseB f parseA] m1 by (auto simp: p1 p2)
  have mx: "py_max (\<lambda>x m. keyB m < keyB x) (map (f \<circ> pv) ?ks)
            = map_sum id f (py_max (\<lambda>x m. keyA m < keyA x) (map pv ?ks))"
    using py_max_map [of "\<lambda>x m. keyB m < keyB x" f "\<lambda>x m. keyA m < keyA x" "map pv ?ks"] lt by simp
  have item: "get_version_item_with parseB keyB strB ver versions = get_version_item_with parseA keyA strA ver versions"
    by (cases "py_max (\<lambda>x m. keyA m < keyA x) (map pv ?ks)")
       (simp_all add: get_version_item_with_def p1 p2 filt ks m1 m2 mx st)
  have cmp: "get_compare_version_item_with parseB keyB ver versions
             = get_compare_version_item_with parseA keyA ver versions"
    by (simp add: get_compare_version_item_with_def p1 p2 filt ks)
  from item cmp show ?thesis ..
qed

text \<open>When the helper's version and every key of the table are release-only versions, \<open>get_version_item\<close> and \<open>get_compare_version_item\<close> with \<open>packaging.version\<close> in full return what they return with the release-only model, results and exceptions alike.\<close>

lemma get_version_item_pep_refines:
  assumes "\<forall>s \<in> insert ver (fst ` set versions). \<exists>v. parse_version s = Inr v"
  shows "get_version_item_pep ver versions = get_version_item ver versions
         \<and> get_compare_version_item_pep ver versions = get_compare_version_item ver versions"
  using version_lookup_sim [where parseB = pep_parse and f = pep_of_version and keyB = pep_key
      and strB = pep_str and strA = version_str and keyA = vkey, OF assms]
    parse_version_pep pep_key_of_version pep_str_of_version
  by (simp add: get_version_item_pep_def get_version_item_def get_compare_version_item_pep_def
      get_compare_version_item_def)

section \<open>Lemmas: the versions the parser builds\<close>

lemma match_label_in: "match_label ls s = Some (l, r) \<Longrightarrow> l \<in> set ls"
  by (induction ls s rule: match_label.induct) (auto split: if_splits)

lemma parse_letter_some:
  "fst (parse_letter labels s) = Some (l, n) \<Longrightarrow> \<exists>l0 \<in> set labels. l = canonical_letter l0"
  by (auto simp: parse_letter_def split: option.splits prod.splits dest: match_label_in)

lemma parse_post_some: "fst (parse_post s) = Some (l, n) \<Longrightarrow> l = ''post''"
  by (auto simp: parse_post_def post_labels_def canonical_letter_def split: list.splits prod.splits if_splits
      dest!: parse_letter_some)

lemma parse_release_seg_ne: "parse_release_seg s = Some (rel, r) \<Longrightarrow> rel \<noteq> []"
  by (auto simp: parse_release_seg_def split: prod.splits list.splits)

lemma split_seps_ne: "split_seps s w \<noteq> []"
  by (induction s w rule: split_seps.induct) auto

lemma ascii_lower_cases:
  "ascii_lower c = c \<or> (65 \<le> (of_char c :: nat) \<and> (of_char c :: nat) \<le> 90 \<and> of_char (ascii_lower c) = (of_char c + 32 :: nat))"
  by (auto simp: ascii_lower_def of_char_of)

lemma ascii_lower_idem: "ascii_lower (ascii_lower c) = ascii_lower c"
  using ascii_lower_cases [of c] by (auto intro: ascii_lower_other)

lemma not_digit_lower: "\<not> is_digit c \<Longrightarrow> \<not> is_digit (ascii_lower c)"
  using ascii_lower_cases [of c] by (auto simp: is_digit_def)

lemma is_alnum_lower: "is_alnum c \<Longrightarrow> is_alnum (ascii_lower c)"
  by (auto simp: is_alnum_def ascii_lower_idem is_digit_lower)

lemma local_part_wf:
  assumes "p \<noteq> []" and "\<forall>c \<in> set p. is_alnum c"
  shows "wf_local_seg (local_part p)"
proof (cases "\<forall>c \<in> set p. is_digit c")
  case False
  then obtain c where "c \<in> set p" "\<not> is_digit c" by blast
  then have "\<not> (\<forall>x \<in> set (map ascii_lower p). is_digit x)" using not_digit_lower by auto
  with assms False show ?thesis
    by (auto simp: local_part_def wf_local_seg_def is_alnum_lower ascii_lower_idem)
qed (simp add: local_part_def wf_local_seg_def)

lemma parse_local_wf:
  "parse_local s = Inr lc \<Longrightarrow> case lc of None \<Rightarrow> True | Some ls \<Rightarrow> ls \<noteq> [] \<and> (\<forall>p \<in> set ls. wf_local_seg p)"
  by (auto simp: parse_local_def Let_def split_seps_ne local_part_wf split: list.splits if_splits)

text \<open>Every version \<open>version.parse\<close> builds is well formed: a non-empty release, the canonical pre-release letters \<open>a\<close>, \<open>b\<close>, \<open>rc\<close>, the letters \<open>post\<close> and \<open>dev\<close>, and local parts that are numbers or non-numeric lower-case alphanumeric text, so that with the roundtrip above \<open>str()\<close> of a parsed version is its normal form.\<close>

lemma pep_parse_wf:
  assumes "pep_parse s = Inr v"
  shows "wf_pep v"
proof -
  define u where "u = (case py_strip s of c # r \<Rightarrow> if ascii_lower c = CHR ''v'' then r else py_strip s | [] \<Rightarrow> [])"
  obtain ep u1 where e: "parse_epoch u = (ep, u1)" by fastforce
  have pp: "pep_parse s =
      (case parse_release_seg u1 of None \<Rightarrow> Inl InvalidVersion
       | Some (rel, u2) \<Rightarrow> (case parse_letter pre_labels u2 of (pr, u3) \<Rightarrow> (case parse_post u3 of
           (po, u4) \<Rightarrow> (case parse_letter [''dev''] u4 of (dv, u5) \<Rightarrow> py_bind (parse_local u5) (\<lambda>lc.
             Inr \<lparr>pep_epoch = ep, pep_release = rel, pep_pre = pr, pep_post = po, pep_dev = dv,
                  pep_local = lc\<rparr>)))))"
    by (simp add: pep_parse_def Let_def u_def [symmetric] e)
  obtain rel u2 where r: "parse_release_seg u1 = Some (rel, u2)"
    using assms by (cases "parse_release_seg u1") (auto simp: pp)
  obtain pr u3 where pr: "parse_letter pre_labels u2 = (pr, u3)" by fastforce
  obtain po u4 where po: "parse_post u3 = (po, u4)" by fastforce
  obtain dv u5 where dv: "parse_letter [''dev''] u4 = (dv, u5)" by fastforce
  from assms obtain lc where lc: "parse_local u5 = Inr lc"
      and v: "v = \<lparr>pep_epoch = ep, pep_release = rel, pep_pre = pr, pep_post = po, pep_dev = dv, pep_local = lc\<rparr>"
    by (auto simp: pp r pr po dv)
  have "case pr of None \<Rightarrow> True | Some (l, _) \<Rightarrow> l \<in> {''a'', ''b'', ''rc''}"
    using parse_letter_some [of pre_labels u2] pr
    by (auto simp: pre_labels_def canonical_letter_def split: option.splits)
  moreover have "case po of None \<Rightarrow> True | Some (l, _) \<Rightarrow> l = ''post''"
    using parse_post_some [of u3] po by (auto split: option.splits)
  moreover have "case dv of None \<Rightarrow> True | Some (l, _) \<Rightarrow> l = ''dev''"
    using parse_letter_some [of "[''dev'']" u4] dv by (auto simp: canonical_letter_def split: option.splits)
  ultimately show ?thesis
    using parse_release_seg_ne [OF r] parse_local_wf [OF lc] by (simp add: wf_pep_def v)
qed

text \<open>The release-only model of Version.thy is a restriction of
  \<open>packaging.version\<close>: a string it accepts is parsed by \<open>packaging\<close> to the same
  release with no epoch, pre-, post-, dev- or local segment, which prints the same and
  is ordered the same against every other release-only version.\<close>

lemma release_model_refines:
  assumes "parse_version s = Inr v"
  shows "pep_parse s = Inr (pep_of_version v) \<and> pep_str (pep_of_version v) = version_str v
         \<and> (\<forall>w. pep_key (pep_of_version v) \<le> pep_key (pep_of_version w) \<longleftrightarrow> vkey v \<le> vkey w)"
  using parse_version_pep [OF assms] pep_str_of_version pep_key_of_version by blast

section \<open>The order of versions\<close>

text \<open>\<open>_cmpkey\<close> orders the versions of one release as PEP 440 requires: a
  development release without pre- or post-release before every pre-release, every
  pre-release before the final release, the final release before its local variants,
  those before the development releases of a post-release, and these before the
  post-release itself.\<close>

lemma pep_key_release_order:
  "pep_key \<lparr>pep_epoch = e, pep_release = rel, pep_pre = None, pep_post = None, pep_dev = Some d, pep_local = None\<rparr>
     < pep_key \<lparr>pep_epoch = e, pep_release = rel, pep_pre = Some p, pep_post = po, pep_dev = dv, pep_local = lc\<rparr>
   \<and> pep_key \<lparr>pep_epoch = e, pep_release = rel, pep_pre = Some p, pep_post = po, pep_dev = dv, pep_local = lc\<rparr>
     < pep_key \<lparr>pep_epoch = e, pep_release = rel, pep_pre = None, pep_post = None, pep_dev = None, pep_local = None\<rparr>
   \<and> pep_key \<lparr>pep_epoch = e, pep_release = rel, pep_pre = None, pep_post = None, pep_dev = None, pep_local = None\<rparr>
     < pep_key \<lparr>pep_epoch = e, pep_release = rel, pep_pre = None, pep_post = None, pep_dev = None, pep_local = Some ls\<rparr>
   \<and> pep_key \<lparr>pep_epoch = e, pep_release = rel, pep_pre = None, pep_post = None, pep_dev = None, pep_local = Some ls\<rparr>
     < pep_key \<lparr>pep_epoch = e, pep_release = rel, pep_pre = None, pep_post = Some q, pep_dev = Some d, pep_local = lc\<rparr>
   \<and> pep_key \<lparr>pep_epoch = e, pep_release = rel, pep_pre = None, pep_post = Some q, pep_dev = Some d, pep_local = lc\<rparr>
     < pep_key \<lparr>pep_epoch = e, pep_release = rel, pep_pre = None, pep_post = Some q, pep_dev = None, pep_local = lc'\<rparr>"
  by (simp add: pep_key_def less_prod_def less_ext_def)

section \<open>Behaviour at concrete inputs\<close>

text \<open>With a release candidate as the helper's version, \<open>get_version_item\<close>
  uses the item of the previous release: \<open>packaging\<close> orders \<open>2.0rc1\<close> below
  \<open>2.0\<close>, so the key \<open>2.0\<close> does not qualify; the release-only model rejects the
  version.\<close>

lemma get_version_item_pre_release:
  "get_version_item_pep ''2.0rc1'' [(''1.0'', a), (''2.0'', b)] = Inr a
   \<and> get_version_item ''2.0rc1'' [(''1.0'', a), (''2.0'', b)] = Inl InvalidVersion"
  by (simp add: get_version_item_def py_max_def dict_get_def py_eval less_prod_def less_ext_def)

theorem get_version_item_pep_refines_witness:
  "get_version_item_pep ''1.5'' [(''1.0'', 10::nat), (''2.0'', 20)] = Inr 10
   \<and> get_version_item ''1.5'' [(''1.0'', 10::nat), (''2.0'', 20)] = Inr 10
   \<and> get_compare_version_item_pep ''1.5'' [(''1.0'', 10::nat), (''2.0'', 20)]
       = get_compare_version_item ''1.5'' [(''1.0'', 10::nat), (''2.0'', 20)]"
proof -
  have r: "get_version_item ''1.5'' [(''1.0'', 10::nat), (''2.0'', 20)] = Inr 10"
    by (simp add: get_version_item_def py_max_def dict_get_def py_eval)
  have "get_version_item_pep ''1.5'' [(''1.0'', 10::nat), (''2.0'', 20)]
          = get_version_item ''1.5'' [(''1.0'', 10::nat), (''2.0'', 20)]
        \<and> get_compare_version_item_pep ''1.5'' [(''1.0'', 10::nat), (''2.0'', 20)]
          = get_compare_version_item ''1.5'' [(''1.0'', 10::nat), (''2.0'', 20)]"
    by (rule get_version_item_pep_refines) (simp add: py_eval)
  with r show ?thesis by simp
qed

theorem release_model_refines_witness:
  "parse_version '' v2.10 '' = Inr \<lparr>release = [2, 10]\<rparr>
   \<and> pep_parse '' v2.10 '' = Inr (pep_of_version \<lparr>release = [2, 10]\<rparr>)
   \<and> pep_str (pep_of_version \<lparr>release = [2, 10]\<rparr>) = ''2.10''"
proof -
  have p: "parse_version '' v2.10 '' = Inr \<lparr>release = [2, 10]\<rparr>" by (simp add: py_eval)
  have s: "version_str \<lparr>release = [2, 10]\<rparr> = ''2.10''" by (simp add: py_eval)
  from p s release_model_refines [OF p] show ?thesis by simp
qed

theorem pep_parse_str_witness:
  "pep_str \<lparr>pep_epoch = 1, pep_release = [1, 0], pep_pre = Some (''rc'', 1), pep_post = Some (''post'', 2),
            pep_dev = Some (''dev'', 3), pep_local = Some [LStr ''ubuntu'', LInt 4]\<rparr> = ''1!1.0rc1.post2.dev3+ubuntu.4''
   \<and> pep_parse ''1!1.0rc1.post2.dev3+ubuntu.4''
       = Inr \<lparr>pep_epoch = 1, pep_release = [1, 0], pep_pre = Some (''rc'', 1), pep_post = Some (''post'', 2),
              pep_dev = Some (''dev'', 3), pep_local = Some [LStr ''ubuntu'', LInt 4]\<rparr>"
proof -
  let ?v = "\<lparr>pep_epoch = 1, pep_release = [1, 0], pep_pre = Some (''rc'', 1), pep_post = Some (''post'', 2),
            pep_dev = Some (''dev'', 3), pep_local = Some [LStr ''ubuntu'', LInt 4]\<rparr>"
  have wf: "wf_pep ?v" by (simp add: wf_pep_def wf_local_seg_def is_alnum_def is_digit_def ascii_lower_def)
  have s: "pep_str ?v = ''1!1.0rc1.post2.dev3+ubuntu.4''" by (simp add: py_eval)
  from s pep_parse_str [OF wf] show ?thesis by simp
qed

theorem pep_parse_wf_witness:
  "pep_parse '' V1.0-ALPHA.2+Build.7 ''
     = Inr \<lparr>pep_epoch = 0, pep_release = [1, 0], pep_pre = Some (''a'', 2), pep_post = None, pep_dev = None,
            pep_local = Some [LStr ''build'', LInt 7]\<rparr>
   \<and> wf_pep \<lparr>pep_epoch = 0, pep_release = [1, 0], pep_pre = Some (''a'', 2), pep_post = None, pep_dev = None,
            pep_local = Some [LStr ''build'', LInt 7]\<rparr>"
proof -
  have p: "pep_parse '' V1.0-ALPHA.2+Build.7 ''
     = Inr \<lparr>pep_epoch = 0, pep_release = [1, 0], pep_pre = Some (''a'', 2), pep_post = None, pep_dev = None,
            pep_local = Some [LStr ''build'', LInt 7]\<rparr>"
    by (simp add: py_eval)
  from p pep_parse_wf [OF p] show ?thesis by simp
qed

text \<open>C16: with \<open>packaging.version\<close> in full, when every key of the table is
  \<open>str()\<close> of a well-formed version and some key is not above the helper's version,
  \<open>get_version_item\<close> returns the item of a key whose version is the greatest not
  above the helper's version, pre-, post-, dev- and local segments included.\<close>

theorem get_version_item_pep_latest:
  assumes keys: "\<forall>k \<in> fst ` set versions. \<exists>v. wf_pep v \<and> pep_str v = k"
    and cv: "pep_parse ver = Inr cv"
    and some: "\<exists>k \<in> fst ` set versions. \<exists>v. pep_parse k = Inr v \<and> pep_key v \<le> pep_key cv"
  shows "\<exists>k v y. get_version_item_pep ver versions = Inr y \<and> map_of versions k = Some y
           \<and> pep_parse k = Inr v \<and> pep_key v \<le> pep_key cv
           \<and> (\<forall>k' v'. k' \<in> fst ` set versions \<longrightarrow> pep_parse k' = Inr v' \<longrightarrow>
                  pep_key v' \<le> pep_key cv \<longrightarrow> pep_key v' \<le> pep_key v)"
proof -
  have canon: "\<forall>k \<in> fst ` set versions. \<exists>v. pep_parse k = Inr v \<and> pep_str v = k"
  proof
    fix k assume "k \<in> fst ` set versions"
    with keys obtain v where "wf_pep v" "pep_str v = k" by blast
    with pep_parse_str [of v] show "\<exists>v. pep_parse k = Inr v \<and> pep_str v = k" by blast
  qed
  from get_version_item_with_latest [OF canon cv some] show ?thesis
    by (simp add: get_version_item_pep_def)
qed

theorem get_version_item_pep_latest_witness:
  "\<exists>k v y. get_version_item_pep ''1.0rc1'' [(''1.0a1'', 10::nat), (''1.0'', 20)] = Inr y
     \<and> map_of [(''1.0a1'', 10::nat), (''1.0'', 20)] k = Some y
     \<and> pep_parse k = Inr v
     \<and> pep_key v \<le> pep_key \<lparr>pep_epoch = 0, pep_release = [1, 0], pep_pre = Some (''rc'', 1), pep_post = None,
                           pep_dev = None, pep_local = None\<rparr>
     \<and> (\<forall>k' v'. k' \<in> fst ` set [(''1.0a1'', 10::nat), (''1.0'', 20)] \<longrightarrow> pep_parse k' = Inr v' \<longrightarrow>
            pep_key v' \<le> pep_key \<lparr>pep_epoch = 0, pep_release = [1, 0], pep_pre = Some (''rc'', 1), pep_post = None,
                                 pep_dev = None, pep_local = None\<rparr> \<longrightarrow> pep_key v' \<le> pep_key v)"
proof -
  let ?a = "\<lparr>pep_epoch = 0, pep_release = [1, 0], pep_pre = Some (''a'', 1), pep_post = None,
             pep_dev = None, pep_local = None\<rparr>"
  let ?b = "\<lparr>pep_epoch = 0, pep_release = [1, 0], pep_pre = None, pep_post = None,
             pep_dev = None, pep_local = None\<rparr>"
  let ?rc = "\<lparr>pep_epoch = 0, pep_release = [1, 0], pep_pre = Some (''rc'', 1), pep_post = None,
              pep_dev = None, pep_local = None\<rparr>"
  have a: "wf_pep ?a \<and> pep_str ?a = ''1.0a1''" by (simp add: wf_pep_def py_eval)
  have b: "wf_pep ?b \<and> pep_str ?b = ''1.0''" by (simp add: wf_pep_def py_eval)
  have keys: "\<forall>k \<in> fst ` set [(''1.0a1'', 10::nat), (''1.0'', 20)]. \<exists>v. wf_pep v \<and> pep_str v = k"
    using a b by auto
  have cv: "pep_parse ''1.0rc1'' = Inr ?rc" by (simp add: py_eval)
  have pa: "pep_parse ''1.0a1'' = Inr ?a" by (simp add: py_eval)
  have le: "pep_key ?a \<le> pep_key ?rc" by (simp add: pep_key_def less_eq_prod_def less_prod_def)
  have some: "\<exists>k \<in> fst ` set [(''1.0a1'', 10::nat), (''1.0'', 20)]. \<exists>v. pep_parse k = Inr v \<and> pep_key v \<le> pep_key ?rc"
    using pa le by auto
  show ?thesis by (rule get_version_item_pep_latest [OF keys cv some])
qed

section \<open>The two lookups over packaging.version\<close>

text \<open>C27: when every key of the table is a version and some key is not above the
  compare version, \<open>get_compare_version_item\<close> returns the item of the qualifying key
  that is greatest as a string (Python's code-point order), whatever the order of the
  versions: of \<open>9.0\<close> and \<open>10.0\<close> it picks \<open>9.0\<close>.\<close>

theorem get_compare_version_item_pep_string_max:
  assumes keys: "\<forall>k \<in> fst ` set versions. \<exists>v. pep_parse k = Inr v"
    and cv: "pep_parse cver = Inr cv"
    and some: "\<exists>k \<in> fst ` set versions. \<exists>v. pep_parse k = Inr v \<and> pep_key v \<le> pep_key cv"
  shows "\<exists>k v. get_compare_version_item_pep cver versions = Inr (the (map_of versions k))
           \<and> k \<in> fst ` set versions \<and> pep_parse k = Inr v \<and> pep_key v \<le> pep_key cv
           \<and> (\<forall>k' v'. k' \<in> fst ` set versions \<longrightarrow> pep_parse k' = Inr v' \<longrightarrow> pep_key v' \<le> pep_key cv \<longrightarrow> k' \<le> k)"
proof -
  define pv where "pv k = projr (pep_parse k)" for k
  have pk: "pep_parse k = Inr (pv k)" if "k \<in> fst ` set versions" for k
    using keys that by (auto simp: pv_def)
  define ks where "ks = filter (\<lambda>k. pep_key (pv k) \<le> pep_key cv) (map fst versions)"
  have filt: "filter_r (version_le_with pep_parse pep_key cv) (map fst versions) = Inr ks"
    unfolding ks_def by (rule filter_r_Inr) (auto simp: version_le_with_def pk)
  from some pk have ne: "ks \<noteq> []" by (fastforce simp: ks_def filter_empty_conv)
  let ?k = "Max (set ks)"
  have kin: "?k \<in> set ks" using ne by simp
  then have kv: "?k \<in> fst ` set versions" by (auto simp: ks_def)
  then obtain y where y: "map_of versions ?k = Some y" by (metis map_of_eq_None_iff not_None_eq)
  have res: "get_compare_version_item_pep cver versions = Inr (the (map_of versions ?k))"
    by (simp add: get_compare_version_item_pep_def get_compare_version_item_with_def cv filt
        py_max_Max [OF ne] dict_get_def y)
  have "\<forall>k' v'. k' \<in> fst ` set versions \<longrightarrow> pep_parse k' = Inr v' \<longrightarrow> pep_key v' \<le> pep_key cv \<longrightarrow> k' \<le> ?k"
  proof (intro allI impI)
    fix k' v' assume "k' \<in> fst ` set versions" "pep_parse k' = Inr v'" "pep_key v' \<le> pep_key cv"
    with pk have "k' \<in> set ks" by (force simp: ks_def)
    then show "k' \<le> ?k" by simp
  qed
  moreover have "pep_key (pv ?k) \<le> pep_key cv" using kin by (simp add: ks_def)
  ultimately show ?thesis using res kv pk [OF kv] by blast
qed

text \<open>C28: whatever it is given, \<open>get_version_item\<close> returns only an item stored under
  \<open>str()\<close> of a version parsed from a key of the table that is not above the helper's
  version: an item whose key is not in canonical form (\<open>1.00\<close>, \<open>v1\<close>) is never
  returned, and the lookup raises \<open>KeyError\<close> instead when that key qualifies.\<close>

theorem get_version_item_pep_str_key:
  assumes "get_version_item_pep ver versions = Inr y"
  shows "\<exists>cv k v. pep_parse ver = Inr cv \<and> k \<in> fst ` set versions \<and> pep_parse k = Inr v
           \<and> pep_key v \<le> pep_key cv \<and> map_of versions (pep_str v) = Some y"
proof -
  from assms obtain cv ks vs v where cv: "pep_parse ver = Inr cv"
      and ks: "filter_r (version_le_with pep_parse pep_key cv) (map fst versions) = Inr ks"
      and vs: "map_r pep_parse ks = Inr vs"
      and v: "py_max (\<lambda>x m. pep_key m < pep_key x) vs = Inr v"
      and y: "dict_get versions (pep_str v) = Inr y"
    by (auto simp: get_version_item_pep_def get_version_item_with_def)
  from py_max_in [OF v] map_r_InrD_set [OF vs] obtain k where k: "k \<in> set ks" "pep_parse k = Inr v" by blast
  from filter_r_InrD [OF ks] k(1) have "k \<in> fst ` set versions" "version_le_with pep_parse pep_key cv k = Inr True"
    by auto
  with k(2) have "k \<in> fst ` set versions" "pep_key v \<le> pep_key cv" by (auto simp: version_le_with_def)
  moreover from y have "map_of versions (pep_str v) = Some y" by (simp add: dict_get_def split: option.splits)
  ultimately show ?thesis using cv k(2) by blast
qed

theorem get_compare_version_item_pep_string_max_witness:
  "get_compare_version_item_pep ''10.0'' [(''9.0'', 1::nat), (''10.0'', 2)] = Inr 1
   \<and> (\<exists>k v. get_compare_version_item_pep ''10.0'' [(''9.0'', 1::nat), (''10.0'', 2)] = Inr (the (map_of [(''9.0'', 1::nat), (''10.0'', 2)] k))
        \<and> k \<in> fst ` set [(''9.0'', 1::nat), (''10.0'', 2)] \<and> pep_parse k = Inr v
        \<and> pep_key v \<le> pep_key \<lparr>pep_epoch = 0, pep_release = [10, 0], pep_pre = None, pep_post = None, pep_dev = None,
                               pep_local = None\<rparr>
        \<and> (\<forall>k' v'. k' \<in> fst ` set [(''9.0'', 1::nat), (''10.0'', 2)] \<longrightarrow> pep_parse k' = Inr v'
              \<longrightarrow> pep_key v' \<le> pep_key \<lparr>pep_epoch = 0, pep_release = [10, 0], pep_pre = None, pep_post = None,
                                       pep_dev = None, pep_local = None\<rparr> \<longrightarrow> k' \<le> k))"
proof
  show "get_compare_version_item_pep ''10.0'' [(''9.0'', 1::nat), (''10.0'', 2)] = Inr 1"
    by (simp add: py_max_def dict_get_def py_eval less_eq_prod_def less_prod_def less_ext_def)
  show "\<exists>k v. get_compare_version_item_pep ''10.0'' [(''9.0'', 1::nat), (''10.0'', 2)] = Inr (the (map_of [(''9.0'', 1::nat), (''10.0'', 2)] k))
        \<and> k \<in> fst ` set [(''9.0'', 1::nat), (''10.0'', 2)] \<and> pep_parse k = Inr v
        \<and> pep_key v \<le> pep_key \<lparr>pep_epoch = 0, pep_release = [10, 0], pep_pre = None, pep_post = None, pep_dev = None,
                               pep_local = None\<rparr>
        \<and> (\<forall>k' v'. k' \<in> fst ` set [(''9.0'', 1::nat), (''10.0'', 2)] \<longrightarrow> pep_parse k' = Inr v'
              \<longrightarrow> pep_key v' \<le> pep_key \<lparr>pep_epoch = 0, pep_release = [10, 0], pep_pre = None, pep_post = None,
                                       pep_dev = None, pep_local = None\<rparr> \<longrightarrow> k' \<le> k)"
  proof (rule get_compare_version_item_pep_string_max)
    show "\<forall>k \<in> fst ` set [(''9.0'', 1::nat), (''10.0'', 2)]. \<exists>v. pep_parse k = Inr v" by (simp add: py_eval)
    show "pep_parse ''10.0'' = Inr \<lparr>pep_epoch = 0, pep_release = [10, 0], pep_pre = None, pep_post = None,
        pep_dev = None, pep_local = None\<rparr>" by (simp add: py_eval)
    show "\<exists>k \<in> fst ` set [(''9.0'', 1::nat), (''10.0'', 2)]. \<exists>v. pep_parse k = Inr v
        \<and> pep_key v \<le> pep_key \<lparr>pep_epoch = 0, pep_release = [10, 0], pep_pre = None, pep_post = None,
                               pep_dev = None, pep_local = None\<rparr>"
      by (simp add: py_eval less_eq_prod_def less_prod_def)
  qed
qed

theorem get_version_item_pep_str_key_witness:
  "get_version_item_pep ''2.5'' [(''1.0'', 10::nat), (''2.0'', 20)] = Inr 20
   \<and> (\<exists>cv k v. pep_parse ''2.5'' = Inr cv \<and> k \<in> fst ` set [(''1.0'', 10::nat), (''2.0'', 20)] \<and> pep_parse k = Inr v
        \<and> pep_key v \<le> pep_key cv \<and> map_of [(''1.0'', 10::nat), (''2.0'', 20)] (pep_str v) = Some 20)"
proof -
  have r: "get_version_item_pep ''2.5'' [(''1.0'', 10::nat), (''2.0'', 20)] = Inr 20"
    by (simp add: py_max_def dict_get_def py_eval less_eq_prod_def less_prod_def less_ext_def)
  from r get_version_item_pep_str_key [OF r] show ?thesis by simp
qed

end
