(* ===== verification/Spec2Isabelle.thy ===== *)
theory Spec2Isabelle
  imports Normalise_Text Version_Translator Scrubber Scrubber_Variants Interaction Session Legacy Packaging Pep440
begin

text \<open>
  A verification development of lbrc_selenium (src/lbrc_selenium/selenium.py, and the
  older module src/lbrc_selenium/__init__.py kept beside it), a helper layer over
  Selenium that scrapes key/value blocks, lists and tables from web pages and maps the
  scraped field names and values onto a stable schema across versions of the scraped
  application.

  \<^bold>\<open>The program.\<close> \<open>get_selenium\<close> reads the environment and builds a
  \<open>SeleniumHelper\<close> around a remote or local WebDriver; the constructor creates and
  empties the download directory and creates the output directory. The helper
  navigates (\<open>get\<close>, which looks for the body twenty times and tolerates an alert),
  waits (\<open>wait_to_appear\<close>, \<open>wait_to_disappear\<close> over \<open>WebDriverWait\<close>), queries
  (\<open>get_element\<close>, \<open>get_elements\<close>, \<open>get_parent\<close>), interacts (\<open>click_element\<close>,
  \<open>click_all\<close>, \<open>type_in_textbox\<close>), normalises text (\<open>normalise_text\<close>,
  \<open>get_text\<close>), looks items up by version, and saves or mails screenshots.
  \<open>VersionTranslator\<close> keeps, per parsed version, the allowed columns and the label and
  value renamings. \<open>Scrubber\<close> and its variants \<open>KeyValuePairScrubber\<close>,
  \<open>ListScrubber\<close> and \<open>TableScrubber\<close> locate a container, reduce nested matches to
  uncovered elements, extract a string or a \<open>Link\<close> from each, and pass the record
  through the translator at the helper's \<open>compare_version\<close>. \<open>Action\<close> and its
  subclasses retry an interaction up to four times.

  \<^bold>\<open>The theories\<close>, each importing the ones it builds on:
  \<^item> \<open>Prelude\<close>: Python exceptions as the datatype \<open>py_error\<close> and fallible results
    as \<open>py_error + 'a\<close> with \<open>py_bind\<close>; dictionaries as insertion-ordered
    association lists (\<open>dict_set\<close>, \<open>dict_get\<close>, \<open>dict_update\<close>); the string
    primitives \<open>str.isspace\<close>, \<open>strip\<close>, \<open>split\<close>, \<open>join\<close>, \<open>replace\<close>,
    \<open>startswith\<close>; generic lemmas on lists and maps. Strings are \<open>char list\<close>, a
    character read as a code point below 256.
  \<^item> \<open>Normalise_Text\<close>: \<open>re.sub('<.*?>', '', _)\<close> as \<open>remove_tags\<close> (the scan of
    \<open>re.sub\<close>, where \<open>.\<close> stops at a newline), \<open>normalise_text\<close>, \<open>cleanse\<close>.
  \<^item> \<open>Version\<close>: \<open>packaging.version\<close> restricted to release-only versions,
    Python's \<open>max\<close>, and \<open>get_version_item\<close> and \<open>get_compare_version_item\<close>
    written over a version library (parse, comparison key, \<open>str()\<close>), instantiated
    with the release-only versions.
  \<^item> \<open>Pep440\<close>: \<open>packaging.version\<close> in full, modelled from the library's own
    source since it is not part of the repository: the PEP 440 pattern (epoch, release,
    pre-, post-, dev- and local segments, every spelling, separator and letter case) as
    a parser of stages (\<open>pep_parse\<close>), \<open>_cmpkey\<close> (\<open>pep_key\<close>) over the datatype
    \<open>ext\<close> of \<open>Infinity\<close> and \<open>NegativeInfinity\<close> with its \<open>linorder\<close> instance
    and the lexicographic orders of tuples and lists, \<open>__str__\<close> (\<open>pep_str\<close>), and
    both lookups instantiated with it.
  \<^item> \<open>Link_Value\<close>: the dataclass \<open>Link\<close>, the value union and \<open>str()\<close> of a value.
  \<^item> \<open>Version_Translator\<close>: \<open>Translator\<close>, \<open>VersionTranslator\<close>, \<open>_get_version\<close>,
    \<open>translate_dictionary\<close> and its loop, \<open>cleanse_headers\<close>; the contract
    \<open>resolve_spec\<close> of version resolution.
  \<^item> \<open>Page\<close>: the page as a DOM tree of elements with identities; the selectors;
    \<open>find_elements\<close> as the interface \<open>finder\<close>, with \<open>css_find\<close> for tag-name CSS
    and the XPath \<open>.//ancestor-or-self::*\<close> on the tree; the element accessors.
  \<^item> \<open>Scrubber\<close>, \<open>Scrubber_Variants\<close>: \<open>get_parent_elements\<close> (the covering scan
    \<open>uncovered_scan\<close> with its break), \<open>get_element_contents\<close>, \<open>get_value\<close>,
    \<open>get_details\<close>, and the \<open>_scrape_details\<close> of each variant with its loops and
    sorts.
  \<^item> \<open>Interaction\<close>: the browser as a state (document, open alert, the sequence of
    observable events); a command is \<open>browser \<Rightarrow> (py_error + 'a) \<times> browser\<close>. What
    the browser does (query results, clicks, loads, \<open>urljoin\<close>) is the interface
    \<open>driver_env\<close>. An open alert makes a command raise
    \<open>UnexpectedAlertPresentException\<close> and dismisses it; a removed element raises
    \<open>StaleElementReferenceException\<close>. Modelled: \<open>get\<close>, \<open>convert_to_relative_url\<close>,
    \<open>get_parent\<close>, \<open>click_element\<close>, \<open>type_in_textbox\<close>, \<open>click_all\<close>; the action
    classes as the datatype \<open>action\<close>, \<open>_do\<close> dispatched on it (\<open>action_step\<close>) and
    \<open>Action.do\<close> (\<open>action_run\<close>); the retry contract \<open>four_attempts\<close>.
  \<^item> \<open>Waits\<close>: \<open>WebDriverWait.until\<close> and \<open>until_not\<close> as \<open>wait_until\<close> and
    \<open>wait_until_not\<close> with their clock (\<open>elapsed\<close>: half a second per sleep plus
    the interface \<open>over\<close>, the time the query and the sleep's overshoot take),
    \<open>wait_to_appear\<close>, \<open>wait_to_disappear\<close>.
  \<^item> \<open>Session\<close>: \<open>get_selenium\<close>, the grid and local factories and \<open>close\<close>, over
    the environment as an association list, with \<open>float()\<close> a parameter.
  \<^item> \<open>Files\<close>: the file system as a store of paths (plain files and directories) with
    pathlib's \<open>mkdir(parents=True, exist_ok=True)\<close>, \<open>iterdir\<close>, \<open>unlink\<close> and
    \<open>open(.., 'wb')\<close>; the constructor's directories (\<open>helper_init_files\<close>),
    \<open>_clear_directory\<close>, \<open>unzip_download_directory_contents\<close>, \<open>save_screenshot\<close>,
    and the message \<open>email_screenshot\<close> hands to the relay; \<open>get_selenium_helper\<close>,
    the session \<open>get_selenium\<close> configures followed by the constructor it calls.
  \<^item> \<open>Legacy\<close>: every method of src/lbrc_selenium/__init__.py over the same browser,
    clock and store, compared with selenium.py.
  \<^item> \<open>Packaging\<close>: the metadata of src/setup.py and the third-party modules the
    package imports.
  \<^item> This theory: the properties that span the session and the file system.

  \<^bold>\<open>What is proved.\<close>
  \<^item> Translation: version resolution refines its contract; \<open>translate_dictionary\<close>
    returns strictly sorted keys, keeps only allowed columns, fails only on an
    unparsable version and ignores label rules (it reads its label table from the value
    translations).
  \<^item> Scraping: \<open>get_parent_elements\<close> refines its contract (the first element of the
    covering set) and so returns one element of a flat set and none of two nested
    ones; \<open>TableScrubber\<close> returns only allowed columns, sorts rows stably by
    \<open>str()\<close> of the value under the first non-empty header and raises \<open>KeyError\<close>
    on a row without it; \<open>KeyValuePairScrubber\<close>'s keys are sorted, distinct,
    non-empty. Lemmas at sample pages show the header misalignment when the allow-list
    drops a middle column and the text of a whole pair for a link wrapping a span.
  \<^item> Interaction: \<open>Action.do\<close> equals the four-attempt contract; \<open>click_all\<close>
    terminates on a page its clicks leave unchanged; \<open>convert_to_relative_url\<close>
    strips the base URL; the legacy \<open>get\<close> raises on an alert that selenium.py's
    \<open>get\<close> survives.
  \<^item> Waits: \<open>wait_to_appear\<close> and \<open>wait_to_disappear\<close> are live (an element that
    appears, or disappears, at a poll made before the clock passes the timeout ends the
    wait at the first poll that sees it), and \<open>wait_to_appear\<close> gives up after the
    first sleep past the timeout: at most \<open>2 s + 1\<close> sleeps, at most \<open>2 s\<close> when
    every iteration takes longer than half a second.
  \<^item> Files: the constructor's file operations succeed and leave an empty download
    directory and the output directory when nothing is in the way, raise
    \<open>IsADirectoryError\<close> on a subdirectory of the download directory; lemmas show that
    every file operation keeps the store well formed.
  \<^item> Sessions and files: with OUTPUT_DIRECTORY equal to DOWNLOAD_DIRECTORY, every
    \<open>get_selenium\<close> after the first on the same file system raises
    \<open>IsADirectoryError\<close> (\<open>get_selenium_rerun_fails\<close>).
  \<^item> Session: which variables \<open>get_selenium\<close> requires, that any non-empty
    \<open>SELENIUM_HEADLESS\<close> means headless.
  \<^item> Text and versions: \<open>normalise_text\<close> returns whitespace-normal text. With
    \<open>packaging.version\<close> in full, \<open>get_version_item\<close> finds the latest version
    for keys that are \<open>str()\<close> of versions and only ever returns an item stored under
    such a text; \<open>get_compare_version_item\<close> returns the item of the greatest
    qualifying key as a string.
  \<^item> Lemmas on \<open>packaging.version\<close>, which the lookup proofs use: printing a
    well-formed version and parsing it gives it back, every parsed version is well
    formed, \<open>_cmpkey\<close> orders dev-, pre-, final, local and post-releases as PEP 440
    requires, and the release-only model is a restriction of it.

  \<^bold>\<open>Bounds and fuel.\<close> \<open>Action.do\<close>'s loop is a \<open>function\<close> whose measure is
  \<open>3 - retried\<close>. \<open>click_all\<close> has no bound in the code and is a
  \<open>partial_function (option)\<close>; its termination is proved under the stated
  hypotheses by induction on the size of the element searched. \<open>get\<close> loops exactly
  twenty times. \<open>WebDriverWait\<close> has no bound on its polls; \<open>time.sleep\<close> sleeps
  at least the time asked, so each iteration advances the clock by half a second at
  least, and \<open>wait_until\<close> is a \<open>function\<close> whose measure is the time left
  before the deadline. No fuel is chosen: the number of polls follows from the clock,
  which the interface \<open>over\<close> gives in milliseconds. \<open>mkdir(parents=True)\<close> recurses on
  the parent and is a \<open>function\<close> with the path length as measure.

  \<^bold>\<open>Not modelled.\<close> The Selenium library itself: starting a browser, the Firefox
  profile file, what a real page does between polls (the interface \<open>tick\<close>) and
  which elements a query finds beyond tag-name CSS (the interface \<open>finder\<close>);
  \<open>urljoin\<close> is an interface. The bytes of a screenshot, base64 encoding and SMTP
  transport. \<open>VersionTranslator\<close> is modelled with the release-only versions (its
  tables are keyed by the release key); on other version strings it raises
  \<open>InvalidVersion\<close> in the model where \<open>packaging\<close> accepts them. File system
  links and the resolution of \<open>..\<close>. What an installer does with src/setup.py beyond
  the requirements it declares.
\<close>


section \<open>Sessions and the file system\<close>

text \<open>A local run whose OUTPUT_DIRECTORY is its DOWNLOAD_DIRECTORY, and the session
  \<open>get_selenium\<close> configures for it (\<open>float()\<close> as \<open>demo_float\<close>).\<close>

definition demo_environ_shared :: "(string, string) pydict" where
  "demo_environ_shared = [(''DOWNLOAD_DIRECTORY'', ''/tmp/d''), (''OUTPUT_DIRECTORY'', ''/tmp/d''),
     (''EMAIL_ADDRESS'', ''me@host'')]"

definition demo_session :: "string session" where
  "demo_session = \<lparr>web_driver = FirefoxDriver False ''1'' ''/tmp/d'', quitter = False,
     helper_args = \<lparr>download_directory = ''/tmp/d'', output_directory = ''/tmp/d'', base_url = [],
       click_wait_time = ''1'', download_wait_time = ''60'', page_wait_time = ''5'', email_address = ''me@host'',
       compare_version = ''0.0'', version = ''0.0''\<rparr>\<rparr>"

text \<open>C20: get_selenium builds a helper whose constructor creates
  OUTPUT_DIRECTORY/VERSION and empties DOWNLOAD_DIRECTORY. When the two variables name
  the same absolute directory and VERSION is a relative name, the first session leaves
  a subdirectory in the download directory, and every later get_selenium on that file
  system raises IsADirectoryError.\<close>

theorem get_selenium_rerun_fails:
  assumes run: "get_selenium_helper to_float of_num env fs = (Inr s, fs1)" and wf: "wf_store fs"
    and same: "map_of env ''OUTPUT_DIRECTORY'' = map_of env ''DOWNLOAD_DIRECTORY''"
    and abs: "take 1 (the (map_of env ''DOWNLOAD_DIRECTORY'')) = ''/''"
    and ver: "py_path (env_get env ''VERSION'' ''0.0'') \<noteq> []"
    and rel: "take 1 (env_get env ''VERSION'' ''0.0'') \<noteq> ''/''"
  shows "fst (get_selenium_helper to_float of_num env fs1) = Inl IsADirectoryError"
proof -
  let ?dl = "download_directory (helper_args s)" and ?v = "version (helper_args s)"
  from run obtain u where g: "get_selenium to_float of_num env = Inr s"
    and h: "helper_init_files ?dl (output_directory (helper_args s)) ?v fs = (Inr u, fs1)"
    by (auto simp: get_selenium_helper_def split: sum.splits prod.splits)
  note args = get_selenium_args[OF g]
  have "Some (output_directory (helper_args s)) = Some ?dl" using args same by (metis (no_types))
  then have od: "output_directory (helper_args s) = ?dl" by simp
  let ?d = "py_path ?dl" and ?o = "path_join (py_path ?dl) ?v"
  have o: "?o = ?d @ py_path ?v" using rel args by (simp add: path_join_def)
  have d1: "?d \<noteq> []" using abs args by (simp add: py_path_def)
  have wf1: "wf_store fs1" using helper_init_files_wf[OF wf, of ?dl ?dl ?v] h od by simp
  have odir: "is_dir fs1 ?o" using helper_init_files_output[of ?dl ?dl ?v fs u fs1] h od by simp
  obtain c cs where v: "py_path ?v = c # cs" using ver args by (cases "py_path ?v") auto
  let ?q = "?d @ [c]"
  have qo: "take (Suc (length ?d)) ?o = ?q" using o v by simp
  have "is_dir fs1 (take (Suc (length ?d)) ?o)" by (rule wf_dir_prefix[OF wf1 odir]) (simp add: o v)
  then have qdir: "is_dir fs1 ?q" by (simp only: qo)
  have "2 \<le> length ?q" using d1 by (cases ?d) auto
  have nr: "\<not> is_root ?q"
  proof
    assume "is_root ?q"
    then have "length ?q = length ([] :: string list) \<or> length ?q = length [''/'']"
      unfolding is_root_def by metis
    with \<open>2 \<le> length ?q\<close> show False by simp
  qed
  then have qin: "(?q, Dir) \<in> set fs1" using qdir wf1 by (simp add: is_dir_def wf_store_set)
  have qpar: "path_parent ?q = ?d" using parent_take[OF nr] by simp
  have "is_dir fs1 (take (length ?d) ?o)" by (rule wf_dir_prefix[OF wf1 odir]) (simp add: o)
  then have "no_file_on fs1 ?d" using o by (simp add: wf_dir_no_file_on[OF wf1])
  from helper_init_files_subdir_aux[OF wf1 this qin _ qpar]
  have "fst (helper_init_files ?dl (output_directory (helper_args s)) ?v fs1) = Inl IsADirectoryError" by simp
  then obtain fs2 where "helper_init_files ?dl (output_directory (helper_args s)) ?v fs1 = (Inl IsADirectoryError, fs2)"
    by (cases "helper_init_files ?dl (output_directory (helper_args s)) ?v fs1") auto
  with g show ?thesis by (simp add: get_selenium_helper_def)
qed

theorem get_selenium_rerun_fails_witness:
  "get_selenium_helper demo_float (\<lambda>n. nat_str n) demo_environ_shared [] = (Inr demo_session, demo_run_store)
   \<and> fst (get_selenium_helper demo_float (\<lambda>n. nat_str n) demo_environ_shared demo_run_store) = Inl IsADirectoryError"
proof
  show run: "get_selenium_helper demo_float (\<lambda>n. nat_str n) demo_environ_shared [] = (Inr demo_session, demo_run_store)"
    by code_simp
  show "fst (get_selenium_helper demo_float (\<lambda>n. nat_str n) demo_environ_shared demo_run_store) = Inl IsADirectoryError"
  proof (rule get_selenium_rerun_fails[OF run])
    show "wf_store []" by (simp add: wf_store_def)
  qed (simp_all add: demo_environ_shared_def py_eval py_path_def)
qed

end
